theory Spec2Isabelle
  imports Complex_Main
begin

section \<open>Errors and tensors\<close>

text \<open>
  The program is a PyTorch training script (\<^verbatim>\<open>main.py\<close>). Every exception the modelled
  code can raise is a value: Python's \<^verbatim>\<open>ZeroDivisionError\<close> of the final mean, the
  \<^verbatim>\<open>RuntimeError\<close> PyTorch raises for incompatible shapes, its \<^verbatim>\<open>IndexError\<close> for a
  dimension that a tensor does not have, and the \<^verbatim>\<open>ValueError\<close> of \<^verbatim>\<open>random_split\<close>, of
  unpacking, of a sampler over no sample and of a normalisation layer given a single value.
\<close>

datatype error = ZeroDivisionError | RuntimeError | IndexError | ValueError

text \<open>
  Floating-point numbers are idealised: the elements of tensors are real numbers, and
  rounding and infinities are not modelled. A scalar that the program takes out of a tensor
  and computes with in Python (a loss, a running total, a mean) is a real number or
  \<^verbatim>\<open>nan\<close>, which \<^verbatim>\<open>torch.mean\<close> returns for a tensor without elements and which every
  operation passes on.
\<close>

datatype fl = is_fin: Fin (fin_val: real) | NaN

definition fadd :: "fl \<Rightarrow> fl \<Rightarrow> fl" where
  "fadd a b = (case (a, b) of (Fin x, Fin y) \<Rightarrow> Fin (x + y) | _ \<Rightarrow> NaN)"

definition fmul_nat :: "fl \<Rightarrow> nat \<Rightarrow> fl" where
  \<comment> \<open>a float times an integer\<close>
  "fmul_nat a n = (case a of Fin x \<Rightarrow> Fin (x * real n) | NaN \<Rightarrow> NaN)"

definition fdiv_nat :: "fl \<Rightarrow> nat \<Rightarrow> fl" where
  \<comment> \<open>a float divided by an integer that is not 0 (Python raises for 0; the callers do)\<close>
  "fdiv_nat a n = (case a of Fin x \<Rightarrow> Fin (x / real n) | NaN \<Rightarrow> NaN)"

primrec fsum :: "fl list \<Rightarrow> fl" where
  "fsum [] = Fin 0"
| "fsum (a # as) = fadd a (fsum as)"

text \<open>A tensor: its shape and its elements in row-major order.\<close>

record tensor =
  shape :: "nat list"
  vals :: "real list"

definition wf_tensor :: "tensor \<Rightarrow> bool" where
  "wf_tensor t \<longleftrightarrow> length (vals t) = prod_list (shape t)"

definition full :: "nat list \<Rightarrow> real \<Rightarrow> tensor" where
  \<comment> \<open>\<^verbatim>\<open>torch.full(s, c)\<close>: every element is \<open>c\<close>\<close>
  "full s c = \<lparr>shape = s, vals = replicate (prod_list s) c\<rparr>"

subsection \<open>Broadcasting, as PyTorch's binary operators do it\<close>

text \<open>
  Shapes are aligned at their last dimension; two sizes are compatible when they are equal
  or one of them is 1. \<open>broadcast_rev\<close> works on the reversed shapes.
\<close>

fun broadcast_rev :: "nat list \<Rightarrow> nat list \<Rightarrow> error + nat list" where
  "broadcast_rev [] ys = Inr ys"
| "broadcast_rev (x # xs) [] = Inr (x # xs)"
| "broadcast_rev (x # xs) (y # ys) =
     (case broadcast_rev xs ys of
        Inl e \<Rightarrow> Inl e
      | Inr zs \<Rightarrow>
          if x = y \<or> y = 1 then Inr (x # zs)
          else if x = 1 then Inr (y # zs)
          else Inl RuntimeError)"

definition broadcast_shapes :: "nat list \<Rightarrow> nat list \<Rightarrow> error + nat list" where
  "broadcast_shapes s1 s2 =
     (case broadcast_rev (rev s1) (rev s2) of Inl e \<Rightarrow> Inl e | Inr zs \<Rightarrow> Inr (rev zs))"

definition pad_shape :: "nat \<Rightarrow> nat list \<Rightarrow> nat list" where
  \<comment> \<open>a shape of lower rank counts as having leading dimensions of size 1\<close>
  "pad_shape r s = replicate (r - length s) 1 @ s"

text \<open>
  \<open>expand s s' xs\<close> lays the elements \<open>xs\<close> of a tensor of shape \<open>s\<close> out in the shape
  \<open>s'\<close> of the same rank: a dimension of equal size is walked through, a dimension of
  size 1 is repeated.
\<close>

fun expand :: "nat list \<Rightarrow> nat list \<Rightarrow> real list \<Rightarrow> real list" where
  "expand (d # ds) (D # Ds) xs =
     (if d = D
      then concat (map (\<lambda>i. expand ds Ds (take (prod_list ds) (drop (i * prod_list ds) xs)))
                     [0..<d])
      else concat (replicate D (expand ds Ds xs)))"
| "expand [] Ds xs = xs"
| "expand (d # ds) [] xs = xs"

definition tbinop :: "(real \<Rightarrow> real \<Rightarrow> real) \<Rightarrow> tensor \<Rightarrow> tensor \<Rightarrow> error + tensor" where
  "tbinop f a b =
     (case broadcast_shapes (shape a) (shape b) of
        Inl e \<Rightarrow> Inl e
      | Inr s \<Rightarrow>
          Inr \<lparr>shape = s,
               vals = map2 f (expand (pad_shape (length s) (shape a)) s (vals a))
                             (expand (pad_shape (length s) (shape b)) s (vals b))\<rparr>)"

definition tadd :: "tensor \<Rightarrow> tensor \<Rightarrow> error + tensor" where
  "tadd = tbinop (+)"

definition tsub :: "tensor \<Rightarrow> tensor \<Rightarrow> error + tensor" where
  "tsub = tbinop (-)"

definition torch_abs :: "tensor \<Rightarrow> tensor" where
  "torch_abs t = \<lparr>shape = shape t, vals = map abs (vals t)\<rparr>"

definition torch_mean :: "tensor \<Rightarrow> fl" where
  \<comment> \<open>\<^verbatim>\<open>torch.mean(t)\<close> as a scalar: \<^verbatim>\<open>nan\<close> for a tensor without elements\<close>
  "torch_mean t =
     (if vals t = [] then NaN
      else Fin (sum_list (vals t) / real (length (vals t))))"

section \<open>The photometric loss\<close>

text \<open>
  \<^verbatim>\<open>kornia.get_perspective_transform\<close> and \<^verbatim>\<open>kornia.warp_perspective\<close> belong to a
  third-party library; the program only calls them. They are parameters of the model:
  any two functions of these types, each of which may fail.
\<close>

record kornia =
  get_perspective_transform :: "tensor \<Rightarrow> tensor \<Rightarrow> error + tensor"
  warp_perspective :: "tensor \<Rightarrow> tensor \<Rightarrow> nat \<times> nat \<Rightarrow> error + tensor"

text \<open>
  \<^verbatim>\<open>
  def photometric_loss(delta, img_a, img_b, points):
      points_hat = points + delta
      h = kornia.get_perspective_transform(points, points_hat)
      img_b_hat = kornia.warp_perspective(img_a, h, (256, 256))
      return torch.mean(torch.abs(img_b_hat - img_b))
  \<close>
\<close>

definition photometric_loss ::
  "kornia \<Rightarrow> tensor \<Rightarrow> tensor \<Rightarrow> tensor \<Rightarrow> tensor \<Rightarrow> error + fl" where
  "photometric_loss K delta img_a img_b points =
     (case tadd points delta of
        Inl e \<Rightarrow> Inl e
      | Inr points_hat \<Rightarrow>
     (case get_perspective_transform K points points_hat of
        Inl e \<Rightarrow> Inl e
      | Inr h \<Rightarrow>
     (case warp_perspective K img_a h (256, 256) of
        Inl e \<Rightarrow> Inl e
      | Inr img_b_hat \<Rightarrow>
     (case tsub img_b_hat img_b of
        Inl e \<Rightarrow> Inl e
      | Inr d \<Rightarrow> Inr (torch_mean (torch_abs d))))))"

text \<open>
  The loss as the specification words it, to be compared with the definition above:
  destination points are the element-wise sum, the first image is warped to the resolution
  of the second image, and the loss is the mean of the absolute pixel-wise differences.
\<close>

definition resolution :: "tensor \<Rightarrow> nat \<times> nat" where
  \<comment> \<open>height and width: the last two dimensions\<close>
  "resolution t = (case rev (shape t) of w # h # _ \<Rightarrow> (h, w) | _ \<Rightarrow> (0, 0))"

definition elementwise :: "(real \<Rightarrow> real \<Rightarrow> real) \<Rightarrow> tensor \<Rightarrow> tensor \<Rightarrow> error + tensor" where
  "elementwise f a b =
     (if shape a = shape b then Inr \<lparr>shape = shape a, vals = map2 f (vals a) (vals b)\<rparr>
      else Inl RuntimeError)"

definition mean_abs_diff :: "tensor \<Rightarrow> tensor \<Rightarrow> error + fl" where
  "mean_abs_diff a b =
     (if shape a \<noteq> shape b then Inl RuntimeError
      else if vals a = [] then Inr NaN
      else Inr (Fin ((\<Sum>(x, y) \<leftarrow> zip (vals a) (vals b). \<bar>x - y\<bar>) / real (length (vals a)))))"

definition photometric_loss_spec ::
  "kornia \<Rightarrow> tensor \<Rightarrow> tensor \<Rightarrow> tensor \<Rightarrow> tensor \<Rightarrow> error + fl" where
  "photometric_loss_spec K delta img_a img_b points =
     (case elementwise (+) points delta of
        Inl e \<Rightarrow> Inl e
      | Inr points_hat \<Rightarrow>
     (case get_perspective_transform K points points_hat of
        Inl e \<Rightarrow> Inl e
      | Inr h \<Rightarrow>
     (case warp_perspective K img_a h (resolution img_b) of
        Inl e \<Rightarrow> Inl e
      | Inr img_b_hat \<Rightarrow> mean_abs_diff img_b_hat img_b)))"

text \<open>
  What the documentation of \<^verbatim>\<open>warp_perspective\<close> promises about shapes: a batch of
  images \<open>(B, C, H, W)\<close> is warped to \<open>(B, C, h, w)\<close> for the target size \<open>(h, w)\<close>.
\<close>

definition warp_shapes :: "kornia \<Rightarrow> bool" where
  "warp_shapes K \<longleftrightarrow>
     (\<forall>src h dsize out. warp_perspective K src h dsize = Inr out \<longrightarrow>
        wf_tensor out \<and>
        (\<exists>B C H W. shape src = [B, C, H, W] \<and> shape out = [B, C, fst dsize, snd dsize]))"

text \<open>
  A small instance of the library interface, used to run the definitions on concrete
  inputs: the transform of a point set onto itself is the batch of \<open>3 \<times> 3\<close> identity
  matrices (other transforms are not computed), and the warp returns the source image when
  the target size is the source's own resolution and a black image of the target size
  otherwise.
\<close>

definition eye3 :: "nat \<Rightarrow> tensor" where
  "eye3 B = \<lparr>shape = [B, 3, 3], vals = concat (replicate B [1, 0, 0, 0, 1, 0, 0, 0, 1])\<rparr>"

definition toy_kornia :: kornia where
  "toy_kornia =
     \<lparr>get_perspective_transform = (\<lambda>src dst.
        if src = dst then Inr (eye3 (hd (shape src))) else Inl RuntimeError),
      warp_perspective = (\<lambda>src h dsize.
        case shape src of
          [B, C, H, W] \<Rightarrow>
            if wf_tensor src \<and> dsize = (H, W) then Inr src
            else Inr (full [B, C, fst dsize, snd dsize] 0)
        | _ \<Rightarrow> Inl RuntimeError)\<rparr>"

subsection \<open>The projective transform of four correspondences\<close>

text \<open>
  Modelled from the spec: the code of \<^verbatim>\<open>kornia.get_perspective_transform\<close> is not part of
  the repository, and the specification words what it computes: \<^emph>\<open>solve for the unique
  projective transform mapping the 4 source points to the 4 destination points (a
  homogeneous linear system; fails or returns a degenerate transform if the 4 points are
  collinear or coincident)\<close>. Over the reals that transform exists and is unique exactly when
  no three of the source points and no three of the destination points are collinear. It is
  given here in closed form: the matrix \<open>frame\<close> of four points maps the three unit vectors
  and \<open>(1, 1, 1)\<close> onto multiples of the homogeneous coordinates of the points, and the
  transform is the frame of the destination points times the inverse of the frame of the
  source points. For four points not in that position the solver fails. A transform is
  applied to a point by the division by the third homogeneous coordinate.
\<close>

type_synonym point = "real \<times> real"
type_synonym vec3 = "real \<times> real \<times> real"
type_synonym mat3 = "vec3 \<times> vec3 \<times> vec3"

definition hom :: "point \<Rightarrow> vec3" where
  \<comment> \<open>Modelled from the spec: homogeneous coordinates of a point\<close>
  "hom p = (fst p, snd p, 1)"

definition smul :: "real \<Rightarrow> vec3 \<Rightarrow> vec3" where
  \<comment> \<open>Modelled from the spec: a multiple of a vector\<close>
  "smul k v = (case v of (x, y, z) \<Rightarrow> (k * x, k * y, k * z))"

definition mat_vec :: "mat3 \<Rightarrow> vec3 \<Rightarrow> vec3" where
  \<comment> \<open>Modelled from the spec: a matrix, given by its rows, times a vector\<close>
  "mat_vec M v =
     (case (M, v) of (((a, b, c), (d, e, f), (g, h, i)), (x, y, z)) \<Rightarrow>
        (a * x + b * y + c * z, d * x + e * y + f * z, g * x + h * y + i * z))"

definition mat_mul :: "mat3 \<Rightarrow> mat3 \<Rightarrow> mat3" where
  \<comment> \<open>Modelled from the spec: the product of two matrices\<close>
  "mat_mul A B =
     (case (A, B) of
        (((a, b, c), (d, e, f), (g, h, i)), ((a', b', c'), (d', e', f'), (g', h', i'))) \<Rightarrow>
        ((a * a' + b * d' + c * g', a * b' + b * e' + c * h', a * c' + b * f' + c * i'),
         (d * a' + e * d' + f * g', d * b' + e * e' + f * h', d * c' + e * f' + f * i'),
         (g * a' + h * d' + i * g', g * b' + h * e' + i * h', g * c' + h * f' + i * i')))"

definition det3 :: "mat3 \<Rightarrow> real" where
  \<comment> \<open>Modelled from the spec: the determinant\<close>
  "det3 M =
     (case M of ((a, b, c), (d, e, f), (g, h, i)) \<Rightarrow>
        a * (e * i - f * h) - b * (d * i - f * g) + c * (d * h - e * g))"

definition adj3 :: "mat3 \<Rightarrow> mat3" where
  \<comment> \<open>Modelled from the spec: the adjugate, the transposed matrix of cofactors\<close>
  "adj3 M =
     (case M of ((a, b, c), (d, e, f), (g, h, i)) \<Rightarrow>
        ((e * i - f * h, c * h - b * i, b * f - c * e),
         (f * g - d * i, a * i - c * g, c * d - a * f),
         (d * h - e * g, b * g - a * h, a * e - b * d)))"

definition mat_scale :: "real \<Rightarrow> mat3 \<Rightarrow> mat3" where
  \<comment> \<open>Modelled from the spec: a multiple of a matrix\<close>
  "mat_scale k M = (case M of (r1, r2, r3) \<Rightarrow> (smul k r1, smul k r2, smul k r3))"

definition mat_inv :: "mat3 \<Rightarrow> mat3" where
  \<comment> \<open>Modelled from the spec: the inverse of a matrix of non-zero determinant\<close>
  "mat_inv M = mat_scale (1 / det3 M) (adj3 M)"

definition mat_id :: mat3 where
  \<comment> \<open>Modelled from the spec: the identity transform\<close>
  "mat_id = ((1, 0, 0), (0, 1, 0), (0, 0, 1))"

definition tri :: "point \<Rightarrow> point \<Rightarrow> point \<Rightarrow> real" where
  \<comment> \<open>Modelled from the spec: twice the signed area of the triangle, zero exactly when
      the three points are collinear\<close>
  "tri p q r = (fst q - fst p) * (snd r - snd p) - (snd q - snd p) * (fst r - fst p)"

definition general_position :: "point list \<Rightarrow> bool" where
  \<comment> \<open>Modelled from the spec: four points that are non-degenerate and non-collinear, no
      three of them on a line (so no two of them equal)\<close>
  "general_position ps =
     (case ps of
        [p1, p2, p3, p4] \<Rightarrow>
          tri p1 p2 p3 \<noteq> 0 \<and> tri p4 p2 p3 \<noteq> 0 \<and> tri p1 p4 p3 \<noteq> 0 \<and> tri p1 p2 p4 \<noteq> 0
      | _ \<Rightarrow> False)"

definition frame :: "point \<Rightarrow> point \<Rightarrow> point \<Rightarrow> point \<Rightarrow> mat3" where
  \<comment> \<open>Modelled from the spec: the columns are the homogeneous coordinates of the first
      three points, scaled so that their sum is a multiple of those of the fourth\<close>
  "frame p1 p2 p3 p4 =
     (let l1 = tri p4 p2 p3; l2 = tri p1 p4 p3; l3 = tri p1 p2 p4
      in ((l1 * fst p1, l2 * fst p2, l3 * fst p3),
          (l1 * snd p1, l2 * snd p2, l3 * snd p3),
          (l1, l2, l3)))"

definition apply_homography :: "mat3 \<Rightarrow> point \<Rightarrow> point option" where
  \<comment> \<open>Modelled from the spec: the image of a point under a projective transform; a point
      sent to infinity has no image\<close>
  "apply_homography H p =
     (case mat_vec H (hom p) of (x, y, w) \<Rightarrow> if w = 0 then None else Some (x / w, y / w))"

definition solve_homography :: "point list \<Rightarrow> point list \<Rightarrow> mat3 option" where
  \<comment> \<open>Modelled from the spec: the projective transform of four source points onto four
      destination points\<close>
  "solve_homography src dst =
     (case (src, dst) of
        ([s1, s2, s3, s4], [d1, d2, d3, d4]) \<Rightarrow>
          if general_position src \<and> general_position dst
          then Some (mat_mul (frame d1 d2 d3 d4) (mat_inv (frame s1 s2 s3 s4)))
          else None
      | _ \<Rightarrow> None)"

text \<open>
  The batched form the program calls: the points are tensors of shape \<open>(B, 4, 2)\<close>, the
  result is the tensor of shape \<open>(B, 3, 3)\<close> of the \<open>B\<close> transforms. \<open>sample t b\<close> is the list
  of the four points of sample \<open>b\<close> of a tensor of points, \<open>matrix h b\<close> the matrix of sample
  \<open>b\<close> of a tensor of transforms.
\<close>

fun points_of :: "real list \<Rightarrow> point list" where
  \<comment> \<open>Modelled from the spec: the points whose coordinates a flat list holds\<close>
  "points_of (x # y # r) = (x, y) # points_of r"
| "points_of _ = []"

definition sample :: "tensor \<Rightarrow> nat \<Rightarrow> point list" where
  \<comment> \<open>Modelled from the spec: the four points of sample \<open>b\<close>\<close>
  "sample t b = points_of (take 8 (drop (8 * b) (vals t)))"

definition mat_list :: "mat3 \<Rightarrow> real list" where
  \<comment> \<open>Modelled from the spec: the entries of a matrix, row by row\<close>
  "mat_list M = (case M of ((a, b, c), (d, e, f), (g, h, i)) \<Rightarrow> [a, b, c, d, e, f, g, h, i])"

definition mat_of_list :: "real list \<Rightarrow> mat3" where
  \<comment> \<open>Modelled from the spec: the matrix of nine entries given row by row\<close>
  "mat_of_list xs =
     (case xs of
        [a, b, c, d, e, f, g, h, i] \<Rightarrow> ((a, b, c), (d, e, f), (g, h, i))
      | _ \<Rightarrow> ((0, 0, 0), (0, 0, 0), (0, 0, 0)))"

definition matrix :: "tensor \<Rightarrow> nat \<Rightarrow> mat3" where
  \<comment> \<open>Modelled from the spec: the transform of sample \<open>b\<close>\<close>
  "matrix h b = mat_of_list (take 9 (drop (9 * b) (vals h)))"

definition spec_get_perspective_transform :: "tensor \<Rightarrow> tensor \<Rightarrow> error + tensor" where
  \<comment> \<open>Modelled from the spec: \<^verbatim>\<open>kornia.get_perspective_transform(src, dst)\<close>, sample by
      sample\<close>
  "spec_get_perspective_transform src dst =
     (if wf_tensor src \<and> wf_tensor dst \<and> shape dst = shape src
         \<and> shape src = [hd (shape src), 4, 2]
      then (let Hs = map (\<lambda>b. solve_homography (sample src b) (sample dst b))
                       [0..<hd (shape src)]
            in if list_all (\<lambda>r. r \<noteq> None) Hs
               then Inr \<lparr>shape = [hd (shape src), 3, 3],
                         vals = concat (map (\<lambda>r. case r of Some H \<Rightarrow> mat_list H | None \<Rightarrow> []) Hs)\<rparr>
               else Inl RuntimeError)
      else Inl RuntimeError)"

section \<open>The predictor network, on shapes\<close>

text \<open>
  The claims about the network concern the shape of what \<^verbatim>\<open>Net.forward\<close> returns, so each
  layer is modelled by what it does to the shape of its input, including the shapes it
  rejects. The numbers a layer computes are not part of this model.
\<close>

type_synonym layer = "nat list \<Rightarrow> error + nat list"

fun sequential :: "layer list \<Rightarrow> layer" where
  \<comment> \<open>\<^verbatim>\<open>nn.Sequential\<close>: the layers in order, stopping at the first failure\<close>
  "sequential [] x = Inr x"
| "sequential (l # ls) x = (case l x of Inl e \<Rightarrow> Inl e | Inr y \<Rightarrow> sequential ls y)"

definition conv2d :: "nat \<Rightarrow> nat \<Rightarrow> nat \<Rightarrow> nat \<Rightarrow> layer" where
  \<comment> \<open>\<^verbatim>\<open>nn.Conv2d(cin, cout, kernel_size=k, padding=p)\<close>, stride 1\<close>
  "conv2d cin cout k p s =
     (case s of
        [N, C, H, W] \<Rightarrow>
          if C = cin \<and> k \<le> H + 2 * p \<and> k \<le> W + 2 * p
          then Inr [N, cout, H + 2 * p - k + 1, W + 2 * p - k + 1]
          else Inl RuntimeError
      | _ \<Rightarrow> Inl RuntimeError)"

definition relu :: layer where
  "relu s = Inr s"

definition batchnorm2d :: "bool \<Rightarrow> nat \<Rightarrow> layer" where
  \<comment> \<open>\<^verbatim>\<open>nn.BatchNorm2d(c)\<close>; in training mode it refuses a single value per channel\<close>
  "batchnorm2d training c s =
     (case s of
        [N, C, H, W] \<Rightarrow>
          if C \<noteq> c then Inl RuntimeError
          else if training \<and> N * H * W = 1 then Inl ValueError
          else Inr [N, C, H, W]
      | _ \<Rightarrow> Inl RuntimeError)"

definition maxpool2d :: "nat \<Rightarrow> nat \<Rightarrow> layer" where
  \<comment> \<open>\<^verbatim>\<open>nn.MaxPool2d(k, st)\<close>, no padding; an output without pixels is refused\<close>
  "maxpool2d k st s =
     (case s of
        [N, C, H, W] \<Rightarrow>
          if k \<le> H \<and> k \<le> W then Inr [N, C, (H - k) div st + 1, (W - k) div st + 1]
          else Inl RuntimeError
      | _ \<Rightarrow> Inl RuntimeError)"

definition linear :: "nat \<Rightarrow> nat \<Rightarrow> layer" where
  \<comment> \<open>\<^verbatim>\<open>nn.Linear(fin, fout)\<close>: the last dimension must be \<open>fin\<close>\<close>
  "linear fin fout s =
     (if s \<noteq> [] \<and> last s = fin then Inr (butlast s @ [fout]) else Inl RuntimeError)"

definition view :: "int list \<Rightarrow> layer" where
  \<comment> \<open>\<^verbatim>\<open>x.view(*tgt)\<close>, where one entry of \<open>tgt\<close> may be \<open>-1\<close> and is then inferred\<close>
  "view tgt s =
     (let numel = prod_list s;
          known = prod_list (map nat (filter (\<lambda>d. d \<noteq> - 1) tgt))
      in if 1 < count_list tgt (- 1) \<or> list_ex (\<lambda>d. d < - 1) tgt then Inl RuntimeError
         else if - 1 \<in> set tgt
         then (if known = 0 \<or> numel mod known \<noteq> 0 then Inl RuntimeError
               else Inr (map (\<lambda>d. if d = - 1 then numel div known else nat d) tgt))
         else if known = numel then Inr (map nat tgt)
         else Inl RuntimeError)"

text \<open>
  \<^verbatim>\<open>
  class Flatten(nn.Module):
      def forward(self, x):
          return x.view(x.size(0), -1)
  \<close>
\<close>

definition Flatten :: layer where
  "Flatten s = (case s of [] \<Rightarrow> Inl IndexError | n # _ \<Rightarrow> view [int n, - 1] s)"

text \<open>
  \<^verbatim>\<open>
  class Block(nn.Module):
      def __init__(self, inchannels, outchannels, batch_norm=True):
          layers = []
          layers.append(nn.Conv2d(inchannels, outchannels, kernel_size=3, padding=1))
          layers.append(nn.ReLU())
          if batch_norm:
              layers.append(nn.BatchNorm2d(outchannels))
          layers.append(nn.Conv2d(outchannels, outchannels, kernel_size=3, padding=1))
          layers.append(nn.ReLU())
          if batch_norm:
              layers.append(nn.BatchNorm2d(outchannels))
          layers.append(nn.MaxPool2d(2, 2))
          self.layers = nn.Sequential(*layers)
  \<close>
\<close>

definition Block :: "bool \<Rightarrow> nat \<Rightarrow> nat \<Rightarrow> bool \<Rightarrow> layer" where
  "Block training inchannels outchannels batch_norm =
     sequential
       ([conv2d inchannels outchannels 3 1, relu]
        @ (if batch_norm then [batchnorm2d training outchannels] else [])
        @ [conv2d outchannels outchannels 3 1, relu]
        @ (if batch_norm then [batchnorm2d training outchannels] else [])
        @ [maxpool2d 2 2])"

definition torch_cat1 :: "nat list \<Rightarrow> nat list \<Rightarrow> error + nat list" where
  \<comment> \<open>\<^verbatim>\<open>torch.cat((a, b), dim=1)\<close>: all dimensions but the second must agree; a tensor
      without dimensions is refused, an empty one-dimensional tensor is skipped\<close>
  "torch_cat1 a b =
     (if a = [] \<or> b = [] then Inl RuntimeError
      else if a = [0] \<and> b = [0] then Inr [0]
      else if a = [0] then (if length b < 2 then Inl IndexError else Inr b)
      else if b = [0] then (if length a < 2 then Inl IndexError else Inr a)
      else (case (a, b) of
              (n # c # r, n' # c' # r') \<Rightarrow>
                if n = n' \<and> r = r' then Inr (n # (c + c') # r) else Inl RuntimeError
            | _ \<Rightarrow> Inl IndexError))"

text \<open>
  \<^verbatim>\<open>
  class Net(nn.Module):
      def __init__(self, batch_norm=True):
          self.cnn = nn.Sequential(
              Block(2, 64, batch_norm), Block(64, 128, batch_norm),
              Block(128, 256, batch_norm), Block(256, 256, batch_norm),
              Block(256, 256, batch_norm), Flatten())
          self.fc = nn.Sequential(
              nn.Linear(256 * 4 * 4, 4096), nn.ReLU(), nn.Linear(4096, 4 * 2))

      def forward(self, a, b):
          x = torch.cat((a, b), dim=1)
          x = self.cnn(x)
          x = self.fc(x)
          delta = x.view(-1, 4, 2)
          return delta
  \<close>
  \<open>training\<close> is the mode the module is in (\<^verbatim>\<open>model.train()\<close> or \<^verbatim>\<open>model.eval()\<close>).
\<close>

definition Net_cnn :: "bool \<Rightarrow> bool \<Rightarrow> layer" where
  "Net_cnn training batch_norm =
     sequential
       [Block training 2 64 batch_norm,
        Block training 64 128 batch_norm,
        Block training 128 256 batch_norm,
        Block training 256 256 batch_norm,
        Block training 256 256 batch_norm,
        Flatten]"

definition Net_fc :: layer where
  "Net_fc = sequential [linear (256 * 4 * 4) 4096, relu, linear 4096 (4 * 2)]"

definition Net_forward :: "bool \<Rightarrow> bool \<Rightarrow> nat list \<Rightarrow> nat list \<Rightarrow> error + nat list" where
  "Net_forward training batch_norm a b =
     (case torch_cat1 a b of
        Inl e \<Rightarrow> Inl e
      | Inr x \<Rightarrow>
     (case Net_cnn training batch_norm x of
        Inl e \<Rightarrow> Inl e
      | Inr x \<Rightarrow>
     (case Net_fc x of
        Inl e \<Rightarrow> Inl e
      | Inr x \<Rightarrow> view [- 1, 4, 2] x)))"

section \<open>Data: samples, batches and the loader\<close>

text \<open>
  A dataset item is the 5-tuple \<^verbatim>\<open>(img_a, img_b, patch_a, patch_b, points)\<close>; a batch is
  the same tuple with every tensor stacked along a new first dimension, which is what the
  loader's default collation does.
\<close>

record item =
  t_img_a :: tensor
  t_img_b :: tensor
  t_patch_a :: tensor
  t_patch_b :: tensor
  t_points :: tensor

definition torch_stack :: "tensor list \<Rightarrow> error + tensor" where
  \<comment> \<open>\<^verbatim>\<open>torch.stack\<close>: the tensors must all have the same shape\<close>
  "torch_stack ts =
     (case ts of
        [] \<Rightarrow> Inl RuntimeError
      | t # _ \<Rightarrow>
          if list_all (\<lambda>u. shape u = shape t) ts
          then Inr \<lparr>shape = length ts # shape t, vals = concat (map vals ts)\<rparr>
          else Inl RuntimeError)"

definition collate :: "item list \<Rightarrow> error + item" where
  "collate xs =
     (case torch_stack (map t_img_a xs) of Inl e \<Rightarrow> Inl e | Inr ia \<Rightarrow>
     (case torch_stack (map t_img_b xs) of Inl e \<Rightarrow> Inl e | Inr ib \<Rightarrow>
     (case torch_stack (map t_patch_a xs) of Inl e \<Rightarrow> Inl e | Inr pa \<Rightarrow>
     (case torch_stack (map t_patch_b xs) of Inl e \<Rightarrow> Inl e | Inr pb \<Rightarrow>
     (case torch_stack (map t_points xs) of Inl e \<Rightarrow> Inl e | Inr pt \<Rightarrow>
        Inr \<lparr>t_img_a = ia, t_img_b = ib, t_patch_a = pa, t_patch_b = pb, t_points = pt\<rparr>)))))"

function chunks :: "nat \<Rightarrow> 'a list \<Rightarrow> 'a list list" where
  "chunks n xs = (if n = 0 \<or> xs = [] then [] else take n xs # chunks n (drop n xs))"
  by pat_completeness auto
termination
  by (relation "measure (\<lambda>(n, xs). length xs)") auto

declare chunks.simps [simp del]

text \<open>
  A \<^verbatim>\<open>DataLoader\<close> as one pass over it sees it: the dataset, the batch size, and the
  order in which the sampler yields the indices in this pass (a random permutation when
  \<^verbatim>\<open>shuffle=True\<close>, the identity otherwise). The last batch is partial when the batch size
  does not divide the number of indices (\<^verbatim>\<open>drop_last\<close> is left at \<^verbatim>\<open>False\<close>). The
  constructor refuses a batch size of 0; the program uses 64.
\<close>

record dataloader =
  dl_dataset :: "item list"
  dl_batch_size :: nat
  dl_order :: "nat list"

definition wf_dataloader :: "dataloader \<Rightarrow> bool" where
  \<comment> \<open>a positive batch size, and a sampler that yields every index of the dataset once\<close>
  "wf_dataloader dl \<longleftrightarrow>
     0 < dl_batch_size dl \<and> sort (dl_order dl) = [0..<length (dl_dataset dl)]"

fun fetch_all :: "item list \<Rightarrow> nat list \<Rightarrow> error + item list" where
  \<comment> \<open>\<^verbatim>\<open>[dataset[i] for i in indices]\<close>\<close>
  "fetch_all ds [] = Inr []"
| "fetch_all ds (i # idxs) =
     (if i < length ds
      then (case fetch_all ds idxs of Inl e \<Rightarrow> Inl e | Inr xs \<Rightarrow> Inr (ds ! i # xs))
      else Inl IndexError)"

definition batches :: "dataloader \<Rightarrow> (error + item) list" where
  \<comment> \<open>what iterating the loader yields: a batch, or the exception of fetching or collating it\<close>
  "batches dl =
     map (\<lambda>idxs. case fetch_all (dl_dataset dl) idxs of Inl e \<Rightarrow> Inl e | Inr xs \<Rightarrow> collate xs)
       (chunks (dl_batch_size dl) (dl_order dl))"

section \<open>The model, the optimizer and the effects of the program\<close>

text \<open>
  The state of the \<^verbatim>\<open>Net\<close> module: its parameters and buffers (the running statistics
  of the normalisation layers) as flat vectors, the gradient buffer of the parameters
  (\<^verbatim>\<open>None\<close> until a first backward pass fills it), the mode, and the constructor's flag.
\<close>

record model =
  m_params :: "real list"
  m_buffers :: "real list"
  m_grad :: "real list option"
  m_training :: bool
  m_batch_norm :: bool

record optimizer =
  opt_lr :: real
  opt_state :: "real list"

datatype effect =
    AddScalar string fl "int option"
  | Flush
  | Print string
  | Save string "real list \<times> real list"

text \<open>
  The numerics the program takes from PyTorch and kornia are parameters: the numbers the
  network computes and the buffers a forward pass leaves, the gradient that automatic
  differentiation derives for a batch, and the update rule of \<^verbatim>\<open>Adam\<close>. A forward pass
  reads the parameters and cannot change them; \<^verbatim>\<open>optimizer.step()\<close> reads the gradient
  buffer and does not clear it.
\<close>

record backend =
  net_values :: "bool \<Rightarrow> real list \<Rightarrow> real list \<Rightarrow> tensor \<Rightarrow> tensor \<Rightarrow> real list \<times> real list"
  autograd :: "real list \<Rightarrow> real list \<Rightarrow> item \<Rightarrow> real list"
  adam_step :: "optimizer \<Rightarrow> real list \<Rightarrow> real list option \<Rightarrow> optimizer \<times> real list"
  lib :: kornia

definition Net_call :: "backend \<Rightarrow> model \<Rightarrow> tensor \<Rightarrow> tensor \<Rightarrow> error + tensor \<times> model" where
  \<comment> \<open>\<^verbatim>\<open>model(patch_a, patch_b)\<close>: the shape is that of \<open>Net_forward\<close>\<close>
  "Net_call T m a b =
     (case Net_forward (m_training m) (m_batch_norm m) (shape a) (shape b) of
        Inl e \<Rightarrow> Inl e
      | Inr s \<Rightarrow>
          (case net_values T (m_training m) (m_params m) (m_buffers m) a b of
             (v, bufs) \<Rightarrow> Inr (\<lparr>shape = s, vals = v\<rparr>, m\<lparr>m_buffers := bufs\<rparr>)))"

definition size0 :: "tensor \<Rightarrow> error + nat" where
  \<comment> \<open>\<^verbatim>\<open>t.size(0)\<close>\<close>
  "size0 t = (case shape t of [] \<Rightarrow> Inl IndexError | n # _ \<Rightarrow> Inr n)"

definition backward :: "backend \<Rightarrow> model \<Rightarrow> item \<Rightarrow> model" where
  \<comment> \<open>\<^verbatim>\<open>loss.backward()\<close> adds the gradient of the loss to the gradient buffer\<close>
  "backward T m b =
     (let g = autograd T (m_params m) (m_buffers m) b
      in m\<lparr>m_grad := Some (case m_grad m of None \<Rightarrow> g | Some g0 \<Rightarrow> map2 (+) g0 g)\<rparr>)"

definition add_scalar :: "effect list \<Rightarrow> string \<Rightarrow> fl \<Rightarrow> int option \<Rightarrow> effect list" where
  \<comment> \<open>\<^verbatim>\<open>SummaryWriter.add_scalar(tag, scalar_value, global_step=None)\<close>\<close>
  "add_scalar writer tag scalar_value global_step =
     writer @ [AddScalar tag scalar_value global_step]"

definition flush :: "effect list \<Rightarrow> effect list" where
  "flush writer = writer @ [Flush]"

section \<open>The training step\<close>

text \<open>
  \<^verbatim>\<open>
  def train_step(model, optimizer, dataloader, writer):
      model.train()
      total_loss = 0.0
      size = len(dataloader.dataset)
      for img_a, img_b, patch_a, patch_b, points in tqdm(dataloader, leave=False):
          ... (the five tensors are moved to the device)
          delta = model(patch_a, patch_b)
          loss = photometric_loss(delta, img_a, img_b, points)
          total_loss += loss.item() * img_a.size(0)
          loss.backward()
          optimizer.step()
          writer.add_scalar("train_loss", loss.item())
          writer.flush()
      return total_loss / size
  \<close>
  The function mutates the model, the optimizer and the writer it is given; the model
  returns them with the mean loss. The writer is the trace of effects it appends to; the
  call of \<^verbatim>\<open>add_scalar\<close> names no step, so \<^verbatim>\<open>global_step\<close> is \<^verbatim>\<open>None\<close>. The body of the loop is
  cut in two at \<^verbatim>\<open>loss.backward()\<close>: \<open>before_backward\<close> is the body up to that call and
  returns the loss with the state, \<open>from_backward\<close> is the rest. An exception ends the
  program, so a failing step yields the error alone.
\<close>

record train_state =
  ts_model :: model
  ts_optimizer :: optimizer
  ts_writer :: "effect list"
  total_loss :: fl

definition before_backward :: "backend \<Rightarrow> train_state \<Rightarrow> item \<Rightarrow> error + train_state \<times> fl" where
  "before_backward T st b =
     (case Net_call T (ts_model st) (t_patch_a b) (t_patch_b b) of
        Inl e \<Rightarrow> Inl e
      | Inr (delta, m) \<Rightarrow>
     (case photometric_loss (lib T) delta (t_img_a b) (t_img_b b) (t_points b) of
        Inl e \<Rightarrow> Inl e
      | Inr loss \<Rightarrow>
     (case size0 (t_img_a b) of
        Inl e \<Rightarrow> Inl e
      | Inr n \<Rightarrow>
          Inr (st\<lparr>ts_model := m, total_loss := fadd (total_loss st) (fmul_nat loss n)\<rparr>,
               loss))))"

definition from_backward :: "backend \<Rightarrow> train_state \<Rightarrow> item \<Rightarrow> fl \<Rightarrow> train_state" where
  "from_backward T st b loss =
     (let m = backward T (ts_model st) b;
          (opt, ps) = adam_step T (ts_optimizer st) (m_params m) (m_grad m);
          w = add_scalar (ts_writer st) ''train_loss'' loss None
      in st\<lparr>ts_model := m\<lparr>m_params := ps\<rparr>, ts_optimizer := opt, ts_writer := flush w\<rparr>)"

definition train_batch :: "backend \<Rightarrow> train_state \<Rightarrow> item \<Rightarrow> error + train_state" where
  "train_batch T st b =
     (case before_backward T st b of
        Inl e \<Rightarrow> Inl e
      | Inr (st', loss) \<Rightarrow> Inr (from_backward T st' b loss))"

fun train_loop :: "backend \<Rightarrow> train_state \<Rightarrow> (error + item) list \<Rightarrow> error + train_state" where
  "train_loop T st [] = Inr st"
| "train_loop T st (Inl e # bs) = Inl e"
| "train_loop T st (Inr b # bs) =
     (case train_batch T st b of Inl e \<Rightarrow> Inl e | Inr st' \<Rightarrow> train_loop T st' bs)"

definition train_step ::
  "backend \<Rightarrow> model \<Rightarrow> optimizer \<Rightarrow> dataloader \<Rightarrow> effect list
     \<Rightarrow> error + model \<times> optimizer \<times> effect list \<times> fl" where
  "train_step T m opt dataloader writer =
     (let st = \<lparr>ts_model = m\<lparr>m_training := True\<rparr>, ts_optimizer = opt, ts_writer = writer,
                 total_loss = Fin 0\<rparr>;
          sz = length (dl_dataset dataloader)
      in case train_loop T st (batches dataloader) of
           Inl e \<Rightarrow> Inl e
         | Inr st' \<Rightarrow>
             if sz = 0 then Inl ZeroDivisionError
             else Inr (ts_model st', ts_optimizer st', ts_writer st',
                       fdiv_nat (total_loss st') sz))"

section \<open>The validation step\<close>

text \<open>
  \<^verbatim>\<open>
  def valid_step(model, dataloader):
      model.eval()
      with torch.no_grad():
          total_loss = 0.0
          size = len(dataloader.dataset)
          for img_a, img_b, patch_a, patch_b, points in tqdm(dataloader, leave=False):
              ... (the five tensors are moved to the device)
              delta = model(patch_a, patch_b)
              loss = photometric_loss(delta, img_a, img_b, points)
              total_loss += loss.item() * img_a.size(0)
          return total_loss / size
  \<close>
  Under \<^verbatim>\<open>torch.no_grad()\<close> no graph is recorded; the values computed are the same. The
  state of the loop is the model and the running total; \<open>sz\<close> is the source's \<^verbatim>\<open>size\<close>.
\<close>

definition valid_batch :: "backend \<Rightarrow> model \<times> fl \<Rightarrow> item \<Rightarrow> error + model \<times> fl" where
  "valid_batch T st b =
     (case Net_call T (fst st) (t_patch_a b) (t_patch_b b) of
        Inl e \<Rightarrow> Inl e
      | Inr (delta, m) \<Rightarrow>
     (case photometric_loss (lib T) delta (t_img_a b) (t_img_b b) (t_points b) of
        Inl e \<Rightarrow> Inl e
      | Inr loss \<Rightarrow>
     (case size0 (t_img_a b) of
        Inl e \<Rightarrow> Inl e
      | Inr n \<Rightarrow> Inr (m, fadd (snd st) (fmul_nat loss n)))))"

fun valid_loop :: "backend \<Rightarrow> model \<times> fl \<Rightarrow> (error + item) list \<Rightarrow> error + model \<times> fl" where
  "valid_loop T st [] = Inr st"
| "valid_loop T st (Inl e # bs) = Inl e"
| "valid_loop T st (Inr b # bs) =
     (case valid_batch T st b of Inl e \<Rightarrow> Inl e | Inr st' \<Rightarrow> valid_loop T st' bs)"

definition valid_step :: "backend \<Rightarrow> model \<Rightarrow> dataloader \<Rightarrow> error + model \<times> fl" where
  "valid_step T m dataloader =
     (let sz = length (dl_dataset dataloader)
      in case valid_loop T (m\<lparr>m_training := False\<rparr>, Fin 0) (batches dataloader) of
           Inl e \<Rightarrow> Inl e
         | Inr (m', tot) \<Rightarrow>
             if sz = 0 then Inl ZeroDivisionError else Inr (m', fdiv_nat tot sz))"

section \<open>The epoch driver\<close>

text \<open>
  Python's \<^verbatim>\<open>str\<close> of a non-negative integer, and the format \<^verbatim>\<open>.4f\<close> of a float: the
  value rounded to four decimals (a tie goes to the even neighbour), written with its sign,
  its integer part, a point and four digits; \<^verbatim>\<open>nan\<close> is written \<^verbatim>\<open>nan\<close>.
\<close>

definition digit :: "nat \<Rightarrow> char" where
  "digit d = char_of (48 + d)"

function str_nat :: "nat \<Rightarrow> string" where
  "str_nat n = (if n < 10 then [digit n] else str_nat (n div 10) @ [digit (n mod 10)])"
  by pat_completeness auto
termination
  by (relation "measure (\<lambda>n. n)") auto

declare str_nat.simps [simp del]

definition round_half_even :: "real \<Rightarrow> nat" where
  "round_half_even x =
     (let f = \<lfloor>x\<rfloor>; r = x - of_int f
      in nat (if r < 1 / 2 then f else if 1 / 2 < r then f + 1 else if even f then f else f + 1))"

definition fmt4f :: "fl \<Rightarrow> string" where
  "fmt4f a =
     (case a of
        NaN \<Rightarrow> ''nan''
      | Fin x \<Rightarrow>
          (let r = round_half_even (\<bar>x\<bar> * 10000)
           in (if x < 0 then ''-'' else [])
              @ str_nat (r div 10000) @ ''.''
              @ [digit (r div 1000 mod 10), digit (r div 100 mod 10), digit (r div 10 mod 10),
                 digit (r mod 10)]))"

definition BATCH_SIZE :: nat where
  "BATCH_SIZE = 64"

definition LR :: real where
  "LR = 1 / 100000"

text \<open>
  What the run draws at random or reads from outside: the permutation \<^verbatim>\<open>random_split\<close>
  draws, the order the shuffling loader draws in each epoch, and the initial parameters and
  buffers of \<^verbatim>\<open>Net()\<close>. The dataset (\<^verbatim>\<open>SyntheticDataset(DATA_PATH)\<close>) is an argument.
\<close>

record randomness =
  split_perm :: "nat list"
  epoch_perm :: "nat \<Rightarrow> nat list"
  init_params :: "real list"
  init_buffers :: "real list"

fun slices :: "nat list \<Rightarrow> 'a list \<Rightarrow> 'a list list" where
  "slices [] xs = []"
| "slices (l # ls) xs = take l xs # slices ls (drop l xs)"

definition random_split :: "nat list \<Rightarrow> 'a list \<Rightarrow> nat list \<Rightarrow> error + 'a list list" where
  \<comment> \<open>consecutive slices of the permuted dataset; the lengths must add up to its length\<close>
  "random_split perm ds lengths =
     (if sum_list lengths \<noteq> length ds then Inl ValueError
      else Inr (slices lengths (map (\<lambda>i. ds ! i) perm)))"

text \<open>
  \<^verbatim>\<open>int(0.8 * len(dataset))\<close> is taken over the reals. The double nearest to 0.8 exceeds it
  by \<open>0.8 * 2\<^sup>-\<^sup>5\<^sup>4\<close>, too little to carry the rounded product across an integer for any
  length a dataset can have, so the float computation gives the same integer.
\<close>

definition train_size :: "nat \<Rightarrow> nat" where
  \<comment> \<open>\<^verbatim>\<open>int(0.8 * len(dataset))\<close>\<close>
  "train_size n = nat \<lfloor>0.8 * real n\<rfloor>"

definition split_dataset :: "randomness \<Rightarrow> item list \<Rightarrow> error + item list \<times> item list" where
  \<comment> \<open>\<^verbatim>\<open>train_set, valid_set = random_split(dataset, [train_size, len(dataset) - train_size])\<close>\<close>
  "split_dataset R dataset =
     (case random_split (split_perm R) dataset
             [train_size (length dataset), length dataset - train_size (length dataset)] of
        Inl e \<Rightarrow> Inl e
      | Inr parts \<Rightarrow>
          (case parts of [train_set, valid_set] \<Rightarrow> Inr (train_set, valid_set)
           | _ \<Rightarrow> Inl ValueError))"

definition train_loader :: "randomness \<Rightarrow> item list \<Rightarrow> nat \<Rightarrow> dataloader" where
  \<comment> \<open>\<^verbatim>\<open>DataLoader(train_set, batch_size=BATCH_SIZE, shuffle=True)\<close>, as iterated in epoch \<open>e\<close>\<close>
  "train_loader R train_set e =
     \<lparr>dl_dataset = train_set, dl_batch_size = BATCH_SIZE, dl_order = epoch_perm R e\<rparr>"

definition valid_loader :: "item list \<Rightarrow> dataloader" where
  \<comment> \<open>\<^verbatim>\<open>DataLoader(valid_set, batch_size=BATCH_SIZE)\<close>\<close>
  "valid_loader valid_set =
     \<lparr>dl_dataset = valid_set, dl_batch_size = BATCH_SIZE, dl_order = [0..<length valid_set]\<rparr>"

definition state_dict :: "model \<Rightarrow> real list \<times> real list" where
  "state_dict m = (m_params m, m_buffers m)"

text \<open>
  \<^verbatim>\<open>
  def fit(epochs):
      dataset = SyntheticDataset(DATA_PATH)
      train_size = int(0.8 * len(dataset))
      train_set, valid_set = random_split(dataset, [train_size, len(dataset) - train_size])
      train_loader = DataLoader(train_set, batch_size=BATCH_SIZE, shuffle=True, num_workers=4)
      valid_loader = DataLoader(valid_set, batch_size=BATCH_SIZE, num_workers=4)
      writer = SummaryWriter()
      model = Net().to(device)
      optimizer = torch.optim.Adam(model.parameters(), lr=LR)
      for e in range(epochs):
          train_loss = train_step(model, optimizer, train_loader, writer)
          valid_loss = valid_step(model, valid_loader)
          print(f"{e}\t{train_loss:.4f}\t{valid_loss:.4f}")
          torch.save(model.state_dict(), f"model_{e}.pt")
  \<close>
  The state of the run is the model, the optimizer and the trace of effects so far: the
  scalars the writer logged, the lines printed, the files saved. The shuffling loader is
  built on a random sampler, which refuses an empty training partition with a
  \<^verbatim>\<open>ValueError\<close>; the sequential loader of the validation partition refuses nothing.
\<close>

record fit_state =
  fs_model :: model
  fs_optimizer :: optimizer
  fs_trace :: "effect list"

definition epoch_line :: "nat \<Rightarrow> fl \<Rightarrow> fl \<Rightarrow> string" where
  \<comment> \<open>\<^verbatim>\<open>f"{e}\t{train_loss:.4f}\t{valid_loss:.4f}"\<close>\<close>
  "epoch_line e train_loss valid_loss =
     str_nat e @ [CHR 0x09] @ fmt4f train_loss @ [CHR 0x09] @ fmt4f valid_loss"

definition checkpoint_name :: "nat \<Rightarrow> string" where
  \<comment> \<open>\<^verbatim>\<open>f"model_{e}.pt"\<close>\<close>
  "checkpoint_name e = ''model_'' @ str_nat e @ ''.pt''"

definition fit_epoch ::
  "backend \<Rightarrow> randomness \<Rightarrow> item list \<Rightarrow> item list \<Rightarrow> fit_state \<Rightarrow> nat \<Rightarrow> error + fit_state" where
  "fit_epoch T R train_set valid_set st e =
     (case train_step T (fs_model st) (fs_optimizer st) (train_loader R train_set e) (fs_trace st) of
        Inl err \<Rightarrow> Inl err
      | Inr (m, opt, writer, train_loss) \<Rightarrow>
     (case valid_step T m (valid_loader valid_set) of
        Inl err \<Rightarrow> Inl err
      | Inr (m', valid_loss) \<Rightarrow>
          Inr \<lparr>fs_model = m', fs_optimizer = opt,
               fs_trace = writer @ [Print (epoch_line e train_loss valid_loss),
                                    Save (checkpoint_name e) (state_dict m')]\<rparr>))"

fun fit_loop ::
  "backend \<Rightarrow> randomness \<Rightarrow> item list \<Rightarrow> item list \<Rightarrow> fit_state \<Rightarrow> nat list \<Rightarrow> error + fit_state" where
  "fit_loop T R train_set valid_set st [] = Inr st"
| "fit_loop T R train_set valid_set st (e # es) =
     (case fit_epoch T R train_set valid_set st e of
        Inl err \<Rightarrow> Inl err
      | Inr st' \<Rightarrow> fit_loop T R train_set valid_set st' es)"

definition init_state :: "randomness \<Rightarrow> fit_state" where
  "init_state R =
     \<lparr>fs_model = \<lparr>m_params = init_params R, m_buffers = init_buffers R, m_grad = None,
                   m_training = True, m_batch_norm = True\<rparr>,
      fs_optimizer = \<lparr>opt_lr = LR, opt_state = []\<rparr>,
      fs_trace = []\<rparr>"

definition fit :: "backend \<Rightarrow> randomness \<Rightarrow> item list \<Rightarrow> nat \<Rightarrow> error + fit_state" where
  "fit T R dataset epochs =
     (case split_dataset R dataset of
        Inl e \<Rightarrow> Inl e
      | Inr (train_set, valid_set) \<Rightarrow>
          if train_set = [] then Inl ValueError
          else fit_loop T R train_set valid_set (init_state R) [0..<epochs])"

section \<open>Observing the loops\<close>

text \<open>
  What happens in each batch of the training loop, in order: the gradient buffer at the
  moment \<^verbatim>\<open>loss.backward()\<close> is called, the loss of the batch, and \<^verbatim>\<open>img_a.size(0)\<close>.
  The list follows \<open>train_loop\<close> step by step and ends where the loop fails.
\<close>

record batch_record =
  br_grad :: "real list option"
  br_loss :: fl
  br_size :: nat

fun train_records :: "backend \<Rightarrow> train_state \<Rightarrow> (error + item) list \<Rightarrow> batch_record list" where
  "train_records T st [] = []"
| "train_records T st (Inl e # bs) = []"
| "train_records T st (Inr b # bs) =
     (case before_backward T st b of
        Inl e \<Rightarrow> []
      | Inr (st', loss) \<Rightarrow>
          \<lparr>br_grad = m_grad (ts_model st'), br_loss = loss, br_size = hd (shape (t_img_a b))\<rparr>
          # train_records T (from_backward T st' b loss) bs)"

definition train_step_records :: "backend \<Rightarrow> model \<Rightarrow> optimizer \<Rightarrow> dataloader \<Rightarrow> effect list
    \<Rightarrow> batch_record list" where
  \<comment> \<open>the batches of one call of \<open>train_step\<close>\<close>
  "train_step_records T m opt dataloader writer =
     train_records T
       \<lparr>ts_model = m\<lparr>m_training := True\<rparr>, ts_optimizer = opt, ts_writer = writer,
        total_loss = Fin 0\<rparr>
       (batches dataloader)"

definition forward_loss :: "backend \<Rightarrow> model \<Rightarrow> item \<Rightarrow> error + model \<times> fl \<times> nat" where
  \<comment> \<open>the three statements the two loops have in common: the forward pass, the loss and
      \<^verbatim>\<open>img_a.size(0)\<close>\<close>
  "forward_loss T m b =
     (case Net_call T m (t_patch_a b) (t_patch_b b) of
        Inl e \<Rightarrow> Inl e
      | Inr (delta, m') \<Rightarrow>
     (case photometric_loss (lib T) delta (t_img_a b) (t_img_b b) (t_points b) of
        Inl e \<Rightarrow> Inl e
      | Inr loss \<Rightarrow>
     (case size0 (t_img_a b) of
        Inl e \<Rightarrow> Inl e
      | Inr n \<Rightarrow> Inr (m', loss, n))))"

fun valid_records :: "backend \<Rightarrow> model \<times> fl \<Rightarrow> (error + item) list \<Rightarrow> (fl \<times> nat) list" where
  \<comment> \<open>the loss and \<^verbatim>\<open>img_a.size(0)\<close> of each batch of the validation loop\<close>
  "valid_records T st [] = []"
| "valid_records T st (Inl e # bs) = []"
| "valid_records T st (Inr b # bs) =
     (case forward_loss T (fst st) b of
        Inl e \<Rightarrow> []
      | Inr (m, loss, n) \<Rightarrow>
          (loss, n) # valid_records T (m, fadd (snd st) (fmul_nat loss n)) bs)"

definition valid_step_records :: "backend \<Rightarrow> model \<Rightarrow> dataloader \<Rightarrow> (fl \<times> nat) list" where
  \<comment> \<open>the batches of one call of \<open>valid_step\<close>\<close>
  "valid_step_records T m dataloader =
     valid_records T (m\<lparr>m_training := False\<rparr>, Fin 0) (batches dataloader)"

definition grad_is_zero :: "real list option \<Rightarrow> bool" where
  \<comment> \<open>an empty gradient buffer: never filled, or all zeros\<close>
  "grad_is_zero g = (case g of None \<Rightarrow> True | Some v \<Rightarrow> list_all (\<lambda>x. x = 0) v)"

fun scalars :: "effect list \<Rightarrow> (string \<times> fl \<times> int option) list" where
  \<comment> \<open>the scalars logged, each with its tag and the step it was given\<close>
  "scalars [] = []"
| "scalars (AddScalar tag v gs # es) = (tag, v, gs) # scalars es"
| "scalars (_ # es) = scalars es"

fun step_keys :: "effect list \<Rightarrow> int option list" where
  \<comment> \<open>the steps the logged scalars were given, in order\<close>
  "step_keys [] = []"
| "step_keys (AddScalar tag v gs # es) = gs # step_keys es"
| "step_keys (_ # es) = step_keys es"

fun steps_increase :: "int option list \<Rightarrow> bool" where
  \<comment> \<open>every step is given and greater than the one before\<close>
  "steps_increase [] = True"
| "steps_increase [k] = (k \<noteq> None)"
| "steps_increase (k # k' # ks) =
     ((case (k, k') of (Some i, Some j) \<Rightarrow> i < j | _ \<Rightarrow> False) \<and> steps_increase (k' # ks))"

fun console_and_files :: "effect list \<Rightarrow> effect list" where
  \<comment> \<open>the lines printed and the files saved, in order\<close>
  "console_and_files [] = []"
| "console_and_files (Print l # es) = Print l # console_and_files es"
| "console_and_files (Save f d # es) = Save f d # console_and_files es"
| "console_and_files (_ # es) = console_and_files es"

fun saved_files :: "effect list \<Rightarrow> string list" where
  \<comment> \<open>the names of the files saved, in order\<close>
  "saved_files [] = []"
| "saved_files (Save f d # es) = f # saved_files es"
| "saved_files (_ # es) = saved_files es"

text \<open>
  The outcome of epoch \<open>e\<close>: the state the loop has reached after the epochs before it,
  then the training pass over the training partition, then the validation pass over the
  validation partition with the model the training pass left.
\<close>

definition epoch_outcome ::
  "backend \<Rightarrow> randomness \<Rightarrow> item list \<Rightarrow> item list \<Rightarrow> nat
     \<Rightarrow> error + fl \<times> fl \<times> (real list \<times> real list)" where
  "epoch_outcome T R train_set valid_set e =
     (case fit_loop T R train_set valid_set (init_state R) [0..<e] of
        Inl err \<Rightarrow> Inl err
      | Inr st \<Rightarrow>
     (case train_step T (fs_model st) (fs_optimizer st) (train_loader R train_set e) (fs_trace st) of
        Inl err \<Rightarrow> Inl err
      | Inr (m, opt, writer, train_loss) \<Rightarrow>
     (case valid_step T m (valid_loader valid_set) of
        Inl err \<Rightarrow> Inl err
      | Inr (m', valid_loss) \<Rightarrow> Inr (train_loss, valid_loss, state_dict m'))))"

definition epoch_report ::
  "nat \<Rightarrow> error + fl \<times> fl \<times> (real list \<times> real list) \<Rightarrow> effect list" where
  "epoch_report e r =
     (case r of
        Inl err \<Rightarrow> []
      | Inr (train_loss, valid_loss, sd) \<Rightarrow>
          [Print (epoch_line e train_loss valid_loss), Save (checkpoint_name e) sd])"

text \<open>
  The sizes of the batches the two passes of epoch \<open>e\<close> go through, as the loops see
  them (\<^verbatim>\<open>img_a.size(0)\<close>): first those of the training pass, then those of the validation
  pass, which runs on the model the training pass left.
\<close>

definition epoch_batch_sizes ::
  "backend \<Rightarrow> randomness \<Rightarrow> item list \<Rightarrow> item list \<Rightarrow> nat \<Rightarrow> nat list \<times> nat list" where
  "epoch_batch_sizes T R train_set valid_set e =
     (case fit_loop T R train_set valid_set (init_state R) [0..<e] of
        Inl err \<Rightarrow> ([], [])
      | Inr st \<Rightarrow>
          (map br_size
             (train_step_records T (fs_model st) (fs_optimizer st) (train_loader R train_set e)
                (fs_trace st)),
           case train_step T (fs_model st) (fs_optimizer st) (train_loader R train_set e)
                  (fs_trace st) of
             Inl err \<Rightarrow> []
           | Inr (m, opt, writer, train_loss) \<Rightarrow>
               map snd (valid_step_records T m (valid_loader valid_set))))"

definition is_digit :: "char \<Rightarrow> bool" where
  "is_digit c \<longleftrightarrow> List.member ''0123456789'' c"

definition int_of_str :: "string \<Rightarrow> nat" where
  \<comment> \<open>the number a string of digits is the decimal notation of\<close>
  "int_of_str s = foldl (\<lambda>n c. 10 * n + (of_char c - 48)) 0 s"

definition wf_randomness :: "randomness \<Rightarrow> nat \<Rightarrow> bool" where
  \<comment> \<open>for a dataset of \<open>n\<close> samples, the split permutes its \<open>n\<close> indices\<close>
  "wf_randomness R n \<longleftrightarrow> sort (split_perm R) = [0..<n]"

definition wf_epochs :: "randomness \<Rightarrow> nat \<Rightarrow> nat \<Rightarrow> bool" where
  \<comment> \<open>in each of the epochs the shuffling sampler permutes the indices of the training
      partition, which has \<open>k\<close> samples\<close>
  "wf_epochs R k epochs \<longleftrightarrow> list_all (\<lambda>e. sort (epoch_perm R e) = [0..<k]) [0..<epochs]"

definition batch_indices :: "dataloader \<Rightarrow> nat list list" where
  \<comment> \<open>the indices of the samples of each batch of a pass, in order\<close>
  "batch_indices dl = chunks (dl_batch_size dl) (dl_order dl)"

definition trace_of :: "error + model \<times> optimizer \<times> effect list \<times> fl \<Rightarrow> effect list" where
  \<comment> \<open>the writer as a call of \<open>train_step\<close> leaves it\<close>
  "trace_of r = (case r of Inl e \<Rightarrow> [] | Inr (m, opt, writer, l) \<Rightarrow> writer)"

definition partition_sizes :: "randomness \<Rightarrow> item list \<Rightarrow> error + nat \<times> nat" where
  \<comment> \<open>the sizes of the two partitions \<open>fit\<close> trains and validates on\<close>
  "partition_sizes R dataset =
     (case split_dataset R dataset of
        Inl e \<Rightarrow> Inl e
      | Inr (train_set, valid_set) \<Rightarrow> Inr (length train_set, length valid_set))"

section \<open>An instance for concrete runs\<close>

text \<open>
  A small backend: the network predicts a zero displacement and leaves its buffers, the
  gradient of every batch is 1 in every coordinate, the optimizer makes a plain gradient
  step, and the library is \<open>toy_kornia\<close>. \<open>toy_item a b\<close> is a sample whose first image
  is uniformly \<open>a\<close> and whose second image is uniformly \<open>b\<close>, with \<open>128 \<times> 128\<close> patches;
  \<open>toy_batch k a b\<close> is the batch of \<open>k\<close> such samples.
\<close>

definition toy_backend :: backend where
  "toy_backend =
     \<lparr>net_values = (\<lambda>training ps bufs a b. (replicate (hd (shape a) * 4 * 2) 0, bufs)),
      autograd = (\<lambda>ps bufs b. map (\<lambda>p. 1) ps),
      adam_step = (\<lambda>opt ps g.
        (opt, case g of None \<Rightarrow> ps | Some d \<Rightarrow> map2 (\<lambda>p x. p - opt_lr opt * x) ps d)),
      lib = toy_kornia\<rparr>"

definition toy_points :: "real list" where
  "toy_points = [64, 64, 192, 64, 192, 192, 64, 192]"

definition toy_item :: "real \<Rightarrow> real \<Rightarrow> item" where
  "toy_item a b =
     \<lparr>t_img_a = full [1, 256, 256] a, t_img_b = full [1, 256, 256] b,
      t_patch_a = full [1, 128, 128] 0, t_patch_b = full [1, 128, 128] 0,
      t_points = \<lparr>shape = [4, 2], vals = toy_points\<rparr>\<rparr>"

definition toy_batch :: "nat \<Rightarrow> real \<Rightarrow> real \<Rightarrow> item" where
  "toy_batch k a b =
     \<lparr>t_img_a = full [k, 1, 256, 256] a, t_img_b = full [k, 1, 256, 256] b,
      t_patch_a = full [k, 1, 128, 128] 0, t_patch_b = full [k, 1, 128, 128] 0,
      t_points = \<lparr>shape = [k, 4, 2], vals = concat (replicate k toy_points)\<rparr>\<rparr>"

definition toy_model :: model where
  "toy_model =
     \<lparr>m_params = [0], m_buffers = [], m_grad = None, m_training = True, m_batch_norm = True\<rparr>"

definition toy_optimizer :: optimizer where
  "toy_optimizer = \<lparr>opt_lr = LR, opt_state = []\<rparr>"

definition toy_loader :: dataloader where
  \<comment> \<open>three samples in batches of two: a full batch and a partial one\<close>
  "toy_loader =
     \<lparr>dl_dataset = [toy_item 1 0, toy_item 1 0, toy_item 3 0], dl_batch_size = 2,
      dl_order = [0, 1, 2]\<rparr>"

definition toy_randomness :: "nat \<Rightarrow> randomness" where
  \<comment> \<open>for a dataset of \<open>n\<close> samples: nothing is permuted\<close>
  "toy_randomness n =
     \<lparr>split_perm = [0..<n], epoch_perm = (\<lambda>e. [0..<train_size n]),
      init_params = [0], init_buffers = []\<rparr>"

text \<open>
  The state in which two epochs over five samples \<open>toy_item 1 0\<close> end: both passes of
  both epochs have mean loss 1.
\<close>

definition toy_final :: fit_state where
  "toy_final =
     \<lparr>fs_model = \<lparr>m_params = [- (3 / 100000)], m_buffers = [], m_grad = Some [2],
                   m_training = False, m_batch_norm = True\<rparr>,
      fs_optimizer = \<lparr>opt_lr = LR, opt_state = []\<rparr>,
      fs_trace =
        [AddScalar ''train_loss'' (Fin 1) None, Flush,
         Print (''0'' @ [CHR 0x09] @ ''1.0000'' @ [CHR 0x09] @ ''1.0000''),
         Save ''model_0.pt'' ([- (1 / 100000)], []),
         AddScalar ''train_loss'' (Fin 1) None, Flush,
         Print (''1'' @ [CHR 0x09] @ ''1.0000'' @ [CHR 0x09] @ ''1.0000''),
         Save ''model_1.pt'' ([- (3 / 100000)], [])]\<rparr>"

text \<open>
  A sample whose two images have no channel, and the batch of \<open>k\<close> such samples: the
  mean of the loss is then taken over no element. \<open>blank_final\<close> is the state in which one
  epoch over five such samples ends.
\<close>

definition blank_item :: item where
  "blank_item =
     \<lparr>t_img_a = full [0, 256, 256] 0, t_img_b = full [0, 256, 256] 0,
      t_patch_a = full [1, 128, 128] 0, t_patch_b = full [1, 128, 128] 0,
      t_points = \<lparr>shape = [4, 2], vals = toy_points\<rparr>\<rparr>"

definition blank_batch :: "nat \<Rightarrow> item" where
  "blank_batch k =
     \<lparr>t_img_a = full [k, 0, 256, 256] 0, t_img_b = full [k, 0, 256, 256] 0,
      t_patch_a = full [k, 1, 128, 128] 0, t_patch_b = full [k, 1, 128, 128] 0,
      t_points = \<lparr>shape = [k, 4, 2], vals = concat (replicate k toy_points)\<rparr>\<rparr>"

definition blank_final :: fit_state where
  "blank_final =
     \<lparr>fs_model = \<lparr>m_params = [- (1 / 100000)], m_buffers = [], m_grad = Some [1],
                   m_training = False, m_batch_norm = True\<rparr>,
      fs_optimizer = \<lparr>opt_lr = LR, opt_state = []\<rparr>,
      fs_trace =
        [AddScalar ''train_loss'' NaN None, Flush,
         Print (''0'' @ [CHR 0x09] @ ''nan'' @ [CHR 0x09] @ ''nan''),
         Save ''model_0.pt'' ([- (1 / 100000)], [])]\<rparr>"

text \<open>Inputs with \<open>2 \<times> 2\<close> images.\<close>

definition small_img :: tensor where
  "small_img = \<lparr>shape = [1, 1, 2, 2], vals = [1, 2, 3, 4]\<rparr>"

definition one_points :: tensor where
  "one_points = \<lparr>shape = [1, 4, 2], vals = toy_points\<rparr>"

definition zero_delta :: tensor where
  "zero_delta = \<lparr>shape = [1, 4, 2], vals = [0, 0, 0, 0, 0, 0, 0, 0]\<rparr>"

text \<open>
  The library interface with the transform as the specification words it (and the warp of
  \<open>toy_kornia\<close>), and a displacement that moves the third corner of \<open>one_points\<close> onto
  the line through the first two: \<open>collinear_points\<close> is the sum.
\<close>

definition spec_kornia :: kornia where
  \<comment> \<open>Modelled from the spec: the library with the solver as the specification words it\<close>
  "spec_kornia =
     \<lparr>get_perspective_transform = spec_get_perspective_transform,
      warp_perspective = warp_perspective toy_kornia\<rparr>"

definition collinear_delta :: tensor where
  "collinear_delta = \<lparr>shape = [1, 4, 2], vals = [0, 0, 0, 0, 128, - 128, 0, 0]\<rparr>"

definition collinear_points :: tensor where
  "collinear_points = \<lparr>shape = [1, 4, 2], vals = [64, 64, 192, 64, 320, 64, 64, 192]\<rparr>"

text \<open>A displacement that shifts every corner of \<open>one_points\<close> by \<open>(1, 1)\<close>, and the sum.\<close>

definition shift_delta :: tensor where
  "shift_delta = \<lparr>shape = [1, 4, 2], vals = [1, 1, 1, 1, 1, 1, 1, 1]\<rparr>"

definition shift_points :: tensor where
  "shift_points = \<lparr>shape = [1, 4, 2], vals = [65, 65, 193, 65, 193, 193, 65, 193]\<rparr>"

text \<open>
  A second instance of the library interface, whose warp does not give the source image
  back: it returns a black image of the target size whatever the source and the transform
  are. It keeps the promise about shapes.
\<close>

definition dark_kornia :: kornia where
  "dark_kornia =
     \<lparr>get_perspective_transform = get_perspective_transform toy_kornia,
      warp_perspective = (\<lambda>src h dsize.
        case shape src of
          [B, C, H, W] \<Rightarrow> Inr (full [B, C, fst dsize, snd dsize] 0)
        | _ \<Rightarrow> Inl RuntimeError)\<rparr>"

section \<open>Tensor operations on equal shapes\<close>

lemma broadcast_rev_same: "broadcast_rev xs xs = Inr xs"
  by (induction xs) auto

lemma broadcast_shapes_same: "broadcast_shapes s s = Inr s"
  by (simp add: broadcast_shapes_def broadcast_rev_same)

lemma pad_shape_same: "pad_shape (length s) s = s"
  by (simp add: pad_shape_def)

lemma concat_chunks:
  "length xs = d * n \<Longrightarrow> concat (map (\<lambda>i. take n (drop (i * n) xs)) [0..<d]) = xs"
proof (induction d arbitrary: xs rule: nat.induct)
  case zero
  then show ?case by simp
next
  case (Suc d)
  have "length (take (d * n) xs) = d * n" using Suc.prems by simp
  from Suc.IH[OF this]
  have "concat (map (\<lambda>i. take n (drop (i * n) (take (d * n) xs))) [0..<d]) = take (d * n) xs" .
  moreover have "map (\<lambda>i. take n (drop (i * n) (take (d * n) xs))) [0..<d]
      = map (\<lambda>i. take n (drop (i * n) xs)) [0..<d]"
  proof (rule map_cong[OF refl])
    fix i assume "i \<in> set [0..<d]"
    then have "i * n + n \<le> d * n"
      by (metis Suc_leI atLeastLessThan_iff mult_Suc mult_le_mono1 set_upt add.commute)
    then show "take n (drop (i * n) (take (d * n) xs)) = take n (drop (i * n) xs)"
      by (simp add: drop_take min_def)
  qed
  ultimately have "concat (map (\<lambda>i. take n (drop (i * n) xs)) [0..<d]) = take (d * n) xs"
    by simp
  moreover have "take n (drop (d * n) xs) = drop (d * n) xs"
    using Suc.prems by simp
  ultimately show ?case by simp
qed

lemma expand_same: "length xs = prod_list s \<Longrightarrow> expand s s xs = xs"
proof (induction s arbitrary: xs)
  case Nil
  then show ?case by simp
next
  case (Cons d ds)
  have "map (\<lambda>i. expand ds ds (take (prod_list ds) (drop (i * prod_list ds) xs))) [0..<d]
      = map (\<lambda>i. take (prod_list ds) (drop (i * prod_list ds) xs)) [0..<d]"
  proof (rule map_cong[OF refl])
    fix i assume "i \<in> set [0..<d]"
    then have "i * prod_list ds + prod_list ds \<le> d * prod_list ds"
      by (metis Suc_leI atLeastLessThan_iff mult_Suc mult_le_mono1 set_upt add.commute)
    then have "length (take (prod_list ds) (drop (i * prod_list ds) xs)) = prod_list ds"
      using Cons.prems by simp
    then show "expand ds ds (take (prod_list ds) (drop (i * prod_list ds) xs))
        = take (prod_list ds) (drop (i * prod_list ds) xs)"
      by (rule Cons.IH)
  qed
  then have "expand (d # ds) (d # ds) xs
      = concat (map (\<lambda>i. take (prod_list ds) (drop (i * prod_list ds) xs)) [0..<d])"
    by (simp only: expand.simps refl if_True)
  also have "\<dots> = xs" using Cons.prems by (intro concat_chunks) simp
  finally show ?case .
qed

lemma tbinop_same:
  assumes "shape a = shape b" "wf_tensor a" "wf_tensor b"
  shows "tbinop f a b = Inr \<lparr>shape = shape a, vals = map2 f (vals a) (vals b)\<rparr>"
  using assms
  by (simp add: tbinop_def broadcast_shapes_same pad_shape_same expand_same wf_tensor_def)

lemma tbinop_elementwise:
  "shape a = shape b \<Longrightarrow> wf_tensor a \<Longrightarrow> wf_tensor b \<Longrightarrow> tbinop f a b = elementwise f a b"
  by (simp add: tbinop_same elementwise_def)

lemma sum_list_abs_nonneg: "0 \<le> sum_list (map abs (xs :: real list))"
  by (induction xs) auto

lemma torch_mean_abs_nonneg: "torch_mean (torch_abs d) = Fin r \<Longrightarrow> 0 \<le> r"
  by (auto simp: torch_mean_def torch_abs_def sum_list_abs_nonneg split: if_splits)

lemma photometric_loss_nonneg:
  "photometric_loss K delta img_a img_b points = Inr (Fin r) \<Longrightarrow> 0 \<le> r"
  by (auto simp: photometric_loss_def torch_mean_abs_nonneg split: sum.splits)

lemma sum_list_abs_zero: "sum_list (map abs (xs :: real list)) = 0 \<longleftrightarrow> (\<forall>x \<in> set xs. x = 0)"
proof (induction xs)
  case Nil
  then show ?case by simp
next
  case (Cons x xs)
  have "0 \<le> sum_list (map abs xs)" by (rule sum_list_abs_nonneg)
  then have "\<bar>x\<bar> + sum_list (map abs xs) = 0 \<longleftrightarrow> x = 0 \<and> sum_list (map abs xs) = 0"
    by linarith
  with Cons.IH show ?case by simp
qed

lemma map2_sub_zero:
  "length xs = length ys \<Longrightarrow> (\<forall>d \<in> set (map2 (-) xs ys). d = 0) \<longleftrightarrow> xs = (ys :: real list)"
  by (induction xs ys rule: list_induct2) auto

lemma mean_abs_sub:
  assumes "shape a = shape b" "wf_tensor a" "wf_tensor b"
  shows "(case tsub a b of Inl e \<Rightarrow> Inl e | Inr d \<Rightarrow> Inr (torch_mean (torch_abs d)))
       = mean_abs_diff a b"
proof -
  have l: "length (vals a) = length (vals b)" using assms by (simp add: wf_tensor_def)
  have m: "map abs (map2 (-) (vals a) (vals b)) = map (\<lambda>(x, y). \<bar>x - y\<bar>) (zip (vals a) (vals b))"
    by (simp add: case_prod_unfold)
  have e: "(vals a = []) = (vals b = [])" using l by auto
  show ?thesis
    using assms l
    by (simp add: tsub_def tbinop_same torch_mean_def torch_abs_def mean_abs_diff_def m e
        del: map_map)
qed

lemma resolution4: "shape t = [B, C, H, W] \<Longrightarrow> resolution t = (H, W)"
  by (simp add: resolution_def)

lemma photometric_loss_refines_spec:
  assumes K: "warp_shapes K"
    and pts: "wf_tensor points" "wf_tensor delta" "shape delta = shape points"
    and a: "shape img_a = [B, C, H, W]"
    and b: "wf_tensor img_b" "shape img_b = [B, C, 256, 256]"
  shows "photometric_loss K delta img_a img_b points
       = photometric_loss_spec K delta img_a img_b points"
proof -
  have add: "tadd points delta = elementwise (+) points delta"
    using pts by (simp add: tadd_def tbinop_elementwise)
  have res: "resolution img_b = (256, 256)" using b by (simp add: resolution4)
  have sub: "(case tsub w img_b of Inl e \<Rightarrow> Inl e | Inr d \<Rightarrow> Inr (torch_mean (torch_abs d)))
        = mean_abs_diff w img_b"
    if "warp_perspective K img_a h (256, 256) = Inr w" for h w
  proof -
    from K that a have "wf_tensor w" "shape w = [B, C, 256, 256]"
      by (auto simp: warp_shapes_def dest!: spec)
    with b show ?thesis by (intro mean_abs_sub) auto
  qed
  show ?thesis
    unfolding photometric_loss_def photometric_loss_spec_def add res
    by (auto split: sum.splits simp: sub)
qed

lemma wf_full: "wf_tensor (full s c)"
  by (simp add: wf_tensor_def full_def)

lemma shape_full: "shape (full s c) = s"
  by (simp add: full_def)

lemma map2_replicate: "map2 f (replicate n a) (replicate n b) = replicate n (f a b)"
  by simp

lemma tsub_full: "tsub (full s a) (full s b) = Inr (full s (a - b))"
  by (simp add: tsub_def tbinop_same wf_full shape_full) (simp add: full_def map2_replicate)

lemma torch_abs_full: "torch_abs (full s c) = full s \<bar>c\<bar>"
  by (simp add: torch_abs_def full_def)

lemma torch_mean_full: "prod_list s \<noteq> 0 \<Longrightarrow> torch_mean (full s c) = Fin c"
  by (simp add: torch_mean_def full_def sum_list_replicate)

lemma map2_add_zero: "length ys = length xs \<Longrightarrow> \<forall>y \<in> set ys. y = 0 \<Longrightarrow> map2 (+) xs ys = (xs :: real list)"
proof (induction xs arbitrary: ys)
  case Nil
  then show ?case by simp
next
  case (Cons x xs)
  then show ?case by (cases ys) auto
qed

lemma tadd_zero:
  assumes "wf_tensor p" "wf_tensor d" "shape d = shape p" "\<forall>x \<in> set (vals d). x = 0"
  shows "tadd p d = Inr p"
proof -
  have "length (vals d) = length (vals p)" using assms by (simp add: wf_tensor_def)
  then show ?thesis using assms by (simp add: tadd_def tbinop_same map2_add_zero)
qed

lemma photometric_loss_value:
  assumes K: "warp_shapes K"
    and pts: "wf_tensor points" "wf_tensor delta" "shape delta = shape points"
    and h: "get_perspective_transform K points
              \<lparr>shape = shape points, vals = map2 (+) (vals points) (vals delta)\<rparr> = Inr h"
    and w: "warp_perspective K img_a h (256, 256) = Inr img_b_hat"
    and a: "shape img_a = [B, C, H, W]"
    and b: "wf_tensor img_b" "shape img_b = [B, C, 256, 256]"
  shows "photometric_loss K delta img_a img_b points
       = Inr (if B = 0 \<or> C = 0 then NaN
              else Fin (sum_list (map abs (map2 (-) (vals img_b_hat) (vals img_b)))
                        / real (B * C * 256 * 256)))"
    and "length (vals img_b_hat) = length (vals img_b)"
proof -
  have add: "tadd points delta
      = Inr \<lparr>shape = shape points, vals = map2 (+) (vals points) (vals delta)\<rparr>"
    using pts by (simp add: tadd_def tbinop_same)
  from K w a have wfh: "wf_tensor img_b_hat" and sh: "shape img_b_hat = [B, C, 256, 256]"
    by (auto simp: warp_shapes_def dest!: spec)
  have lb: "length (vals img_b) = B * C * 256 * 256"
    using b by (simp add: wf_tensor_def mult.assoc)
  have lh: "length (vals img_b_hat) = B * C * 256 * 256"
    using wfh sh by (simp add: wf_tensor_def mult.assoc)
  show "length (vals img_b_hat) = length (vals img_b)" using lb lh by simp
  have sub: "tsub img_b_hat img_b
      = Inr \<lparr>shape = shape img_b_hat, vals = map2 (-) (vals img_b_hat) (vals img_b)\<rparr>"
    using wfh sh b by (simp add: tsub_def tbinop_same)
  have l: "length (map2 (-) (vals img_b_hat) (vals img_b)) = B * C * 256 * 256"
    using lb lh by simp
  then have "length (map2 (-) (vals img_b_hat) (vals img_b)) = 0 \<longleftrightarrow> B = 0 \<or> C = 0"
    by simp
  then have e: "map2 (-) (vals img_b_hat) (vals img_b) = [] \<longleftrightarrow> B = 0 \<or> C = 0"
    by (simp only: length_0_conv)
  show "photometric_loss K delta img_a img_b points
       = Inr (if B = 0 \<or> C = 0 then NaN
              else Fin (sum_list (map abs (map2 (-) (vals img_b_hat) (vals img_b)))
                        / real (B * C * 256 * 256)))"
    using e l
    by (simp add: photometric_loss_def add h w sub torch_mean_def torch_abs_def del: map_map
        of_nat_mult)
qed

lemma photometric_loss_returns:
  assumes K: "warp_shapes K"
    and pts: "wf_tensor points" "wf_tensor delta" "shape delta = shape points"
    and h: "get_perspective_transform K points
              \<lparr>shape = shape points, vals = map2 (+) (vals points) (vals delta)\<rparr> = Inr h"
    and w: "warp_perspective K img_a h (256, 256) = Inr img_b_hat"
    and a: "shape img_a = [B, C, H, W]"
    and b: "wf_tensor img_b" "shape img_b = [B, C, 256, 256]" "0 < B" "0 < C"
  shows "\<exists>r. photometric_loss K delta img_a img_b points = Inr (Fin r) \<and> 0 \<le> r"
proof -
  from photometric_loss_value(1)[OF K pts h w a b(1,2)] b(3,4)
  obtain r where "photometric_loss K delta img_a img_b points = Inr (Fin r)"
    by simp
  then show ?thesis
    using photometric_loss_nonneg by blast
qed

lemma photometric_loss_nan:
  assumes K: "warp_shapes K"
    and pts: "wf_tensor points" "wf_tensor delta" "shape delta = shape points"
    and h: "get_perspective_transform K points
              \<lparr>shape = shape points, vals = map2 (+) (vals points) (vals delta)\<rparr> = Inr h"
    and w: "warp_perspective K img_a h (256, 256) = Inr img_b_hat"
    and a: "shape img_a = [B, C, H, W]"
    and b: "wf_tensor img_b" "shape img_b = [B, C, 256, 256]"
  shows "photometric_loss K delta img_a img_b points = Inr NaN \<longleftrightarrow> B = 0 \<or> C = 0"
  using photometric_loss_value(1)[OF K pts h w a b] by simp

lemma photometric_loss_zero_iff:
  assumes K: "warp_shapes K"
    and pts: "wf_tensor points" "wf_tensor delta" "shape delta = shape points"
    and h: "get_perspective_transform K points
              \<lparr>shape = shape points, vals = map2 (+) (vals points) (vals delta)\<rparr> = Inr h"
    and w: "warp_perspective K img_a h (256, 256) = Inr img_b_hat"
    and a: "shape img_a = [B, C, H, W]"
    and b: "wf_tensor img_b" "shape img_b = [B, C, 256, 256]" "0 < B" "0 < C"
  shows "photometric_loss K delta img_a img_b points = Inr (Fin 0) \<longleftrightarrow> img_b_hat = img_b"
proof -
  note v = photometric_loss_value[OF K pts h w a b(1,2)]
  from K w a have sh: "shape img_b_hat = [B, C, 256, 256]"
    by (auto simp: warp_shapes_def dest!: spec)
  have pos: "real (B * C * 256 * 256) \<noteq> 0" using b(3,4) by simp
  have "photometric_loss K delta img_a img_b points = Inr (Fin 0)
      \<longleftrightarrow> sum_list (map abs (map2 (-) (vals img_b_hat) (vals img_b))) = 0"
    using v(1) b(3,4) pos by (simp del: of_nat_mult map_map)
  also have "\<dots> \<longleftrightarrow> (\<forall>d \<in> set (map2 (-) (vals img_b_hat) (vals img_b)). d = 0)"
    by (rule sum_list_abs_zero)
  also have "\<dots> \<longleftrightarrow> vals img_b_hat = vals img_b"
    using v(2) by (rule map2_sub_zero)
  also have "\<dots> \<longleftrightarrow> img_b_hat = img_b"
    using sh b(2) by (cases img_b_hat; cases img_b) auto
  finally show ?thesis .
qed

lemma broadcast_rev_error: "broadcast_rev xs ys = Inl e \<Longrightarrow> e = RuntimeError"
  by (induction xs ys arbitrary: e rule: broadcast_rev.induct) (auto split: sum.splits if_splits)

lemma broadcast_rev_last:
  "x \<noteq> y \<Longrightarrow> x \<noteq> 1 \<Longrightarrow> y \<noteq> 1 \<Longrightarrow> broadcast_rev (x # xs) (y # ys) = Inl RuntimeError"
  by (cases "broadcast_rev xs ys") (auto dest: broadcast_rev_error)

lemma photometric_loss_other_width:
  assumes "warp_shapes K" "shape img_b = s @ [W]" "W \<noteq> 256" "W \<noteq> 1"
  shows "photometric_loss K delta img_a img_b points \<noteq> Inr r"
proof -
  have "tsub w img_b = Inl RuntimeError"
    if "warp_perspective K img_a h (256, 256) = Inr w" for h w
  proof -
    from assms(1) that obtain B C where "shape w = [B, C, 256, 256]"
      by (auto simp: warp_shapes_def dest!: spec)
    then show ?thesis
      using assms(2-4)
      by (simp add: tsub_def tbinop_def broadcast_shapes_def broadcast_rev_last
          del: broadcast_rev.simps)
  qed
  then show ?thesis
    by (auto simp: photometric_loss_def split: sum.splits)
qed

lemma toy_warp_shapes: "warp_shapes toy_kornia"
  by (auto simp: warp_shapes_def toy_kornia_def wf_full shape_full split: list.splits if_splits)

lemma small_loss_fails:
  "photometric_loss toy_kornia zero_delta small_img small_img one_points = Inl RuntimeError"
proof -
  have add: "tadd one_points zero_delta = Inr one_points"
    by (rule tadd_zero) (simp_all add: wf_tensor_def one_points_def zero_delta_def toy_points_def)
  have h: "get_perspective_transform toy_kornia one_points one_points = Inr (eye3 1)"
    by (simp add: toy_kornia_def one_points_def)
  have w: "warp_perspective toy_kornia small_img (eye3 1) (256, 256) = Inr (full [1, 1, 256, 256] 0)"
    by (simp add: toy_kornia_def small_img_def)
  have s: "tsub (full [1, 1, 256, 256] 0) small_img = Inl RuntimeError"
    by (simp add: tsub_def tbinop_def broadcast_shapes_def shape_full small_img_def)
  show ?thesis by (simp only: photometric_loss_def add h w s sum.case)
qed

lemma small_loss_spec:
  "photometric_loss_spec toy_kornia zero_delta small_img small_img one_points = Inr (Fin 0)"
proof -
  have add: "elementwise (+) one_points zero_delta = Inr one_points"
    by (simp add: elementwise_def one_points_def zero_delta_def toy_points_def)
  have h: "get_perspective_transform toy_kornia one_points one_points = Inr (eye3 1)"
    by (simp add: toy_kornia_def one_points_def)
  have w: "warp_perspective toy_kornia small_img (eye3 1) (resolution small_img) = Inr small_img"
    by (simp add: toy_kornia_def small_img_def resolution_def wf_tensor_def)
  have m: "mean_abs_diff small_img small_img = Inr (Fin 0)"
    by (simp add: mean_abs_diff_def small_img_def)
  show ?thesis by (simp only: photometric_loss_spec_def add h w m sum.case)
qed

lemma one_points_facts:
  "wf_tensor one_points" "wf_tensor zero_delta" "shape zero_delta = shape one_points"
  "list_all (\<lambda>x. x = 0) (vals zero_delta)"
  "tadd one_points zero_delta = Inr one_points"
  "get_perspective_transform toy_kornia one_points one_points = Inr (eye3 1)"
  "get_perspective_transform dark_kornia one_points one_points = Inr (eye3 1)"
proof -
  show a: "wf_tensor one_points" "wf_tensor zero_delta" "shape zero_delta = shape one_points"
    by (simp_all add: wf_tensor_def one_points_def zero_delta_def toy_points_def)
  show "list_all (\<lambda>x. x = 0) (vals zero_delta)"
    by (simp add: zero_delta_def)
  show "tadd one_points zero_delta = Inr one_points"
    using a by (intro tadd_zero) (simp_all add: zero_delta_def)
  show "get_perspective_transform toy_kornia one_points one_points = Inr (eye3 1)"
    "get_perspective_transform dark_kornia one_points one_points = Inr (eye3 1)"
    by (simp_all add: toy_kornia_def dark_kornia_def one_points_def)
qed

lemma dark_warp_shapes: "warp_shapes dark_kornia"
  by (auto simp: warp_shapes_def dark_kornia_def wf_full shape_full
      split: list.splits if_splits)

lemma no_channel_loss:
  "photometric_loss toy_kornia zero_delta (full [1, 0, 256, 256] 0) (full [1, 0, 256, 256] 0)
     one_points = Inr NaN"
proof -
  have w: "warp_perspective toy_kornia (full [1, 0, 256, 256] 0) (eye3 1) (256, 256)
      = Inr (full [1, 0, 256, 256] 0)"
    by (simp add: toy_kornia_def shape_full wf_full)
  have m: "torch_mean (torch_abs (full [1, 0, 256, 256] (0 - 0))) = NaN"
    by (simp add: torch_abs_def torch_mean_def full_def)
  show ?thesis
    by (simp only: photometric_loss_def one_points_facts w tsub_full m sum.case)
qed

lemma dark_loss:
  "photometric_loss dark_kornia zero_delta (full [1, 1, 256, 256] 1) (full [1, 1, 256, 256] 1)
     one_points = Inr (Fin 1)"
proof -
  have w: "warp_perspective dark_kornia (full [1, 1, 256, 256] 1) (eye3 1) (256, 256)
      = Inr (full [1, 1, 256, 256] 0)"
    by (simp add: dark_kornia_def shape_full)
  have m: "torch_mean (torch_abs (full [1, 1, 256, 256] (0 - 1))) = Fin 1"
    by (simp add: torch_abs_full torch_mean_full)
  show ?thesis
    by (simp only: photometric_loss_def one_points_facts w tsub_full m sum.case)
qed

section \<open>The shape of the network's output\<close>

lemma Block_shape:
  assumes "2 \<le> H" "2 \<le> W" "0 < N"
  shows "Block tr cin cout bn [N, cin, H, W] = Inr [N, cout, H div 2, W div 2]"
proof -
  have h: "Suc ((H - 2) div 2) = H div 2" "Suc ((W - 2) div 2) = W div 2"
    using assms by presburger+
  have big: "1 < N * H * W"
  proof -
    have "1 * 2 * 2 \<le> N * H * W" using assms by (intro mult_le_mono) auto
    then show ?thesis by simp
  qed
  show ?thesis using assms big
    by (simp add: Block_def conv2d_def relu_def batchnorm2d_def maxpool2d_def h)
qed

lemma Net_cnn_shape:
  assumes "32 \<le> H" "32 \<le> W" "0 < N"
  shows "Net_cnn tr bn [N, 2, H, W] = Inr [N, 256 * (H div 32) * (W div 32)]"
proof -
  have d: "H div 2 div 2 div 2 div 2 div 2 = H div 32" "W div 2 div 2 div 2 div 2 div 2 = W div 32"
    by (simp_all add: div_mult2_eq[symmetric])
  have b1: "Block tr 2 64 bn [N, 2, H, W] = Inr [N, 64, H div 2, W div 2]"
    using assms by (intro Block_shape) auto
  have b2: "Block tr 64 128 bn [N, 64, H div 2, W div 2] = Inr [N, 128, H div 2 div 2, W div 2 div 2]"
    using assms by (intro Block_shape) auto
  have b3: "Block tr 128 256 bn [N, 128, H div 2 div 2, W div 2 div 2]
     = Inr [N, 256, H div 2 div 2 div 2, W div 2 div 2 div 2]"
    using assms by (intro Block_shape) auto
  have b4: "Block tr 256 256 bn [N, 256, H div 2 div 2 div 2, W div 2 div 2 div 2]
     = Inr [N, 256, H div 2 div 2 div 2 div 2, W div 2 div 2 div 2 div 2]"
    using assms by (intro Block_shape) auto
  have b5: "Block tr 256 256 bn [N, 256, H div 2 div 2 div 2 div 2, W div 2 div 2 div 2 div 2]
     = Inr [N, 256, H div 32, W div 32]"
    using assms Block_shape[of "H div 2 div 2 div 2 div 2" "W div 2 div 2 div 2 div 2" N tr 256 256 bn]
    by (simp only: d)
  have fl: "Flatten [N, 256, H div 32, W div 32] = Inr [N, 256 * (H div 32) * (W div 32)]"
    using assms by (simp add: Flatten_def view_def mult.assoc)
  show ?thesis
    by (simp only: Net_cnn_def sequential.simps b1 b2 b3 b4 b5 fl sum.case)
qed

lemma Net_forward_shape:
  "ca + cb = 2 \<Longrightarrow> 0 < n \<Longrightarrow> (H div 32) * (W div 32) = 16 \<Longrightarrow>
     Net_forward tr bn [n, ca, H, W] [n, cb, H, W] = Inr [n, 4, 2]"
proof -
  assume a: "ca + cb = 2" "0 < n" "(H div 32) * (W div 32) = 16"
  have "H div 32 \<noteq> 0" "W div 32 \<noteq> 0" using a(3) by (auto intro: ccontr)
  then have hw: "32 \<le> H" "32 \<le> W" by (simp_all add: div_eq_0_iff)
  have c: "Net_cnn tr bn [n, 2, H, W] = Inr [n, 4096]"
    using Net_cnn_shape[OF hw a(2), of tr bn] a(3) by (simp add: mult.assoc)
  have f: "Net_fc [n, 4096] = Inr [n, 8]"
    by (simp add: Net_fc_def linear_def relu_def)
  have v: "view [- 1, 4, 2] [n, 8] = Inr [n, 4, 2]"
    using a(2) by (simp add: view_def)
  show ?thesis
    using a(1) by (simp add: Net_forward_def torch_cat1_def c f v)
qed

section \<open>The loops: what each batch contributes\<close>

lemma fadd_assoc: "fadd (fadd a b) c = fadd a (fadd b c)"
  by (cases a; cases b; cases c) (simp_all add: fadd_def)

lemma fl_arith:
  "fadd (Fin x) (Fin y) = Fin (x + y)" "fadd NaN a = NaN" "fadd a NaN = NaN"
  "fmul_nat (Fin x) n = Fin (x * real n)" "fmul_nat NaN n = NaN"
  "fdiv_nat (Fin x) n = Fin (x / real n)" "fdiv_nat NaN n = NaN"
  by (simp_all add: fadd_def fmul_nat_def fdiv_nat_def split: fl.splits)

lemma fadd_zero: "fadd (Fin 0) a = a"
  by (cases a) (simp_all add: fadd_def)

lemma fsum_closed:
  "fsum xs = (if list_all is_fin xs then Fin (sum_list (map fin_val xs)) else NaN)"
  by (induction xs) (auto simp: fadd_def split: fl.splits)

lemma weighted_mean_closed:
  "fdiv_nat (fsum (map (\<lambda>x. fmul_nat (l x) (n x)) xs)) N
     = (if list_all (\<lambda>x. is_fin (l x)) xs
        then Fin ((\<Sum>x \<leftarrow> xs. fin_val (l x) * real (n x)) / real N)
        else NaN)"
proof -
  have a: "list_all is_fin (map (\<lambda>x. fmul_nat (l x) (n x)) xs) = list_all (\<lambda>x. is_fin (l x)) xs"
    by (induction xs) (auto simp: fmul_nat_def split: fl.splits)
  have b: "list_all (\<lambda>x. is_fin (l x)) xs \<Longrightarrow>
      map fin_val (map (\<lambda>x. fmul_nat (l x) (n x)) xs) = map (\<lambda>x. fin_val (l x) * real (n x)) xs"
    by (induction xs) (auto simp: fmul_nat_def split: fl.splits)
  show ?thesis
    by (simp add: fsum_closed a b fdiv_nat_def del: map_map)
qed

lemma before_backward_forward_loss:
  "before_backward T st b =
     (case forward_loss T (ts_model st) b of
        Inl e \<Rightarrow> Inl e
      | Inr (m, loss, n) \<Rightarrow>
          Inr (st\<lparr>ts_model := m, total_loss := fadd (total_loss st) (fmul_nat loss n)\<rparr>, loss))"
  by (simp add: before_backward_def forward_loss_def split: sum.splits prod.splits)

lemma valid_batch_forward_loss:
  "valid_batch T st b =
     (case forward_loss T (fst st) b of
        Inl e \<Rightarrow> Inl e
      | Inr (m, loss, n) \<Rightarrow> Inr (m, fadd (snd st) (fmul_nat loss n)))"
  by (simp add: valid_batch_def forward_loss_def split: sum.splits prod.splits)

lemma forward_loss_frame:
  assumes "forward_loss T m b = Inr (m', loss, n)"
  shows "m_params m' = m_params m \<and> m_grad m' = m_grad m \<and> m_training m' = m_training m
       \<and> m_batch_norm m' = m_batch_norm m \<and> n = hd (shape (t_img_a b))"
  using assms
  by (auto simp: forward_loss_def Net_call_def size0_def split: sum.splits prod.splits list.splits)

lemma from_backward_frame:
  "total_loss (from_backward T st b loss) = total_loss st
   \<and> ts_writer (from_backward T st b loss) = ts_writer st @ [AddScalar ''train_loss'' loss None, Flush]"
  by (simp add: from_backward_def add_scalar_def flush_def Let_def split: prod.splits)

lemma train_loop_records:
  "train_loop T st bs = Inr st' \<Longrightarrow>
     total_loss st'
       = fadd (total_loss st)
           (fsum (map (\<lambda>x. fmul_nat (br_loss x) (br_size x)) (train_records T st bs)))
   \<and> length (train_records T st bs) = length bs
   \<and> ts_writer st' = ts_writer st
        @ concat (map (\<lambda>x. [AddScalar ''train_loss'' (br_loss x) None, Flush]) (train_records T st bs))"
proof (induction T st bs rule: train_loop.induct)
  case (1 T st)
  then show ?case by (cases "total_loss st") (auto simp: fadd_def)
next
  case (2 T st e bs)
  then show ?case by simp
next
  case (3 T st b bs)
  from "3.prems" obtain st1 where tb: "train_batch T st b = Inr st1"
    and rest: "train_loop T st1 bs = Inr st'"
    by (auto split: sum.splits)
  from tb obtain st0 loss where bb: "before_backward T st b = Inr (st0, loss)"
    and st1: "st1 = from_backward T st0 b loss"
    by (auto simp: train_batch_def split: sum.splits)
  from bb obtain m n where fl: "forward_loss T (ts_model st) b = Inr (m, loss, n)"
    and st0: "st0 = st\<lparr>ts_model := m, total_loss := fadd (total_loss st) (fmul_nat loss n)\<rparr>"
    by (auto simp: before_backward_forward_loss split: sum.splits)
  have n: "n = hd (shape (t_img_a b))" using forward_loss_frame[OF fl] by simp
  note ih = "3.IH"[OF tb rest]
  have t1: "total_loss st1 = fadd (total_loss st) (fmul_nat loss n)"
    and w1: "ts_writer st1 = ts_writer st @ [AddScalar ''train_loss'' loss None, Flush]"
    using from_backward_frame[of T st0 b loss] by (simp_all add: st1 st0)
  have recs: "train_records T st (Inr b # bs)
      = \<lparr>br_grad = m_grad (ts_model st0), br_loss = loss, br_size = n\<rparr> # train_records T st1 bs"
    by (simp add: bb st1 n)
  show ?case
    using ih by (simp add: bb st1[symmetric] n[symmetric] t1 w1 fadd_assoc)
qed

lemma valid_loop_records:
  "valid_loop T st bs = Inr st' \<Longrightarrow>
     snd st' = fadd (snd st) (fsum (map (\<lambda>(l, n). fmul_nat l n) (valid_records T st bs)))
   \<and> length (valid_records T st bs) = length bs
   \<and> m_params (fst st') = m_params (fst st) \<and> m_grad (fst st') = m_grad (fst st)
   \<and> m_training (fst st') = m_training (fst st)
   \<and> m_batch_norm (fst st') = m_batch_norm (fst st)"
proof (induction T st bs rule: valid_loop.induct)
  case (1 T st)
  then show ?case by (cases "snd st") (auto simp: fadd_def)
next
  case (2 T st e bs)
  then show ?case by simp
next
  case (3 T st b bs)
  from "3.prems" obtain st1 where vb: "valid_batch T st b = Inr st1"
    and rest: "valid_loop T st1 bs = Inr st'"
    by (auto split: sum.splits)
  from vb obtain m loss n where fl: "forward_loss T (fst st) b = Inr (m, loss, n)"
    and st1: "st1 = (m, fadd (snd st) (fmul_nat loss n))"
    by (auto simp: valid_batch_forward_loss split: sum.splits)
  note fr = forward_loss_frame[OF fl]
  note ih = "3.IH"[OF vb rest]
  show ?case
    using ih fr by (simp add: fl st1 fadd_assoc)
qed

lemma chunks_lengths: "0 < n \<Longrightarrow> sum_list (map length (chunks n xs)) = length xs"
proof (induction n xs rule: chunks.induct)
  case (1 n xs)
  show ?case
  proof (cases "xs = []")
    case True
    then show ?thesis by (simp add: chunks.simps)
  next
    case False
    with "1.prems" have "sum_list (map length (chunks n (drop n xs))) = length (drop n xs)"
      by (intro "1.IH") auto
    with False "1.prems" show ?thesis
      by (subst chunks.simps) simp
  qed
qed

lemma fetch_all_length: "fetch_all ds idxs = Inr xs \<Longrightarrow> length xs = length idxs"
  by (induction idxs arbitrary: xs) (auto split: if_splits sum.splits)

lemma torch_stack_size: "torch_stack ts = Inr t \<Longrightarrow> hd (shape t) = length ts"
  by (auto simp: torch_stack_def split: list.splits if_splits)

lemma collate_size: "collate xs = Inr b \<Longrightarrow> hd (shape (t_img_a b)) = length xs"
  by (auto simp: collate_def split: sum.splits dest: torch_stack_size)

lemma batch_size_of_chunk:
  "(case fetch_all ds idxs of Inl e \<Rightarrow> Inl e | Inr xs \<Rightarrow> collate xs) = Inr b
     \<Longrightarrow> hd (shape (t_img_a b)) = length idxs"
  by (auto split: sum.splits simp: fetch_all_length collate_size)

lemma train_records_sizes:
  "train_loop T st (map F cs) = Inr st' \<Longrightarrow>
     (\<And>c b. F c = Inr b \<Longrightarrow> hd (shape (t_img_a b)) = length c) \<Longrightarrow>
     map br_size (train_records T st (map F cs)) = map length cs"
proof (induction cs arbitrary: st)
  case Nil
  then show ?case by simp
next
  case (Cons c cs)
  from Cons.prems(1) obtain b where Fc: "F c = Inr b"
    by (cases "F c") auto
  from Cons.prems(1) Fc obtain st1 where tb: "train_batch T st b = Inr st1"
    and rest: "train_loop T st1 (map F cs) = Inr st'"
    by (auto split: sum.splits)
  from tb obtain st0 loss where bb: "before_backward T st b = Inr (st0, loss)"
    and st1: "st1 = from_backward T st0 b loss"
    by (auto simp: train_batch_def split: sum.splits)
  have "map br_size (train_records T st1 (map F cs)) = map length cs"
    using rest Cons.prems(2) by (rule Cons.IH)
  then show ?case
    using Cons.prems(2)[OF Fc] by (simp add: Fc bb st1[symmetric])
qed

lemma valid_records_sizes:
  "valid_loop T st (map F cs) = Inr st' \<Longrightarrow>
     (\<And>c b. F c = Inr b \<Longrightarrow> hd (shape (t_img_a b)) = length c) \<Longrightarrow>
     map snd (valid_records T st (map F cs)) = map length cs"
proof (induction cs arbitrary: st)
  case Nil
  then show ?case by simp
next
  case (Cons c cs)
  from Cons.prems(1) obtain b where Fc: "F c = Inr b"
    by (cases "F c") auto
  from Cons.prems(1) Fc obtain st1 where vb: "valid_batch T st b = Inr st1"
    and rest: "valid_loop T st1 (map F cs) = Inr st'"
    by (auto split: sum.splits)
  from vb obtain m loss n where fl: "forward_loss T (fst st) b = Inr (m, loss, n)"
    and st1: "st1 = (m, fadd (snd st) (fmul_nat loss n))"
    by (auto simp: valid_batch_forward_loss split: sum.splits)
  have n: "n = length c"
    using forward_loss_frame[OF fl] Cons.prems(2)[OF Fc] by simp
  have "map snd (valid_records T st1 (map F cs)) = map length cs"
    using rest Cons.prems(2) by (rule Cons.IH)
  then show ?case
    by (simp add: Fc fl st1 n)
qed

lemma wf_dataloader_order_length:
  "wf_dataloader dl \<Longrightarrow> length (dl_order dl) = length (dl_dataset dl)"
  by (metis wf_dataloader_def length_sort length_upt minus_nat.diff_0)

lemma train_step_sizes:
  assumes "train_step T m opt dl w = Inr r" "wf_dataloader dl"
  shows "(\<Sum>x \<leftarrow> train_step_records T m opt dl w. br_size x) = length (dl_dataset dl)"
proof -
  let ?st = "\<lparr>ts_model = m\<lparr>m_training := True\<rparr>, ts_optimizer = opt, ts_writer = w,
             total_loss = Fin 0\<rparr>"
  from assms(1) obtain st' where l: "train_loop T ?st (batches dl) = Inr st'"
    by (auto simp: train_step_def Let_def split: sum.splits)
  have "map br_size (train_records T ?st (batches dl)) = map length (chunks (dl_batch_size dl) (dl_order dl))"
    using l unfolding batches_def by (rule train_records_sizes) (rule batch_size_of_chunk)
  then have "(\<Sum>x \<leftarrow> train_records T ?st (batches dl). br_size x)
      = sum_list (map length (chunks (dl_batch_size dl) (dl_order dl)))"
    by simp
  also have "\<dots> = length (dl_order dl)"
    using assms(2) by (intro chunks_lengths) (simp add: wf_dataloader_def)
  finally show ?thesis
    using assms(2) by (simp add: train_step_records_def wf_dataloader_order_length)
qed

lemma valid_step_sizes:
  assumes "valid_step T m dl = Inr r" "wf_dataloader dl"
  shows "(\<Sum>(l, n) \<leftarrow> valid_step_records T m dl. n) = length (dl_dataset dl)"
proof -
  let ?st = "(m\<lparr>m_training := False\<rparr>, Fin 0)"
  from assms(1) obtain st' where l: "valid_loop T ?st (batches dl) = Inr st'"
    by (auto simp: valid_step_def Let_def split: sum.splits)
  have "map snd (valid_records T ?st (batches dl)) = map length (chunks (dl_batch_size dl) (dl_order dl))"
    using l unfolding batches_def by (rule valid_records_sizes) (rule batch_size_of_chunk)
  moreover have "(\<Sum>(l, n) \<leftarrow> xs. n) = sum_list (map snd xs)" for xs :: "(fl \<times> nat) list"
    by (induction xs) auto
  ultimately have "(\<Sum>(l, n) \<leftarrow> valid_records T ?st (batches dl). n)
      = sum_list (map length (chunks (dl_batch_size dl) (dl_order dl)))"
    by simp
  also have "\<dots> = length (dl_order dl)"
    using assms(2) by (intro chunks_lengths) (simp add: wf_dataloader_def)
  finally show ?thesis
    using assms(2) by (simp add: valid_step_records_def wf_dataloader_order_length)
qed

lemma train_step_mean:
  assumes "train_step T m opt dl w = Inr (m', opt', w', r)"
  shows "r = (if list_all (\<lambda>x. is_fin (br_loss x)) (train_step_records T m opt dl w)
              then Fin ((\<Sum>x \<leftarrow> train_step_records T m opt dl w.
                           fin_val (br_loss x) * real (br_size x))
                        / real (length (dl_dataset dl)))
              else NaN)
       \<and> length (train_step_records T m opt dl w) = length (batches dl)
       \<and> w' = w @ concat (map (\<lambda>x. [AddScalar ''train_loss'' (br_loss x) None, Flush])
                         (train_step_records T m opt dl w))
       \<and> dl_dataset dl \<noteq> []"
proof -
  let ?st = "\<lparr>ts_model = m\<lparr>m_training := True\<rparr>, ts_optimizer = opt, ts_writer = w,
             total_loss = Fin 0\<rparr>"
  from assms obtain st' where l: "train_loop T ?st (batches dl) = Inr st'"
    and r: "r = fdiv_nat (total_loss st') (length (dl_dataset dl))" and w': "w' = ts_writer st'"
    and ne: "dl_dataset dl \<noteq> []"
    by (auto simp: train_step_def Let_def split: sum.splits if_splits)
  note t = train_loop_records[OF l]
  from t have "r = fdiv_nat (fsum (map (\<lambda>x. fmul_nat (br_loss x) (br_size x))
                     (train_step_records T m opt dl w))) (length (dl_dataset dl))"
    by (simp add: r train_step_records_def fadd_zero)
  then have "r = (if list_all (\<lambda>x. is_fin (br_loss x)) (train_step_records T m opt dl w)
              then Fin ((\<Sum>x \<leftarrow> train_step_records T m opt dl w.
                           fin_val (br_loss x) * real (br_size x))
                        / real (length (dl_dataset dl)))
              else NaN)"
    by (simp only: weighted_mean_closed)
  with t show ?thesis
    by (simp add: w' ne train_step_records_def)
qed

lemma valid_step_mean:
  assumes "valid_step T m dl = Inr (m', r)"
  shows "r = (if list_all (\<lambda>(l, n). is_fin l) (valid_step_records T m dl)
              then Fin ((\<Sum>(l, n) \<leftarrow> valid_step_records T m dl. fin_val l * real n)
                        / real (length (dl_dataset dl)))
              else NaN)
       \<and> length (valid_step_records T m dl) = length (batches dl)
       \<and> m_params m' = m_params m \<and> m_grad m' = m_grad m \<and> m_training m' = False
       \<and> m_batch_norm m' = m_batch_norm m
       \<and> dl_dataset dl \<noteq> []"
proof -
  let ?st = "(m\<lparr>m_training := False\<rparr>, Fin 0)"
  from assms obtain tot where l: "valid_loop T ?st (batches dl) = Inr (m', tot)"
    and r: "r = fdiv_nat tot (length (dl_dataset dl))"
    and ne: "dl_dataset dl \<noteq> []"
    by (auto simp: valid_step_def Let_def split: sum.splits if_splits)
  note t = valid_loop_records[OF l]
  from t have "r = fdiv_nat (fsum (map (\<lambda>x. fmul_nat (fst x) (snd x))
                     (valid_step_records T m dl))) (length (dl_dataset dl))"
    by (simp add: r valid_step_records_def fadd_zero case_prod_unfold)
  then have "r = (if list_all (\<lambda>x. is_fin (fst x)) (valid_step_records T m dl)
              then Fin ((\<Sum>x \<leftarrow> valid_step_records T m dl. fin_val (fst x) * real (snd x))
                        / real (length (dl_dataset dl)))
              else NaN)"
    by (simp only: weighted_mean_closed)
  with t show ?thesis
    by (simp add: ne valid_step_records_def case_prod_unfold)
qed

lemma concat_replicate_replicate: "concat (replicate k (replicate n c)) = replicate (k * n) c"
  by (induction k) (simp_all add: replicate_add)

lemma torch_stack_full:
  "0 < k \<Longrightarrow> torch_stack (replicate k (full s c)) = Inr (full (k # s) c)"
  by (cases k)
     (simp_all add: torch_stack_def full_def list_all_iff concat_replicate_replicate replicate_add)

lemma toy_collate: "0 < k \<Longrightarrow> collate (replicate k (toy_item a b)) = Inr (toy_batch k a b)"
proof -
  assume k: "0 < k"
  have p: "torch_stack (replicate k \<lparr>shape = [4, 2], vals = toy_points\<rparr>)
      = Inr \<lparr>shape = [k, 4, 2], vals = concat (replicate k toy_points)\<rparr>"
    using k by (cases k) (simp_all add: torch_stack_def list_all_iff)
  show ?thesis
    using k by (simp add: collate_def toy_item_def toy_batch_def torch_stack_full p)
qed

lemma wf_toy_points: "wf_tensor \<lparr>shape = [k, 4, 2], vals = concat (replicate k toy_points)\<rparr>"
  by (simp add: wf_tensor_def length_concat toy_points_def sum_list_replicate)

lemma toy_photometric_loss:
  assumes "0 < k"
  shows "photometric_loss toy_kornia \<lparr>shape = [k, 4, 2], vals = replicate (k * 4 * 2) 0\<rparr>
           (full [k, 1, 256, 256] a) (full [k, 1, 256, 256] b)
           \<lparr>shape = [k, 4, 2], vals = concat (replicate k toy_points)\<rparr> = Inr (Fin \<bar>a - b\<bar>)"
proof -
  let ?p = "\<lparr>shape = [k, 4, 2], vals = concat (replicate k toy_points)\<rparr>"
  let ?d = "\<lparr>shape = [k, 4, 2], vals = replicate (k * 4 * 2) 0\<rparr>"
  have add: "tadd ?p ?d = Inr ?p"
    by (rule tadd_zero) (simp_all add: wf_toy_points, simp add: wf_tensor_def)
  have h: "get_perspective_transform toy_kornia ?p ?p = Inr (eye3 k)"
    by (simp add: toy_kornia_def)
  have w: "warp_perspective toy_kornia (full [k, 1, 256, 256] a) (eye3 k) (256, 256)
      = Inr (full [k, 1, 256, 256] a)"
    by (simp add: toy_kornia_def shape_full wf_full)
  have m: "torch_mean (torch_abs (full [k, 1, 256, 256] (a - b))) = Fin \<bar>a - b\<bar>"
    using assms by (simp add: torch_abs_full torch_mean_full)
  show ?thesis
    by (simp only: photometric_loss_def add h w tsub_full m sum.case)
qed

lemma toy_forward_loss:
  assumes "0 < k"
  shows "forward_loss toy_backend m (toy_batch k a b) = Inr (m, Fin \<bar>a - b\<bar>, k)"
proof -
  have f: "Net_forward (m_training m) (m_batch_norm m) [k, 1, 128, 128] [k, 1, 128, 128]
      = Inr [k, 4, 2]"
    using assms by (intro Net_forward_shape) simp_all
  have nv: "net_values toy_backend tr ps bufs (full [k, 1, 128, 128] 0) (full [k, 1, 128, 128] 0)
      = (replicate (k * 4 * 2) 0, bufs)" for tr ps bufs
    by (simp add: toy_backend_def shape_full)
  have c: "Net_call toy_backend m (full [k, 1, 128, 128] 0) (full [k, 1, 128, 128] 0)
      = Inr (\<lparr>shape = [k, 4, 2], vals = replicate (k * 4 * 2) 0\<rparr>, m)"
    by (simp only: Net_call_def shape_full f nv sum.case prod.case) simp
  have l: "lib toy_backend = toy_kornia" by (simp add: toy_backend_def)
  have s: "size0 (full [k, 1, 256, 256] a) = Inr k" by (simp add: size0_def shape_full)
  show ?thesis
    by (simp only: forward_loss_def toy_batch_def item.simps c l toy_photometric_loss[OF assms] s
        sum.case prod.case)
qed

lemma toy_batch_size: "hd (shape (t_img_a (toy_batch k a b))) = k"
  by (simp add: toy_batch_def shape_full)

lemma toy_before_backward:
  "0 < k \<Longrightarrow> before_backward toy_backend st (toy_batch k a b)
     = Inr (st\<lparr>total_loss := fadd (total_loss st) (Fin (\<bar>a - b\<bar> * real k))\<rparr>, Fin \<bar>a - b\<bar>)"
  by (simp add: before_backward_forward_loss toy_forward_loss fl_arith)

lemma toy_from_backward:
  "from_backward toy_backend st b loss
     = st\<lparr>ts_model := (ts_model st)
            \<lparr>m_grad := Some (case m_grad (ts_model st) of
                   None \<Rightarrow> map (\<lambda>p. 1) (m_params (ts_model st))
                 | Some g0 \<Rightarrow> map2 (+) g0 (map (\<lambda>p. 1) (m_params (ts_model st)))),
             m_params := map2 (\<lambda>p x. p - opt_lr (ts_optimizer st) * x) (m_params (ts_model st))
                (case m_grad (ts_model st) of
                   None \<Rightarrow> map (\<lambda>p. 1) (m_params (ts_model st))
                 | Some g0 \<Rightarrow> map2 (+) g0 (map (\<lambda>p. 1) (m_params (ts_model st))))\<rparr>,
          ts_writer := ts_writer st @ [AddScalar ''train_loss'' loss None, Flush]\<rparr>"
  by (simp add: from_backward_def backward_def toy_backend_def add_scalar_def flush_def Let_def)

lemma toy_batches:
  "batches toy_loader = [Inr (toy_batch 2 1 0), Inr (toy_batch 1 3 0)]"
proof -
  have c: "chunks 2 [0, 1, 2 :: nat] = [[0, 1], [2]]"
    by (simp add: chunks.simps del: One_nat_def)
  have c1: "collate [toy_item 1 0, toy_item 1 0] = Inr (toy_batch 2 1 0)"
    using toy_collate[of 2 1 0] by (simp add: numeral_2_eq_2)
  have c2: "collate [toy_item 3 0] = Inr (toy_batch 1 3 0)"
    using toy_collate[of 1 3 0] by simp
  have f1: "fetch_all [toy_item 1 0, toy_item 1 0, toy_item 3 0] [0, 1]
      = Inr [toy_item 1 0, toy_item 1 0]"
    by simp
  have f2: "fetch_all [toy_item 1 0, toy_item 1 0, toy_item 3 0] [2] = Inr [toy_item 3 0]"
    by simp
  show ?thesis
    by (simp only: batches_def toy_loader_def dataloader.simps c list.map f1 f2 c1 c2 sum.case)
qed

lemma toy_loader_length: "length (dl_dataset toy_loader) = 3"
  by (simp add: toy_loader_def)

lemma toy_train_records:
  "train_step_records toy_backend toy_model toy_optimizer toy_loader []
     = [\<lparr>br_grad = None, br_loss = Fin 1, br_size = 2\<rparr>,
        \<lparr>br_grad = Some [1], br_loss = Fin 3, br_size = 1\<rparr>]"
  by (simp add: train_step_records_def toy_batches toy_before_backward toy_from_backward
      toy_batch_size toy_model_def toy_optimizer_def)

lemma toy_train_step:
  "train_step toy_backend toy_model toy_optimizer toy_loader []
     = Inr (\<lparr>m_params = [- (3 / 100000)], m_buffers = [], m_grad = Some [2], m_training = True,
              m_batch_norm = True\<rparr>,
            toy_optimizer,
            [AddScalar ''train_loss'' (Fin 1) None, Flush,
             AddScalar ''train_loss'' (Fin 3) None, Flush],
            Fin (5 / 3))"
  by (simp add: train_step_def toy_batches train_batch_def toy_before_backward toy_from_backward
      toy_loader_length toy_model_def toy_optimizer_def LR_def fl_arith)

lemma toy_valid_step:
  "valid_step toy_backend toy_model toy_loader = Inr (toy_model\<lparr>m_training := False\<rparr>, Fin (5 / 3))"
  by (simp add: valid_step_def toy_batches valid_batch_forward_loss toy_forward_loss
      toy_loader_length fl_arith)

lemma toy_valid_records:
  "valid_step_records toy_backend toy_model toy_loader = [(Fin 1, 2), (Fin 3, 1)]"
  by (simp add: valid_step_records_def toy_batches toy_forward_loss)

lemma wf_toy_loader: "wf_dataloader toy_loader"
  by (simp add: wf_dataloader_def toy_loader_def upt_rec)

lemma train_batch_grad:
  assumes "train_batch T st b = Inr st1"
  shows "\<exists>g. m_grad (ts_model st1)
            = Some (case m_grad (ts_model st) of None \<Rightarrow> g | Some g0 \<Rightarrow> map2 (+) g0 g)"
proof -
  from assms obtain st0 loss where bb: "before_backward T st b = Inr (st0, loss)"
    and st1: "st1 = from_backward T st0 b loss"
    by (auto simp: train_batch_def split: sum.splits)
  from bb obtain m n where fl: "forward_loss T (ts_model st) b = Inr (m, loss, n)"
    and st0: "st0 = st\<lparr>ts_model := m, total_loss := fadd (total_loss st) (fmul_nat loss n)\<rparr>"
    by (auto simp: before_backward_forward_loss split: sum.splits)
  have "m_grad m = m_grad (ts_model st)" using forward_loss_frame[OF fl] by simp
  then show ?thesis
    by (auto simp: st1 st0 from_backward_def backward_def Let_def split: prod.splits)
qed

lemma before_backward_grad:
  "before_backward T st b = Inr (st', loss) \<Longrightarrow> m_grad (ts_model st') = m_grad (ts_model st)"
  by (auto simp: before_backward_forward_loss split: sum.splits dest: forward_loss_frame)

lemma train_size_div: "train_size n = (4 * n) div 5"
proof -
  have "0.8 * real n = real (4 * n) / real 5" by simp
  then have "\<lfloor>0.8 * real n\<rfloor> = int ((4 * n) div 5)"
    by (simp only: floor_divide_of_nat_eq)
  then show ?thesis by (simp add: train_size_def)
qed

lemma train_size_le: "train_size n \<le> n"
  unfolding train_size_div by (simp add: div_le_mono less_eq_div_iff_mult_less_eq)

lemma train_size_zero: "train_size n = 0 \<longleftrightarrow> n \<le> 1"
  unfolding train_size_div by (auto simp: div_eq_0_iff)

lemma train_size_rest: "n - train_size n = 0 \<longleftrightarrow> n = 0"
proof
  assume "n - train_size n = 0"
  then have "n \<le> (4 * n) div 5" by (simp add: train_size_div)
  then have "5 * n \<le> 4 * n" by (simp add: less_eq_div_iff_mult_less_eq mult.commute)
  then show "n = 0" by simp
qed simp

lemma split_dataset_sizes:
  assumes "wf_randomness R (length dataset)"
  shows "\<exists>train_set valid_set. split_dataset R dataset = Inr (train_set, valid_set)
     \<and> length train_set = train_size (length dataset)
     \<and> length valid_set = length dataset - train_size (length dataset)"
proof -
  have "length (sort (split_perm R)) = length [0..<length dataset]"
    using assms by (simp add: wf_randomness_def)
  then have l: "length (split_perm R) = length dataset" by simp
  show ?thesis
    using l train_size_le[of "length dataset"]
    by (simp add: split_dataset_def random_split_def)
qed

lemma empty_loader_fails:
  assumes "wf_dataloader dl" "dl_dataset dl = []"
  shows "train_step T m opt dl w = Inl ZeroDivisionError"
    and "valid_step T m dl = Inl ZeroDivisionError"
proof -
  have "sort (dl_order dl) = []" using assms by (simp add: wf_dataloader_def)
  then have "dl_order dl = []" by (metis length_0_conv length_sort)
  then have b: "batches dl = []" by (simp add: batches_def chunks.simps)
  show "train_step T m opt dl w = Inl ZeroDivisionError"
    by (simp add: train_step_def b assms(2))
  show "valid_step T m dl = Inl ZeroDivisionError"
    by (simp add: valid_step_def b assms(2))
qed

lemma toy_partition_sizes:
  "partition_sizes (toy_randomness 4) (replicate 4 (toy_item 1 0)) = Inr (3, 1)"
proof -
  have t: "train_size 4 = 3" by (simp add: train_size_div)
  show ?thesis
    by (simp add: partition_sizes_def split_dataset_def random_split_def t toy_randomness_def)
qed

lemma step_keys_append: "step_keys (xs @ ys) = step_keys xs @ step_keys ys"
  by (induction xs rule: step_keys.induct) auto

lemma step_keys_train: 
  "step_keys (concat (map (\<lambda>x. [AddScalar tag (f x) None, Flush]) xs)) = replicate (length xs) None"
  by (induction xs) auto

section \<open>The epoch driver: its trace\<close>

lemma of_char_digit: "d < 10 \<Longrightarrow> of_char (digit d) = 48 + d"
  by (simp add: digit_def)

lemma int_of_str_snoc: "int_of_str (s @ [c]) = 10 * int_of_str s + (of_char c - 48)"
  by (simp add: int_of_str_def)

lemma int_of_str_str_nat: "int_of_str (str_nat n) = n"
proof (induction n rule: str_nat.induct)
  case (1 n)
  show ?case
  proof (cases "n < 10")
    case True
    then show ?thesis
      by (subst str_nat.simps) (simp add: int_of_str_def of_char_digit)
  next
    case False
    then have "int_of_str (str_nat (n div 10)) = n div 10" by (rule "1.IH")
    with False show ?thesis
      by (subst str_nat.simps) (simp add: int_of_str_snoc of_char_digit)
  qed
qed

lemma str_nat_inj: "str_nat a = str_nat b \<Longrightarrow> a = b"
  by (metis int_of_str_str_nat)

lemma checkpoint_name_inj: "inj checkpoint_name"
  by (auto simp: inj_def checkpoint_name_def dest: str_nat_inj)

lemma distinct_checkpoint_names: "distinct (map checkpoint_name [0..<n])"
  by (simp add: distinct_map checkpoint_name_inj inj_on_def str_nat_inj checkpoint_name_def)

lemma is_digit_digit: "d < 10 \<Longrightarrow> is_digit (digit d)"
proof -
  have "list_all (\<lambda>d. is_digit (digit d)) [0..<10]"
    by code_simp
  moreover assume "d < 10"
  ultimately show ?thesis by (simp add: list_all_iff)
qed

lemma fmt4f_nan: "fmt4f NaN = ''nan''"
  by (simp add: fmt4f_def)

lemma round_half_even_near: "0 \<le> x \<Longrightarrow> \<bar>real (round_half_even x) - x\<bar> \<le> 1 / 2"
proof -
  assume x: "0 \<le> x"
  then have f: "0 \<le> \<lfloor>x\<rfloor>" by simp
  have b: "of_int \<lfloor>x\<rfloor> \<le> x" "x < of_int \<lfloor>x\<rfloor> + 1" by linarith+
  define k where "k = \<lfloor>x\<rfloor>"
  have rk: "real (nat k) = of_int k" "real (nat (k + 1)) = of_int k + 1"
    using f by (simp_all add: k_def)
  show ?thesis
    using b unfolding round_half_even_def Let_def k_def[symmetric]
    by (auto simp: rk split: if_splits)
qed

lemma four_digits_value:
  "1000 * (r div 1000 mod 10) + 100 * (r div 100 mod 10) + 10 * (r div 10 mod 10) + r mod 10
     = (r :: nat) mod 10000"
proof -
  have a: "r mod 10000 = 10 * (r div 10 mod 1000) + r mod 10"
    using mod_mult2_eq[of r 10 1000] by simp
  have b: "r div 10 mod 1000 = 10 * (r div 10 div 10 mod 100) + r div 10 mod 10"
    using mod_mult2_eq[of "r div 10" 10 100] by simp
  have c: "r div 10 div 10 mod 100 = 10 * (r div 10 div 10 div 10 mod 10) + r div 10 div 10 mod 10"
    using mod_mult2_eq[of "r div 10 div 10" 10 10] by simp
  have d: "r div 10 div 10 = r div 100" "r div 10 div 10 div 10 = r div 1000"
    by (simp_all add: div_mult2_eq[symmetric])
  show ?thesis using a b c d by simp
qed

lemma four_digits:
  "int_of_str [digit (r div 1000 mod 10), digit (r div 100 mod 10), digit (r div 10 mod 10),
               digit (r mod 10)] = r mod 10000"
proof -
  have "int_of_str [digit (r div 1000 mod 10), digit (r div 100 mod 10), digit (r div 10 mod 10),
               digit (r mod 10)]
      = 1000 * (r div 1000 mod 10) + 100 * (r div 100 mod 10) + 10 * (r div 10 mod 10) + r mod 10"
    by (simp add: int_of_str_def of_char_digit)
  then show ?thesis
    by (simp only: four_digits_value)
qed

lemma fmt4f_fin:
  "\<exists>fp. fmt4f (Fin x)
           = (if x < 0 then ''-'' else []) @ str_nat (round_half_even (\<bar>x\<bar> * 10000) div 10000)
             @ ''.'' @ fp
        \<and> length fp = 4 \<and> list_all is_digit fp
        \<and> int_of_str fp = round_half_even (\<bar>x\<bar> * 10000) mod 10000"
proof -
  define r where "r = round_half_even (\<bar>x\<bar> * 10000)"
  let ?fp = "[digit (r div 1000 mod 10), digit (r div 100 mod 10), digit (r div 10 mod 10),
            digit (r mod 10)]"
  have "fmt4f (Fin x) = (if x < 0 then ''-'' else []) @ str_nat (r div 10000) @ ''.'' @ ?fp"
    by (simp add: fmt4f_def r_def Let_def)
  moreover have "length ?fp = 4" by simp
  moreover have "list_all is_digit ?fp" by (simp add: is_digit_digit)
  moreover have "int_of_str ?fp = r mod 10000" by (rule four_digits)
  ultimately show ?thesis unfolding r_def by blast
qed

lemma is_digit_str_nat: "list_all is_digit (str_nat n)"
proof (induction n rule: str_nat.induct)
  case (1 n)
  show ?case
  proof (cases "n < 10")
    case True
    then show ?thesis
      by (subst str_nat.simps) (simp add: is_digit_digit)
  next
    case False
    then have "list_all is_digit (str_nat (n div 10))" by (rule "1.IH")
    with False show ?thesis
      by (subst str_nat.simps) (simp add: is_digit_digit)
  qed
qed

lemma fit_loop_append:
  "fit_loop T R tr va st (xs @ ys)
     = (case fit_loop T R tr va st xs of Inl e \<Rightarrow> Inl e | Inr st' \<Rightarrow> fit_loop T R tr va st' ys)"
  by (induction xs arbitrary: st) (auto split: sum.splits)

lemma console_and_files_append:
  "console_and_files (xs @ ys) = console_and_files xs @ console_and_files ys"
  by (induction xs rule: console_and_files.induct) auto

lemma console_and_files_scalars:
  "console_and_files (concat (map (\<lambda>x. [AddScalar tag (f x) None, Flush]) xs)) = []"
  by (induction xs) auto

lemma saved_files_append: "saved_files (xs @ ys) = saved_files xs @ saved_files ys"
  by (induction xs rule: saved_files.induct) auto

lemma saved_files_scalars:
  "saved_files (concat (map (\<lambda>x. [AddScalar tag (f x) None, Flush]) xs)) = []"
  by (induction xs) auto

lemma fit_epoch_outcome:
  assumes "fit_epoch T R tr va s e = Inr st"
  shows "\<exists>tl vl m.
      (case train_step T (fs_model s) (fs_optimizer s) (train_loader R tr e) (fs_trace s) of
          Inl err \<Rightarrow> Inl err
        | Inr (m, opt, writer, train_loss) \<Rightarrow>
            (case valid_step T m (valid_loader va) of
               Inl err \<Rightarrow> Inl err
             | Inr (m', valid_loss) \<Rightarrow> Inr (train_loss, valid_loss, state_dict m')))
        = Inr (tl, vl, state_dict m)
    \<and> console_and_files (fs_trace st)
        = console_and_files (fs_trace s)
          @ [Print (epoch_line e tl vl), Save (checkpoint_name e) (state_dict m)]
    \<and> saved_files (fs_trace st) = saved_files (fs_trace s) @ [checkpoint_name e]"
proof -
  from assms obtain m1 opt1 w1 tl where
    t: "train_step T (fs_model s) (fs_optimizer s) (train_loader R tr e) (fs_trace s)
          = Inr (m1, opt1, w1, tl)"
    by (auto simp: fit_epoch_def split: sum.splits)
  from assms t obtain m2 vl where v: "valid_step T m1 (valid_loader va) = Inr (m2, vl)"
    and st: "st = \<lparr>fs_model = m2, fs_optimizer = opt1,
               fs_trace = w1 @ [Print (epoch_line e tl vl), Save (checkpoint_name e) (state_dict m2)]\<rparr>"
    by (auto simp: fit_epoch_def split: sum.splits)
  from train_step_mean[OF t]
  have "console_and_files w1 = console_and_files (fs_trace s)"
    and "saved_files w1 = saved_files (fs_trace s)"
    by (simp_all add: console_and_files_append console_and_files_scalars
        saved_files_append saved_files_scalars)
  then show ?thesis
    by (intro exI[of _ tl] exI[of _ vl] exI[of _ m2])
       (simp add: t v st console_and_files_append saved_files_append)
qed

lemma fit_loop_trace:
  assumes "fit_loop T R tr va (init_state R) [0..<n] = Inr st"
  shows "console_and_files (fs_trace st)
           = concat (map (\<lambda>e. epoch_report e (epoch_outcome T R tr va e)) [0..<n])
       \<and> saved_files (fs_trace st) = map checkpoint_name [0..<n]
       \<and> (\<forall>e<n. \<exists>tl vl sd. epoch_outcome T R tr va e = Inr (tl, vl, sd))"
  using assms
proof (induction n arbitrary: st)
  case 0
  then show ?case by (auto simp: init_state_def)
next
  case (Suc n)
  from Suc.prems obtain s where s: "fit_loop T R tr va (init_state R) [0..<n] = Inr s"
    and e: "fit_epoch T R tr va s n = Inr st"
    by (auto simp: fit_loop_append split: sum.splits)
  note ih = Suc.IH[OF s]
  from fit_epoch_outcome[OF e] obtain tl vl m where
    o: "epoch_outcome T R tr va n = Inr (tl, vl, state_dict m)"
    and c: "console_and_files (fs_trace st)
        = console_and_files (fs_trace s) @ [Print (epoch_line n tl vl), Save (checkpoint_name n) (state_dict m)]"
    and f: "saved_files (fs_trace st) = saved_files (fs_trace s) @ [checkpoint_name n]"
    by (auto simp: epoch_outcome_def s)
  have "\<forall>e<Suc n. \<exists>tl vl sd. epoch_outcome T R tr va e = Inr (tl, vl, sd)"
    using ih o by (auto simp: less_Suc_eq)
  moreover have "console_and_files (fs_trace st)
           = concat (map (\<lambda>e. epoch_report e (epoch_outcome T R tr va e)) [0..<Suc n])"
    using ih by (simp add: c o epoch_report_def)
  moreover have "saved_files (fs_trace st) = map checkpoint_name [0..<Suc n]"
    using ih by (simp add: f)
  ultimately show ?case by blast
qed

lemma replicate4: "replicate 4 x = [x, x, x, x]"
  by (simp add: numeral_eq_Suc)

lemma toy_split:
  "split_dataset (toy_randomness 5) (replicate 5 x) = Inr (replicate 4 x, [x])"
proof -
  have t: "train_size 5 = 4" by (simp add: train_size_div)
  have m: "map ((!) (replicate 5 x)) [0..<5] = replicate 5 x"
    using map_nth[of "replicate 5 x"] by simp
  show ?thesis
    by (simp add: split_dataset_def random_split_def t toy_randomness_def m)
qed

lemma toy_chunks:
  "chunks 64 [0..<4] = [[0, 1, 2, 3]]" "chunks 64 [0..<length [x]] = [[0]]"
proof -
  have u: "[0..<4] = [0, 1, 2, 3 :: nat]" by (simp add: upt_rec)
  show "chunks 64 [0..<4] = [[0, 1, 2, 3]]"
    unfolding u by (simp add: chunks.simps del: One_nat_def)
  have c: "chunks 64 [0 :: nat] = [[0]]"
    by (simp add: chunks.simps)
  have v: "[0..<length [x]] = [0]" by simp
  show "chunks 64 [0..<length [x]] = [[0]]"
    by (simp only: v c)
qed

lemma toy_batch_indices:
  "batch_indices (train_loader (toy_randomness 5) (replicate 4 x) e) = [[0, 1, 2, 3]]"
  "batch_indices (valid_loader [x]) = [[0]]"
proof -
  have t: "train_size 5 = 4" by (simp add: train_size_div)
  show "batch_indices (train_loader (toy_randomness 5) (replicate 4 x) e) = [[0, 1, 2, 3]]"
    by (simp add: batch_indices_def train_loader_def toy_randomness_def BATCH_SIZE_def t toy_chunks)
  show "batch_indices (valid_loader [x]) = [[0]]"
    by (simp only: batch_indices_def valid_loader_def BATCH_SIZE_def dataloader.simps toy_chunks)
qed

lemma toy_loader_batches:
  "batches (train_loader (toy_randomness 5) (replicate 4 x) e) = [collate (replicate 4 x)]"
  "batches (valid_loader [x]) = [collate [x]]"
proof -
  have f: "fetch_all [x, x, x, x] [0, 1, 2, 3] = Inr [x, x, x, x]" "fetch_all [x] [0] = Inr [x]"
    by simp_all
  have d: "dl_dataset (train_loader (toy_randomness 5) (replicate 4 x) e) = [x, x, x, x]"
    "dl_dataset (valid_loader [x]) = [x]"
    by (simp_all add: train_loader_def valid_loader_def replicate4)
  show "batches (train_loader (toy_randomness 5) (replicate 4 x) e) = [collate (replicate 4 x)]"
    unfolding batches_def batch_indices_def[symmetric]
    by (simp only: toy_batch_indices d list.map f sum.case) (simp only: replicate4)
  show "batches (valid_loader [x]) = [collate [x]]"
    unfolding batches_def batch_indices_def[symmetric]
    by (simp only: toy_batch_indices d list.map f sum.case)
qed

lemma toy_train_batches:
  "batches (train_loader (toy_randomness 5) (replicate 4 (toy_item 1 0)) e)
     = [Inr (toy_batch 4 1 0)]"
  using toy_collate[of 4 1 0] by (simp add: toy_loader_batches)

lemma toy_valid_batches:
  "batches (valid_loader [toy_item 1 0]) = [Inr (toy_batch 1 1 0)]"
  using toy_collate[of 1 1 0] by (simp add: toy_loader_batches)

lemma toy_epoch_train:
  "train_step toy_backend
       \<lparr>m_params = ps, m_buffers = [], m_grad = g, m_training = tr, m_batch_norm = True\<rparr>
       \<lparr>opt_lr = LR, opt_state = []\<rparr>
       (train_loader (toy_randomness 5) (replicate 4 (toy_item 1 0)) e) w
     = Inr (\<lparr>m_params = map2 (\<lambda>p x. p - LR * x) ps
                 (case g of None \<Rightarrow> map (\<lambda>p. 1) ps | Some g0 \<Rightarrow> map2 (+) g0 (map (\<lambda>p. 1) ps)),
              m_buffers = [],
              m_grad = Some (case g of None \<Rightarrow> map (\<lambda>p. 1) ps
                             | Some g0 \<Rightarrow> map2 (+) g0 (map (\<lambda>p. 1) ps)),
              m_training = True, m_batch_norm = True\<rparr>,
            \<lparr>opt_lr = LR, opt_state = []\<rparr>,
            w @ [AddScalar ''train_loss'' (Fin 1) None, Flush],
            Fin 1)"
proof -
  have l: "length (dl_dataset (train_loader (toy_randomness 5) (replicate 4 (toy_item 1 0)) e)) = 4"
    by (simp add: train_loader_def)
  show ?thesis
    by (simp add: train_step_def toy_train_batches train_batch_def toy_before_backward
        toy_from_backward l Let_def fl_arith cong: option.case_cong)
qed

lemma toy_epoch_valid:
  "valid_step toy_backend m (valid_loader [toy_item 1 0]) = Inr (m\<lparr>m_training := False\<rparr>, Fin 1)"
proof -
  have l: "length (dl_dataset (valid_loader [toy_item 1 0])) = 1"
    by (simp add: valid_loader_def)
  show ?thesis
    by (simp add: valid_step_def toy_valid_batches valid_batch_forward_loss toy_forward_loss l
        fl_arith)
qed

lemma toy_fit:
  "fit toy_backend (toy_randomness 5) (replicate 5 (toy_item 1 0)) 2
     = Inr \<lparr>fs_model = \<lparr>m_params = [- (3 / 100000)], m_buffers = [], m_grad = Some [2],
                         m_training = False, m_batch_norm = True\<rparr>,
            fs_optimizer = \<lparr>opt_lr = LR, opt_state = []\<rparr>,
            fs_trace =
              [AddScalar ''train_loss'' (Fin 1) None, Flush,
               Print (epoch_line 0 (Fin 1) (Fin 1)),
               Save (checkpoint_name 0) ([- (1 / 100000)], []),
               AddScalar ''train_loss'' (Fin 1) None, Flush,
               Print (epoch_line 1 (Fin 1) (Fin 1)),
               Save (checkpoint_name 1) ([- (3 / 100000)], [])]\<rparr>"
proof -
  have u: "[0..<2] = [0, 1 :: nat]" by (simp add: upt_rec)
  have i: "init_state (toy_randomness 5)
      = \<lparr>fs_model = \<lparr>m_params = [0], m_buffers = [], m_grad = None, m_training = True,
                      m_batch_norm = True\<rparr>,
         fs_optimizer = \<lparr>opt_lr = LR, opt_state = []\<rparr>, fs_trace = []\<rparr>"
    by (simp add: init_state_def toy_randomness_def)
  show ?thesis
    by (simp add: fit_def toy_split u i fit_epoch_def toy_epoch_train toy_epoch_valid
        state_dict_def del: One_nat_def)
       (simp add: LR_def)
qed

lemma digit_0_1: "digit 0 = CHR ''0''" "digit 1 = CHR ''1''"
  by code_simp+

lemma str_nat_0_1: "str_nat 0 = ''0''" "str_nat 1 = ''1''"
  by (subst str_nat.simps, simp add: digit_0_1 del: One_nat_def)+

lemma round_half_even_10000: "round_half_even 10000 = 10000"
  by (simp add: round_half_even_def)

lemma fmt4f_1: "fmt4f (Fin 1) = ''1.0000''"
  by (simp add: fmt4f_def round_half_even_10000 str_nat_0_1 digit_0_1 Let_def del: One_nat_def)

lemma toy_strings:
  "epoch_line 0 (Fin 1) (Fin 1) = ''0'' @ [CHR 0x09] @ ''1.0000'' @ [CHR 0x09] @ ''1.0000''"
  "epoch_line 1 (Fin 1) (Fin 1) = ''1'' @ [CHR 0x09] @ ''1.0000'' @ [CHR 0x09] @ ''1.0000''"
  "checkpoint_name 0 = ''model_0.pt''"
  "checkpoint_name 1 = ''model_1.pt''"
  by (simp_all add: epoch_line_def checkpoint_name_def fmt4f_1 str_nat_0_1 del: One_nat_def)

lemma toy_fit_final:
  "fit toy_backend (toy_randomness 5) (replicate 5 (toy_item 1 0)) 2 = Inr toy_final"
  by (simp only: toy_fit toy_strings toy_final_def)

lemma chunks_concat: "0 < n \<Longrightarrow> concat (chunks n xs) = xs"
proof (induction n xs rule: chunks.induct)
  case (1 n xs)
  show ?case
  proof (cases "xs = []")
    case True
    then show ?thesis by (simp add: chunks.simps)
  next
    case False
    with "1.prems" have "concat (chunks n (drop n xs)) = drop n xs"
      by (intro "1.IH") auto
    with False "1.prems" show ?thesis
      by (subst chunks.simps) simp
  qed
qed

lemma chunks_subset: "c \<in> set (chunks n xs) \<Longrightarrow> set c \<subseteq> set xs"
proof (induction n xs rule: chunks.induct)
  case (1 n xs)
  show ?case
  proof (cases "n = 0 \<or> xs = []")
    case True
    with "1.prems" show ?thesis by (simp add: chunks.simps)
  next
    case False
    with "1.prems" have "c = take n xs \<or> c \<in> set (chunks n (drop n xs))"
      by (subst (asm) chunks.simps) auto
    then show ?thesis
    proof
      assume "c = take n xs"
      then show ?thesis by (simp add: set_take_subset)
    next
      assume "c \<in> set (chunks n (drop n xs))"
      with False have "set c \<subseteq> set (drop n xs)" by (intro "1.IH") auto
      then show ?thesis using set_drop_subset by fast
    qed
  qed
qed

lemma fetch_all_in_range:
  "list_all (\<lambda>i. i < length ds) idxs \<Longrightarrow> fetch_all ds idxs = Inr (map ((!) ds) idxs)"
  by (induction idxs) auto

lemma batches_collate:
  assumes "list_all (\<lambda>i. i < length (dl_dataset dl)) (dl_order dl)"
  shows "batches dl
       = map (\<lambda>idxs. collate (map ((!) (dl_dataset dl)) idxs)) (batch_indices dl)"
proof -
  have "fetch_all (dl_dataset dl) c = Inr (map ((!) (dl_dataset dl)) c)"
    if "c \<in> set (chunks (dl_batch_size dl) (dl_order dl))" for c
  proof -
    from that have "set c \<subseteq> set (dl_order dl)" by (rule chunks_subset)
    with assms have "list_all (\<lambda>i. i < length (dl_dataset dl)) c"
      by (auto simp: list_all_iff)
    then show ?thesis by (rule fetch_all_in_range)
  qed
  then show ?thesis
    by (simp add: batches_def batch_indices_def)
qed

lemma sorted_order_in_range:
  assumes "sort xs = [0..<k]"
  shows "list_all (\<lambda>i. i < k) xs"
proof -
  have "set xs = set (sort xs)" by simp
  also have "\<dots> = {0..<k}" using assms by simp
  finally show ?thesis by (simp add: list_all_iff)
qed

lemma train_step_batch_sizes:
  assumes "train_step T m opt dl w = Inr r"
  shows "map br_size (train_step_records T m opt dl w) = map length (batch_indices dl)"
proof -
  let ?st = "\<lparr>ts_model = m\<lparr>m_training := True\<rparr>, ts_optimizer = opt, ts_writer = w,
             total_loss = Fin 0\<rparr>"
  from assms obtain st' where l: "train_loop T ?st (batches dl) = Inr st'"
    by (auto simp: train_step_def Let_def split: sum.splits)
  have "map br_size (train_records T ?st (batches dl))
      = map length (chunks (dl_batch_size dl) (dl_order dl))"
    using l unfolding batches_def by (rule train_records_sizes) (rule batch_size_of_chunk)
  then show ?thesis
    by (simp add: train_step_records_def batch_indices_def)
qed

lemma valid_step_batch_sizes:
  assumes "valid_step T m dl = Inr r"
  shows "map snd (valid_step_records T m dl) = map length (batch_indices dl)"
proof -
  let ?st = "(m\<lparr>m_training := False\<rparr>, Fin 0)"
  from assms obtain st' where l: "valid_loop T ?st (batches dl) = Inr st'"
    by (auto simp: valid_step_def Let_def split: sum.splits)
  have "map snd (valid_records T ?st (batches dl))
      = map length (chunks (dl_batch_size dl) (dl_order dl))"
    using l unfolding batches_def by (rule valid_records_sizes) (rule batch_size_of_chunk)
  then show ?thesis
    by (simp add: valid_step_records_def batch_indices_def)
qed

lemma fit_loop_prefix:
  assumes "fit_loop T R tr va s0 [0..<n] = Inr st" "e < n"
  shows "\<exists>s s'. fit_loop T R tr va s0 [0..<e] = Inr s \<and> fit_epoch T R tr va s e = Inr s'"
proof -
  from assms(2) have "[0..<n] = [0..<e] @ e # [Suc e..<n]"
    by (metis upt_conv_Cons upt_add_eq_append le_add_diff_inverse less_imp_le_nat zero_le)
  with assms(1) show ?thesis
    by (auto simp: fit_loop_append split: sum.splits)
qed

lemma epoch_sizes:
  assumes "fit_loop T R tr va (init_state R) [0..<n] = Inr st" "e < n"
  shows "epoch_batch_sizes T R tr va e
       = (map length (batch_indices (train_loader R tr e)),
          map length (batch_indices (valid_loader va)))"
proof -
  from fit_loop_prefix[OF assms] obtain s s' where
    s: "fit_loop T R tr va (init_state R) [0..<e] = Inr s"
    and e: "fit_epoch T R tr va s e = Inr s'"
    by blast
  from e obtain m1 opt1 w1 tl where
    t: "train_step T (fs_model s) (fs_optimizer s) (train_loader R tr e) (fs_trace s)
          = Inr (m1, opt1, w1, tl)"
    by (auto simp: fit_epoch_def split: sum.splits)
  from e t obtain r where v: "valid_step T m1 (valid_loader va) = Inr r"
    by (auto simp: fit_epoch_def split: sum.splits)
  show ?thesis
    by (simp add: epoch_batch_sizes_def s t train_step_batch_sizes[OF t]
        valid_step_batch_sizes[OF v])
qed

lemma round_half_even_tie:
  "round_half_even (real n + 1 / 2) = (if even n then n else Suc n)"
proof -
  have f: "\<lfloor>real n + 1 / 2\<rfloor> = int n" by linarith
  have s: "nat (int n + 1) = Suc n" by simp
  show ?thesis
    by (simp add: round_half_even_def f s Let_def)
qed

lemma toy_wf_epochs: "wf_epochs (toy_randomness 5) 4 epochs"
proof -
  have t: "train_size 5 = 4" by (simp add: train_size_div)
  show ?thesis
    by (simp add: wf_epochs_def toy_randomness_def t list_all_iff sorted_sort_id)
qed

lemma blank_collate: "0 < k \<Longrightarrow> collate (replicate k blank_item) = Inr (blank_batch k)"
proof -
  assume k: "0 < k"
  have p: "torch_stack (replicate k \<lparr>shape = [4, 2], vals = toy_points\<rparr>)
      = Inr \<lparr>shape = [k, 4, 2], vals = concat (replicate k toy_points)\<rparr>"
    using k by (cases k) (simp_all add: torch_stack_def list_all_iff)
  show ?thesis
    using k by (simp add: collate_def blank_item_def blank_batch_def torch_stack_full p)
qed

lemma blank_photometric_loss:
  "photometric_loss toy_kornia \<lparr>shape = [k, 4, 2], vals = replicate (k * 4 * 2) 0\<rparr>
           (full [k, 0, 256, 256] 0) (full [k, 0, 256, 256] 0)
           \<lparr>shape = [k, 4, 2], vals = concat (replicate k toy_points)\<rparr> = Inr NaN"
proof -
  let ?p = "\<lparr>shape = [k, 4, 2], vals = concat (replicate k toy_points)\<rparr>"
  let ?d = "\<lparr>shape = [k, 4, 2], vals = replicate (k * 4 * 2) 0\<rparr>"
  have add: "tadd ?p ?d = Inr ?p"
    by (rule tadd_zero) (simp_all add: wf_toy_points, simp add: wf_tensor_def)
  have h: "get_perspective_transform toy_kornia ?p ?p = Inr (eye3 k)"
    by (simp add: toy_kornia_def)
  have w: "warp_perspective toy_kornia (full [k, 0, 256, 256] 0) (eye3 k) (256, 256)
      = Inr (full [k, 0, 256, 256] 0)"
    by (simp add: toy_kornia_def shape_full wf_full)
  have m: "torch_mean (torch_abs (full [k, 0, 256, 256] (0 - 0))) = NaN"
    by (simp add: torch_abs_def torch_mean_def full_def)
  show ?thesis
    by (simp only: photometric_loss_def add h w tsub_full m sum.case)
qed

lemma blank_forward_loss:
  assumes "0 < k"
  shows "forward_loss toy_backend m (blank_batch k) = Inr (m, NaN, k)"
proof -
  have f: "Net_forward (m_training m) (m_batch_norm m) [k, 1, 128, 128] [k, 1, 128, 128]
      = Inr [k, 4, 2]"
    using assms by (intro Net_forward_shape) simp_all
  have nv: "net_values toy_backend tr ps bufs (full [k, 1, 128, 128] 0) (full [k, 1, 128, 128] 0)
      = (replicate (k * 4 * 2) 0, bufs)" for tr ps bufs
    by (simp add: toy_backend_def shape_full)
  have c: "Net_call toy_backend m (full [k, 1, 128, 128] 0) (full [k, 1, 128, 128] 0)
      = Inr (\<lparr>shape = [k, 4, 2], vals = replicate (k * 4 * 2) 0\<rparr>, m)"
    by (simp only: Net_call_def shape_full f nv sum.case prod.case) simp
  have l: "lib toy_backend = toy_kornia" by (simp add: toy_backend_def)
  have s: "size0 (full [k, 0, 256, 256] 0) = Inr k" by (simp add: size0_def shape_full)
  show ?thesis
    by (simp only: forward_loss_def blank_batch_def item.simps c l blank_photometric_loss s
        sum.case prod.case)
qed

lemma blank_batch_size: "hd (shape (t_img_a (blank_batch k))) = k"
  by (simp add: blank_batch_def shape_full)

lemma blank_before_backward:
  "0 < k \<Longrightarrow> before_backward toy_backend st (blank_batch k) = Inr (st\<lparr>total_loss := NaN\<rparr>, NaN)"
  by (simp add: before_backward_forward_loss blank_forward_loss fl_arith)

lemma blank_epoch_train:
  "train_step toy_backend
       \<lparr>m_params = ps, m_buffers = [], m_grad = None, m_training = tr, m_batch_norm = True\<rparr>
       \<lparr>opt_lr = LR, opt_state = []\<rparr>
       (train_loader (toy_randomness 5) (replicate 4 blank_item) e) w
     = Inr (\<lparr>m_params = map2 (\<lambda>p x. p - LR * x) ps (map (\<lambda>p. 1) ps),
              m_buffers = [],
              m_grad = Some (map (\<lambda>p. 1) ps),
              m_training = True, m_batch_norm = True\<rparr>,
            \<lparr>opt_lr = LR, opt_state = []\<rparr>,
            w @ [AddScalar ''train_loss'' NaN None, Flush],
            NaN)"
proof -
  have l: "length (dl_dataset (train_loader (toy_randomness 5) (replicate 4 blank_item) e)) = 4"
    by (simp add: train_loader_def)
  have b: "batches (train_loader (toy_randomness 5) (replicate 4 blank_item) e)
      = [Inr (blank_batch 4)]"
    using blank_collate[of 4] by (simp add: toy_loader_batches)
  show ?thesis
    by (simp add: train_step_def b train_batch_def blank_before_backward
        toy_from_backward l Let_def fl_arith)
qed

lemma blank_epoch_valid:
  "valid_step toy_backend m (valid_loader [blank_item]) = Inr (m\<lparr>m_training := False\<rparr>, NaN)"
proof -
  have l: "length (dl_dataset (valid_loader [blank_item])) = 1"
    by (simp add: valid_loader_def)
  have b: "batches (valid_loader [blank_item]) = [Inr (blank_batch 1)]"
    using blank_collate[of 1] by (simp add: toy_loader_batches)
  show ?thesis
    by (simp add: valid_step_def b valid_batch_forward_loss blank_forward_loss l fl_arith)
qed

lemma blank_fit:
  "fit toy_backend (toy_randomness 5) (replicate 5 blank_item) 1
     = Inr \<lparr>fs_model = \<lparr>m_params = [- (1 / 100000)], m_buffers = [], m_grad = Some [1],
                         m_training = False, m_batch_norm = True\<rparr>,
            fs_optimizer = \<lparr>opt_lr = LR, opt_state = []\<rparr>,
            fs_trace =
              [AddScalar ''train_loss'' NaN None, Flush,
               Print (epoch_line 0 NaN NaN),
               Save (checkpoint_name 0) ([- (1 / 100000)], [])]\<rparr>"
proof -
  have u: "[0..<1] = [0 :: nat]" by simp
  have i: "init_state (toy_randomness 5)
      = \<lparr>fs_model = \<lparr>m_params = [0], m_buffers = [], m_grad = None, m_training = True,
                      m_batch_norm = True\<rparr>,
         fs_optimizer = \<lparr>opt_lr = LR, opt_state = []\<rparr>, fs_trace = []\<rparr>"
    by (simp add: init_state_def toy_randomness_def)
  show ?thesis
    by (simp add: fit_def toy_split u i fit_epoch_def blank_epoch_train blank_epoch_valid
        state_dict_def del: One_nat_def)
       (simp add: LR_def)
qed

lemma blank_fit_final:
  "fit toy_backend (toy_randomness 5) (replicate 5 blank_item) 1 = Inr blank_final"
proof -
  have l: "epoch_line 0 NaN NaN = ''0'' @ [CHR 0x09] @ ''nan'' @ [CHR 0x09] @ ''nan''"
    by (simp add: epoch_line_def fmt4f_nan str_nat_0_1)
  show ?thesis
    by (simp only: blank_fit l toy_strings blank_final_def)
qed

section \<open>The projective transform: the round trip\<close>

lemma mat_vec_mul: "mat_vec (mat_mul A B) v = mat_vec A (mat_vec B v)"
  by (cases A; cases B; cases v) (auto simp: mat_vec_def mat_mul_def algebra_simps)

lemma mat_vec_smul: "mat_vec M (smul c v) = smul c (mat_vec M v)"
  by (cases M; cases v) (auto simp: mat_vec_def smul_def algebra_simps)

lemma mat_vec_scale: "mat_vec (mat_scale k M) v = smul k (mat_vec M v)"
  by (cases M; cases v) (auto simp: mat_vec_def mat_scale_def smul_def algebra_simps)

lemma mat_mul_scale: "mat_mul A (mat_scale k B) = mat_scale k (mat_mul A B)"
  by (cases A; cases B) (auto simp: mat_mul_def mat_scale_def smul_def algebra_simps)

lemma adj3_left: "mat_vec (adj3 M) (mat_vec M v) = smul (det3 M) v"
  by (cases M; cases v) (auto simp: mat_vec_def adj3_def det3_def smul_def algebra_simps)

lemma adj3_right: "mat_mul M (adj3 M) = mat_scale (det3 M) mat_id"
  by (cases M) (auto simp: mat_mul_def adj3_def det3_def mat_scale_def smul_def mat_id_def
      algebra_simps)

lemma smul_smul: "smul a (smul b v) = smul (a * b) v"
  by (cases v) (simp add: smul_def)

lemma smul_one: "smul 1 v = v"
  by (cases v) (simp add: smul_def)

lemma mat_inv_left:
  assumes "det3 M \<noteq> 0"
  shows "mat_vec (mat_inv M) (mat_vec M v) = v"
  using assms by (simp add: mat_inv_def mat_vec_scale adj3_left smul_smul smul_one)

lemma mat_mul_inv:
  assumes "det3 M \<noteq> 0"
  shows "mat_mul M (mat_inv M) = mat_id"
proof -
  have "mat_scale (1 / det3 M) (mat_scale (det3 M) mat_id) = mat_id"
    using assms by (simp add: mat_scale_def mat_id_def smul_def)
  then show ?thesis
    by (simp add: mat_inv_def mat_mul_scale adj3_right)
qed

lemma det3_columns:
  "det3 ((l1 * a, l2 * b, l3 * c), (l1 * d, l2 * e, l3 * f), (l1 * g, l2 * h, l3 * i))
     = l1 * l2 * l3 * det3 ((a, b, c), (d, e, f), (g, h, i))"
  by (simp add: det3_def algebra_simps)

lemma det3_points:
  "det3 ((fst p1, fst p2, fst p3), (snd p1, snd p2, snd p3), (1, 1, 1)) = tri p1 p2 p3"
  by (simp add: det3_def tri_def algebra_simps)

lemma det_frame:
  "det3 (frame p1 p2 p3 p4) = tri p4 p2 p3 * tri p1 p4 p3 * tri p1 p2 p4 * tri p1 p2 p3"
proof -
  have "frame p1 p2 p3 p4
      = ((tri p4 p2 p3 * fst p1, tri p1 p4 p3 * fst p2, tri p1 p2 p4 * fst p3),
         (tri p4 p2 p3 * snd p1, tri p1 p4 p3 * snd p2, tri p1 p2 p4 * snd p3),
         (tri p4 p2 p3 * 1, tri p1 p4 p3 * 1, tri p1 p2 p4 * 1))"
    by (simp add: frame_def Let_def)
  then show ?thesis
    by (simp only: det3_columns det3_points)
qed

lemma frame_basis:
  "mat_vec (frame p1 p2 p3 p4) (1, 0, 0) = smul (tri p4 p2 p3) (hom p1)"
  "mat_vec (frame p1 p2 p3 p4) (0, 1, 0) = smul (tri p1 p4 p3) (hom p2)"
  "mat_vec (frame p1 p2 p3 p4) (0, 0, 1) = smul (tri p1 p2 p4) (hom p3)"
  by (simp_all add: mat_vec_def frame_def Let_def smul_def hom_def)

lemma frame_unit:
  "mat_vec (frame p1 p2 p3 p4) (1, 1, 1) = smul (tri p1 p2 p3) (hom p4)"
  by (simp add: mat_vec_def frame_def Let_def smul_def hom_def tri_def algebra_simps)

lemma frame_maps:
  assumes A: "mat_vec A v = smul a (hom s)" "a \<noteq> 0" "det3 A \<noteq> 0"
    and B: "mat_vec B v = smul b (hom d)" "b \<noteq> 0"
  shows "apply_homography (mat_mul B (mat_inv A)) s = Some d"
proof -
  have "smul (1 / a) (mat_vec A v) = hom s"
    using A(1,2) by (cases "hom s") (simp add: smul_def)
  then have "mat_vec (mat_inv A) (hom s) = smul (1 / a) v"
    using mat_inv_left[OF A(3), of v] by (metis mat_vec_smul)
  then have "mat_vec (mat_mul B (mat_inv A)) (hom s) = smul (1 / a) (smul b (hom d))"
    by (simp add: mat_vec_mul mat_vec_smul B(1))
  then show ?thesis
    using A(2) B(2) by (cases d) (simp add: apply_homography_def smul_def hom_def)
qed

lemma solve_homography_round_trip:
  assumes "general_position [s1, s2, s3, s4]" "general_position [d1, d2, d3, d4]"
  shows "\<exists>H. solve_homography [s1, s2, s3, s4] [d1, d2, d3, d4] = Some H
           \<and> apply_homography H s1 = Some d1 \<and> apply_homography H s2 = Some d2
           \<and> apply_homography H s3 = Some d3 \<and> apply_homography H s4 = Some d4"
proof -
  from assms have s: "tri s1 s2 s3 \<noteq> 0" "tri s4 s2 s3 \<noteq> 0" "tri s1 s4 s3 \<noteq> 0" "tri s1 s2 s4 \<noteq> 0"
    and d: "tri d1 d2 d3 \<noteq> 0" "tri d4 d2 d3 \<noteq> 0" "tri d1 d4 d3 \<noteq> 0" "tri d1 d2 d4 \<noteq> 0"
    by (simp_all add: general_position_def)
  have det: "det3 (frame s1 s2 s3 s4) \<noteq> 0"
    using s by (simp add: det_frame)
  let ?H = "mat_mul (frame d1 d2 d3 d4) (mat_inv (frame s1 s2 s3 s4))"
  have "solve_homography [s1, s2, s3, s4] [d1, d2, d3, d4] = Some ?H"
    using assms by (simp add: solve_homography_def)
  moreover have "apply_homography ?H s1 = Some d1"
    by (rule frame_maps[OF frame_basis(1) s(2) det frame_basis(1) d(2)])
  moreover have "apply_homography ?H s2 = Some d2"
    by (rule frame_maps[OF frame_basis(2) s(3) det frame_basis(2) d(3)])
  moreover have "apply_homography ?H s3 = Some d3"
    by (rule frame_maps[OF frame_basis(3) s(4) det frame_basis(3) d(4)])
  moreover have "apply_homography ?H s4 = Some d4"
    by (rule frame_maps[OF frame_unit s(1) det frame_unit d(1)])
  ultimately show ?thesis by blast
qed

lemma solve_homography_same:
  assumes "general_position [s1, s2, s3, s4]"
  shows "solve_homography [s1, s2, s3, s4] [s1, s2, s3, s4] = Some mat_id"
proof -
  from assms have "det3 (frame s1 s2 s3 s4) \<noteq> 0"
    by (simp add: general_position_def det_frame)
  then show ?thesis
    using assms by (simp add: solve_homography_def mat_mul_inv)
qed

lemma apply_homography_Some:
  assumes "apply_homography ((a, b, c), (d, e, f), (g, h, i)) (x, y) = Some (u, v)"
  shows "g * x + h * y + i \<noteq> 0" "d * x + e * y + f = v * (g * x + h * y + i)"
proof -
  from assms show w: "g * x + h * y + i \<noteq> 0"
    by (auto simp: apply_homography_def mat_vec_def hom_def split: if_splits)
  with assms have "(d * x + e * y + f) / (g * x + h * y + i) = v"
    by (simp add: apply_homography_def mat_vec_def hom_def)
  with w show "d * x + e * y + f = v * (g * x + h * y + i)"
    by (simp add: nonzero_divide_eq_eq)
qed

lemma no_transform:
  "\<not> (\<exists>H. apply_homography H (64, 64) = Some (64, 64)
          \<and> apply_homography H (192, 64) = Some (192, 64)
          \<and> apply_homography H (192, 192) = Some (320, 64)
          \<and> apply_homography H (64, 192) = Some (64, 192))"
proof
  assume "\<exists>H. apply_homography H (64, 64) = Some (64, 64)
          \<and> apply_homography H (192, 64) = Some (192, 64)
          \<and> apply_homography H (192, 192) = Some (320, 64)
          \<and> apply_homography H (64, 192) = Some (64, 192)"
  then obtain H where H: "apply_homography H (64, 64) = Some (64, 64)"
    "apply_homography H (192, 64) = Some (192, 64)"
    "apply_homography H (192, 192) = Some (320, 64)"
    "apply_homography H (64, 192) = Some (64, 192)"
    by blast
  obtain a b c d e f g h i where M: "H = ((a, b, c), (d, e, f), (g, h, i))"
    by (metis prod_cases3)
  note 1 = apply_homography_Some[OF H(1)[unfolded M]]
  note 2 = apply_homography_Some[OF H(2)[unfolded M]]
  note 3 = apply_homography_Some[OF H(3)[unfolded M]]
  note 4 = apply_homography_Some[OF H(4)[unfolded M]]
  have "128 * (g * 64 + h * 192 + i)
      = 192 * (g * 64 + h * 192 + i) - 64 * (g * 64 + h * 64 + i)
        + 64 * (g * 192 + h * 64 + i) - 64 * (g * 192 + h * 192 + i)"
    by (simp add: algebra_simps)
  also have "\<dots> = (d * 64 + e * 192 + f) - (d * 64 + e * 64 + f)
        + (d * 192 + e * 64 + f) - (d * 192 + e * 192 + f)"
    by (simp only: 1(2) 2(2) 3(2) 4(2))
  also have "\<dots> = 0" by simp
  finally have "g * 64 + h * 192 + i = 0" by simp
  with 4(1) show False by simp
qed

lemma general_position_four:
  assumes "general_position ps"
  obtains p1 p2 p3 p4 where "ps = [p1, p2, p3, p4]"
  using assms by (auto simp: general_position_def split: list.splits)

lemma mat_of_list_mat_list: "mat_of_list (mat_list M) = M"
  by (cases M) (auto simp: mat_of_list_def mat_list_def)

lemma length_mat_list: "length (mat_list M) = 9"
  by (cases M) (auto simp: mat_list_def)

lemma take_drop_concat:
  assumes "\<forall>x \<in> set xs. length x = n" "b < length xs"
  shows "take n (drop (n * b) (concat xs)) = xs ! b"
  using assms
proof (induction xs arbitrary: b)
  case Nil
  then show ?case by simp
next
  case (Cons x xs)
  show ?case
  proof (cases b)
    case 0
    with Cons.prems show ?thesis by simp
  next
    case (Suc k)
    with Cons.prems have "take n (drop (n * k) (concat xs)) = xs ! k"
      by (intro Cons.IH) auto
    moreover have "length x = n" using Cons.prems by simp
    ultimately show ?thesis by (simp add: Suc)
  qed
qed

lemma solver_returns:
  assumes p: "wf_tensor points" "shape points = [B, 4, 2]"
    and q: "wf_tensor points_hat" "shape points_hat = [B, 4, 2]"
    and g: "list_all (\<lambda>b. general_position (sample points b)
                          \<and> general_position (sample points_hat b)) [0..<B]"
  shows "\<exists>h. spec_get_perspective_transform points points_hat = Inr h
           \<and> wf_tensor h \<and> shape h = [B, 3, 3]
           \<and> list_all (\<lambda>b. solve_homography (sample points b) (sample points_hat b)
                              = Some (matrix h b)) [0..<B]"
proof -
  let ?Hs = "map (\<lambda>b. solve_homography (sample points b) (sample points_hat b)) [0..<B]"
  let ?h = "\<lparr>shape = [B, 3, 3],
             vals = concat (map (\<lambda>r. case r of Some H \<Rightarrow> mat_list H | None \<Rightarrow> []) ?Hs)\<rparr>"
  have some: "\<exists>H. solve_homography (sample points b) (sample points_hat b) = Some H"
    if "b < B" for b
  proof -
    from g that have gs: "general_position (sample points b)"
      and gd: "general_position (sample points_hat b)"
      by (simp_all add: list_all_iff)
    from gs obtain s1 s2 s3 s4 where s: "sample points b = [s1, s2, s3, s4]"
      by (rule general_position_four)
    from gd obtain d1 d2 d3 d4 where d: "sample points_hat b = [d1, d2, d3, d4]"
      by (rule general_position_four)
    from gs gd have "solve_homography (sample points b) (sample points_hat b)
        = Some (mat_mul (frame d1 d2 d3 d4) (mat_inv (frame s1 s2 s3 s4)))"
      unfolding s d by (simp add: solve_homography_def)
    then show ?thesis by (rule exI)
  qed
  then have all: "list_all (\<lambda>r. r \<noteq> None) ?Hs"
    by (auto simp: list_all_iff simp del: split_paired_Ex)
  have l9: "length (case solve_homography (sample points b) (sample points_hat b) of
                     Some H \<Rightarrow> mat_list H | None \<Rightarrow> []) = 9"
    if "b < B" for b
  proof -
    from some[OF that] obtain H
      where "solve_homography (sample points b) (sample points_hat b) = Some H"
      by blast
    then show ?thesis by (simp add: length_mat_list)
  qed
  have r: "spec_get_perspective_transform points points_hat = Inr ?h"
    using p q all by (simp add: spec_get_perspective_transform_def Let_def)
  have len: "\<forall>x \<in> set (map (\<lambda>r. case r of Some H \<Rightarrow> mat_list H | None \<Rightarrow> []) ?Hs).
      length x = 9"
    by (simp add: l9)
  have m: "solve_homography (sample points b) (sample points_hat b) = Some (matrix ?h b)"
    if "b < B" for b
  proof -
    from some[OF that] obtain H
      where H: "solve_homography (sample points b) (sample points_hat b) = Some H"
      by blast
    have "take 9 (drop (9 * b)
            (concat (map (\<lambda>r. case r of Some H \<Rightarrow> mat_list H | None \<Rightarrow> []) ?Hs)))
        = map (\<lambda>r. case r of Some H \<Rightarrow> mat_list H | None \<Rightarrow> []) ?Hs ! b"
      using len that by (intro take_drop_concat) simp_all
    also have "\<dots> = mat_list H"
      using that by (simp add: H)
    finally show ?thesis
      by (simp add: matrix_def H mat_of_list_mat_list)
  qed
  have "length (concat (map (\<lambda>r. case r of Some H \<Rightarrow> mat_list H | None \<Rightarrow> []) ?Hs)) = B * 9"
  proof -
    have "map length (map (\<lambda>r. case r of Some H \<Rightarrow> mat_list H | None \<Rightarrow> []) ?Hs)
        = map (\<lambda>b. 9) [0..<B]"
      by (simp add: l9 cong: map_cong)
    then show ?thesis
      by (simp add: length_concat sum_list_triv del: map_map)
  qed
  then have wf: "wf_tensor ?h" by (simp add: wf_tensor_def)
  from r wf m show ?thesis
    by (intro exI[of _ ?h]) (simp add: list_all_iff)
qed

lemma solver_round_trip:
  assumes "solve_homography src dst = Some H"
  shows "list_all2 (\<lambda>s d. apply_homography H s = Some d) src dst"
proof -
  from assms have gs: "general_position src" and gd: "general_position dst"
    by (auto simp: solve_homography_def split: list.splits if_splits)
  from gs obtain s1 s2 s3 s4 where s: "src = [s1, s2, s3, s4]"
    by (rule general_position_four)
  from gd obtain d1 d2 d3 d4 where d: "dst = [d1, d2, d3, d4]"
    by (rule general_position_four)
  from solve_homography_round_trip[OF gs[unfolded s] gd[unfolded d]] assms
  show ?thesis
    unfolding s d by auto
qed

lemma solver_identity:
  assumes p: "wf_tensor points" "shape points = [B, 4, 2]"
    and g: "list_all (\<lambda>b. general_position (sample points b)) [0..<B]"
  shows "spec_get_perspective_transform points points = Inr (eye3 B)"
proof -
  have same: "solve_homography (sample points b) (sample points b) = Some mat_id"
    if "b < B" for b
  proof -
    from g that have gs: "general_position (sample points b)"
      by (simp add: list_all_iff)
    then obtain s1 s2 s3 s4 where s: "sample points b = [s1, s2, s3, s4]"
      by (rule general_position_four)
    from gs show ?thesis
      unfolding s by (rule solve_homography_same)
  qed
  then have m: "map (\<lambda>b. solve_homography (sample points b) (sample points b)) [0..<B]
      = map (\<lambda>b. Some mat_id) [0..<B]"
    by simp
  have c: "concat (map (\<lambda>r. case r of Some H \<Rightarrow> mat_list H | None \<Rightarrow> [])
                     (map (\<lambda>b. Some mat_id) [0..<B]))
      = concat (replicate B [1, 0, 0, 0, 1, 0, 0, 0, 1])"
    by (simp add: comp_def mat_list_def mat_id_def map_replicate_const)
  have a: "list_all (\<lambda>r. r \<noteq> None) (map (\<lambda>b. Some mat_id) [0..<B])"
    by (simp add: list_all_iff del: not_None_eq)
  show ?thesis
    using p by (simp add: spec_get_perspective_transform_def Let_def m a c eye3_def
        del: map_map not_None_eq)
qed

lemma one_points_sample:
  "sample one_points 0 = [(64, 64), (192, 64), (192, 192), (64, 192)]"
  "sample collinear_points 0 = [(64, 64), (192, 64), (320, 64), (64, 192)]"
  "tadd one_points collinear_delta = Inr collinear_points"
  "general_position (sample one_points 0)"
proof -
  show a: "sample one_points 0 = [(64, 64), (192, 64), (192, 192), (64, 192)]"
    by (simp add: sample_def one_points_def toy_points_def)
  show "sample collinear_points 0 = [(64, 64), (192, 64), (320, 64), (64, 192)]"
    by (simp add: sample_def collinear_points_def)
  have "wf_tensor one_points" "wf_tensor collinear_delta"
    "shape collinear_delta = shape one_points"
    by (simp_all add: wf_tensor_def one_points_def collinear_delta_def toy_points_def)
  then have "tadd one_points collinear_delta
      = Inr \<lparr>shape = shape one_points,
               vals = map2 (+) (vals one_points) (vals collinear_delta)\<rparr>"
    by (simp add: tadd_def tbinop_same)
  then show "tadd one_points collinear_delta = Inr collinear_points"
    by (simp add: one_points_def collinear_delta_def collinear_points_def toy_points_def)
  show "general_position (sample one_points 0)"
    unfolding a by (simp add: general_position_def tri_def)
qed

lemma collinear_fails:
  "spec_get_perspective_transform one_points collinear_points = Inl RuntimeError"
proof -
  have "\<not> general_position (sample collinear_points 0)"
    by (simp add: one_points_sample general_position_def tri_def)
  then have "solve_homography (sample one_points 0) (sample collinear_points 0) = None"
    by (simp add: solve_homography_def one_points_sample)
  then show ?thesis
    by (simp add: spec_get_perspective_transform_def Let_def one_points_def collinear_points_def
        wf_tensor_def toy_points_def)
qed

lemma shift_facts:
  "wf_tensor shift_delta" "shape shift_delta = shape one_points"
  "tadd one_points shift_delta = Inr shift_points"
  "sample shift_points 0 = [(65, 65), (193, 65), (193, 193), (65, 193)]"
  "general_position (sample shift_points 0)"
proof -
  show w: "wf_tensor shift_delta" and e: "shape shift_delta = shape one_points"
    by (simp_all add: wf_tensor_def shift_delta_def one_points_def)
  from one_points_facts(1) w e have "tadd one_points shift_delta
      = Inr \<lparr>shape = shape one_points, vals = map2 (+) (vals one_points) (vals shift_delta)\<rparr>"
    by (simp add: tadd_def tbinop_same)
  then show "tadd one_points shift_delta = Inr shift_points"
    by (simp add: one_points_def shift_delta_def shift_points_def toy_points_def)
  show a: "sample shift_points 0 = [(65, 65), (193, 65), (193, 193), (65, 193)]"
    by (simp add: sample_def shift_points_def)
  show "general_position (sample shift_points 0)"
    unfolding a by (simp add: general_position_def tri_def)
qed

lemma shift_solution:
  "solve_homography [(64, 64), (192, 64), (192, 192), (64, 192)]
       [(65, 65), (193, 65), (193, 193), (65, 193)]
     = Some ((1, 0, 1), (0, 1, 1), (0, 0, 1))"
  by (simp add: solve_homography_def general_position_def tri_def frame_def Let_def mat_inv_def
      det3_def adj3_def mat_scale_def smul_def mat_mul_def)

lemma shift_transform:
  "spec_get_perspective_transform one_points shift_points
     = Inr \<lparr>shape = [1, 3, 3], vals = [1, 0, 1, 0, 1, 1, 0, 0, 1]\<rparr>"
proof -
  have c: "(wf_tensor one_points \<and> wf_tensor shift_points
            \<and> shape shift_points = shape one_points
            \<and> shape one_points = [hd (shape one_points), 4, 2]) = True"
    by (simp add: wf_tensor_def shift_points_def one_points_def toy_points_def)
  have h: "hd (shape one_points) = 1" by (simp add: one_points_def)
  have u: "[0..<1] = [0 :: nat]" by simp
  show ?thesis
    unfolding spec_get_perspective_transform_def Let_def
    by (simp only: c h u list.map one_points_sample(1) shift_facts(4) shift_solution if_True)
       (simp add: mat_list_def wf_tensor_def shift_points_def one_points_def toy_points_def)
qed

section \<open>The claims about the photometric loss and the transform\<close>

text \<open>
  Claim C2, as stated: for every displacement, image pair and corner points the loss is
  computed as \<open>photometric_loss_spec\<close> words it, the warp going to the resolution of the
  second image. The code warps to the constant size \<open>(256, 256)\<close> whatever the second
  image is: for a pair of \<open>2 \<times> 2\<close> images the warped image is \<open>256 \<times> 256\<close>, the subtraction
  has no common shape and the loss raises, while the loss as specified is 0.
\<close>

theorem C2_counterexample:
  "photometric_loss toy_kornia zero_delta small_img small_img one_points
     \<noteq> photometric_loss_spec toy_kornia zero_delta small_img small_img one_points"
  by (simp add: small_loss_fails small_loss_spec)

text \<open>
  Claim C2, amended: for a displacement of the shape of the points and an image pair whose
  second image is a batch of \<open>256 \<times> 256\<close> images with the first image's batch size and
  channels, the loss is computed as specified: the destination points are the element-wise
  sum, the transform is solved from the points and the destination points, the first image
  is warped to \<open>(256, 256)\<close>, which is then the resolution of the second image, and the result
  is the mean absolute pixel-wise difference.
\<close>

theorem C2_photometric_loss_steps:
  assumes "warp_shapes K"
    and "wf_tensor points" "wf_tensor delta" "shape delta = shape points"
    and "shape img_a = [B, C, H, W]"
    and "wf_tensor img_b" "shape img_b = [B, C, 256, 256]"
  shows "photometric_loss K delta img_a img_b points
       = photometric_loss_spec K delta img_a img_b points"
  using assms by (rule photometric_loss_refines_spec)

theorem C2_witness:
  "warp_shapes toy_kornia \<and> wf_tensor one_points \<and> wf_tensor zero_delta
   \<and> shape zero_delta = shape one_points
   \<and> shape (full [1, 1, 256, 256] 1) = [1, 1, 256, 256]
   \<and> wf_tensor (full [1, 1, 256, 256] 0) \<and> shape (full [1, 1, 256, 256] 0) = [1, 1, 256, 256]
   \<and> photometric_loss toy_kornia zero_delta (full [1, 1, 256, 256] 1) (full [1, 1, 256, 256] 0)
        one_points
     = photometric_loss_spec toy_kornia zero_delta (full [1, 1, 256, 256] 1)
        (full [1, 1, 256, 256] 0) one_points"
proof -
  have p: "wf_tensor one_points" "wf_tensor zero_delta" "shape zero_delta = shape one_points"
    by (simp_all add: wf_tensor_def one_points_def zero_delta_def toy_points_def)
  have a: "shape (full [1, 1, 256, 256] 1) = [1, 1, 256, 256]"
    and b: "shape (full [1, 1, 256, 256] 0) = [1, 1, 256, 256]"
    by (simp_all only: shape_full)
  from C2_photometric_loss_steps [OF toy_warp_shapes p a wf_full b]
  show ?thesis using toy_warp_shapes p a b wf_full by blast
qed

text \<open>
  Claim C3, as stated: for every input the loss is a non-negative scalar, and it is zero for
  equal images and a zero displacement. Three runs say otherwise, each on a pair of equal
  images with a zero displacement. On \<open>2 \<times> 2\<close> images the code raises the shape error of
  the subtraction. On \<open>256 \<times> 256\<close> images without channels the mean is taken over no
  element and the loss is \<^verbatim>\<open>nan\<close>. And with a library whose warp does not give the
  source image back the loss on \<open>256 \<times> 256\<close> images is 1: nothing in the program makes
  the warp under the identity transform exact.
\<close>

theorem C3_counterexample:
  "photometric_loss toy_kornia zero_delta small_img small_img one_points = Inl RuntimeError
   \<and> photometric_loss toy_kornia zero_delta (full [1, 0, 256, 256] 0) (full [1, 0, 256, 256] 0)
        one_points = Inr NaN
   \<and> photometric_loss dark_kornia zero_delta (full [1, 1, 256, 256] 1) (full [1, 1, 256, 256] 1)
        one_points = Inr (Fin 1)"
  by (simp only: small_loss_fails no_channel_loss dark_loss simp_thms)

text \<open>
  Claim C3, amended: whatever the loss returns is \<^verbatim>\<open>nan\<close> or a non-negative number. When
  the two library calls succeed and the second image is a batch of \<open>B\<close> images of
  \<open>C\<close> channels and \<open>256 \<times> 256\<close> pixels, as the first image has, the loss returns; it is
  \<^verbatim>\<open>nan\<close> exactly when the batch has no element (\<open>B = 0\<close> or \<open>C = 0\<close>), otherwise it is a
  non-negative number, which is zero exactly when the warped image is the second image. In
  particular, for two equal non-empty images of that size and a zero displacement, the loss
  is zero exactly when the warp under the transform of the points onto themselves gives the
  image back.
\<close>

theorem C3_photometric_loss_nonneg_zero:
  "(photometric_loss K delta img_a img_b points = Inr l
      \<longrightarrow> l = NaN \<or> (\<exists>r. l = Fin r \<and> 0 \<le> r))
   \<and> (warp_shapes K \<and> wf_tensor points \<and> wf_tensor delta \<and> shape delta = shape points
      \<and> get_perspective_transform K points
            \<lparr>shape = shape points, vals = map2 (+) (vals points) (vals delta)\<rparr> = Inr h
      \<and> warp_perspective K img_a h (256, 256) = Inr img_b_hat
      \<and> shape img_a = [B, C, H, W]
      \<and> wf_tensor img_b \<and> shape img_b = [B, C, 256, 256]
      \<longrightarrow> (photometric_loss K delta img_a img_b points = Inr NaN \<longleftrightarrow> B = 0 \<or> C = 0)
          \<and> (0 < B \<and> 0 < C
               \<longrightarrow> (\<exists>r. photometric_loss K delta img_a img_b points = Inr (Fin r) \<and> 0 \<le> r)
                   \<and> (photometric_loss K delta img_a img_b points = Inr (Fin 0)
                        \<longleftrightarrow> img_b_hat = img_b)))
   \<and> (warp_shapes K \<and> wf_tensor points \<and> wf_tensor delta \<and> shape delta = shape points
      \<and> list_all (\<lambda>x. x = 0) (vals delta)
      \<and> wf_tensor img \<and> shape img = [B', C', 256, 256] \<and> 0 < B' \<and> 0 < C'
      \<and> get_perspective_transform K points points = Inr h'
      \<and> warp_perspective K img h' (256, 256) = Inr img'
      \<longrightarrow> (photometric_loss K delta img img points = Inr (Fin 0) \<longleftrightarrow> img' = img))"
proof (intro conjI impI)
  assume "photometric_loss K delta img_a img_b points = Inr l"
  then show "l = NaN \<or> (\<exists>r. l = Fin r \<and> 0 \<le> r)"
    by (cases l) (auto dest: photometric_loss_nonneg)
next
  assume a: "warp_shapes K \<and> wf_tensor points \<and> wf_tensor delta \<and> shape delta = shape points
      \<and> get_perspective_transform K points
            \<lparr>shape = shape points, vals = map2 (+) (vals points) (vals delta)\<rparr> = Inr h
      \<and> warp_perspective K img_a h (256, 256) = Inr img_b_hat
      \<and> shape img_a = [B, C, H, W]
      \<and> wf_tensor img_b \<and> shape img_b = [B, C, 256, 256]"
  then show "photometric_loss K delta img_a img_b points = Inr NaN \<longleftrightarrow> B = 0 \<or> C = 0"
    by (elim conjE)
       (rule photometric_loss_nan [where h = h and img_b_hat = img_b_hat and H = H and W = W];
        assumption)
  assume p: "0 < B \<and> 0 < C"
  from a p show "\<exists>r. photometric_loss K delta img_a img_b points = Inr (Fin r) \<and> 0 \<le> r"
    by (elim conjE)
       (rule photometric_loss_returns [where h = h and img_b_hat = img_b_hat and H = H and W = W];
        assumption)
  from a p show "photometric_loss K delta img_a img_b points = Inr (Fin 0) \<longleftrightarrow> img_b_hat = img_b"
    by (elim conjE)
       (rule photometric_loss_zero_iff [where h = h and H = H and W = W]; assumption)
next
  assume a: "warp_shapes K \<and> wf_tensor points \<and> wf_tensor delta \<and> shape delta = shape points
      \<and> list_all (\<lambda>x. x = 0) (vals delta)
      \<and> wf_tensor img \<and> shape img = [B', C', 256, 256] \<and> 0 < B' \<and> 0 < C'
      \<and> get_perspective_transform K points points = Inr h'
      \<and> warp_perspective K img h' (256, 256) = Inr img'"
  then have "length (vals delta) = length (vals points)" "\<forall>y \<in> set (vals delta). y = 0"
    by (simp_all add: wf_tensor_def list_all_iff)
  then have "map2 (+) (vals points) (vals delta) = vals points"
    by (rule map2_add_zero)
  then have "\<lparr>shape = shape points, vals = map2 (+) (vals points) (vals delta)\<rparr> = points"
    by simp
  with a have "get_perspective_transform K points
            \<lparr>shape = shape points, vals = map2 (+) (vals points) (vals delta)\<rparr> = Inr h'"
    by simp
  with a show "photometric_loss K delta img img points = Inr (Fin 0) \<longleftrightarrow> img' = img"
    by (elim conjE)
       (rule photometric_loss_zero_iff [where h = h' and H = 256 and W = 256]; assumption)
qed

theorem C3_witness:
  "warp_shapes toy_kornia \<and> wf_tensor one_points \<and> wf_tensor zero_delta
   \<and> shape zero_delta = shape one_points \<and> list_all (\<lambda>x. x = 0) (vals zero_delta)
   \<and> get_perspective_transform toy_kornia one_points
        \<lparr>shape = shape one_points, vals = map2 (+) (vals one_points) (vals zero_delta)\<rparr>
       = Inr (eye3 1)
   \<and> get_perspective_transform toy_kornia one_points one_points = Inr (eye3 1)
   \<and> warp_perspective toy_kornia (full [1, 1, 256, 256] 1) (eye3 1) (256, 256)
       = Inr (full [1, 1, 256, 256] 1)
   \<and> shape (full [1, 1, 256, 256] 1) = [1, 1, 256, 256]
   \<and> wf_tensor (full [1, 1, 256, 256] 1)
   \<and> (0::nat) < 1
   \<and> photometric_loss toy_kornia zero_delta (full [1, 1, 256, 256] 1) (full [1, 1, 256, 256] 1)
        one_points = Inr (Fin 0)
   \<and> photometric_loss toy_kornia zero_delta (full [1, 1, 256, 256] 1) (full [1, 1, 256, 256] 1)
        one_points \<noteq> Inr NaN
   \<and> (0::real) \<le> 0"
proof -
  note p = one_points_facts(1-4)
  have h1: "get_perspective_transform toy_kornia one_points
        \<lparr>shape = shape one_points, vals = map2 (+) (vals one_points) (vals zero_delta)\<rparr>
       = Inr (eye3 1)"
    by (simp add: toy_kornia_def one_points_def zero_delta_def toy_points_def)
  note h2 = one_points_facts(6)
  have s: "shape (full [1, 1, 256, 256] 1) = [1, 1, 256, 256]" by (simp only: shape_full)
  have w: "warp_perspective toy_kornia (full [1, 1, 256, 256] 1) (eye3 1) (256, 256)
       = Inr (full [1, 1, 256, 256] 1)"
    by (simp add: toy_kornia_def shape_full wf_full)
  have pos: "(0::nat) < 1" by simp
  note t = C3_photometric_loss_nonneg_zero [of toy_kornia zero_delta "full [1, 1, 256, 256] 1"
      "full [1, 1, 256, 256] 1" one_points "Fin 0" "eye3 1" "full [1, 1, 256, 256] 1" 1 1 256 256
      "full [1, 1, 256, 256] 1" 1 1 "eye3 1" "full [1, 1, 256, 256] 1"]
  from t have z: "photometric_loss toy_kornia zero_delta (full [1, 1, 256, 256] 1)
      (full [1, 1, 256, 256] 1) one_points = Inr (Fin 0)"
    using toy_warp_shapes p wf_full s h2 w pos by blast
  then have n: "photometric_loss toy_kornia zero_delta (full [1, 1, 256, 256] 1)
      (full [1, 1, 256, 256] 1) one_points \<noteq> Inr NaN"
    by simp
  have "(0::real) \<le> 0" by simp
  then show ?thesis using z n toy_warp_shapes p h1 h2 w s wf_full pos by blast
qed

text \<open>
  Claim C4, as stated: for four source points in general position and every displacement
  the transform computed from the points and the displaced points maps each source point
  onto its destination. The displacement may move the destination points out of general
  position: the corners of a square with the third corner moved onto the line through the
  first two are three collinear points and a fourth off their line. The solver fails on
  them, and no matrix at all maps the four corners of the square onto these four points.
\<close>

theorem C4_counterexample:
  "general_position (sample one_points 0)
   \<and> tadd one_points collinear_delta = Inr collinear_points
   \<and> spec_get_perspective_transform one_points collinear_points = Inl RuntimeError
   \<and> \<not> (\<exists>H. list_all2 (\<lambda>s d. apply_homography H s = Some d)
               (sample one_points 0) (sample collinear_points 0))"
proof -
  have "\<not> (\<exists>H. list_all2 (\<lambda>s d. apply_homography H s = Some d)
               (sample one_points 0) (sample collinear_points 0))"
    using no_transform by (simp add: one_points_sample)
  with one_points_sample(3,4) collinear_fails show ?thesis
    by (intro conjI)
qed

text \<open>
  Claim C4, amended: for a batch of source points and a displacement of the same shape such
  that, in every sample, no three of the four source points and no three of the four
  destination points (the sums) are collinear, the solver returns a batch of transforms,
  the transform of each sample maps each of its source points exactly onto its destination
  point, and for a zero displacement it is the batch of identity matrices. This is the
  transform the photometric loss hands to the warp when the library's solver is the one
  the specification words.
\<close>

theorem C4_round_trip:
  assumes "wf_tensor points" "shape points = [B, 4, 2]"
    and "wf_tensor delta" "shape delta = shape points"
    and "tadd points delta = Inr points_hat"
    and "list_all (\<lambda>b. general_position (sample points b)
                        \<and> general_position (sample points_hat b)) [0..<B]"
  shows "\<exists>h. spec_get_perspective_transform points points_hat = Inr h
           \<and> wf_tensor h \<and> shape h = [B, 3, 3]
           \<and> list_all (\<lambda>b. list_all2 (\<lambda>s d. apply_homography (matrix h b) s = Some d)
                               (sample points b) (sample points_hat b)) [0..<B]
           \<and> (list_all (\<lambda>x. x = 0) (vals delta) \<longrightarrow> h = eye3 B)
           \<and> (get_perspective_transform K = spec_get_perspective_transform \<longrightarrow>
                photometric_loss K delta img_a img_b points
                  = (case warp_perspective K img_a h (256, 256) of
                       Inl e \<Rightarrow> Inl e
                     | Inr img_b_hat \<Rightarrow>
                         (case tsub img_b_hat img_b of
                            Inl e \<Rightarrow> Inl e
                          | Inr d \<Rightarrow> Inr (torch_mean (torch_abs d)))))"
proof -
  from assms(1,3,4,5) have hat: "points_hat
      = \<lparr>shape = shape points, vals = map2 (+) (vals points) (vals delta)\<rparr>"
    by (simp add: tadd_def tbinop_same)
  have q: "wf_tensor points_hat" "shape points_hat = [B, 4, 2]"
    using assms(1-4) by (simp_all add: hat wf_tensor_def)
  from solver_returns[OF assms(1,2) q assms(6)] obtain h where
    h: "spec_get_perspective_transform points points_hat = Inr h"
    and wf: "wf_tensor h" and sh: "shape h = [B, 3, 3]"
    and m: "list_all (\<lambda>b. solve_homography (sample points b) (sample points_hat b)
                              = Some (matrix h b)) [0..<B]"
    by blast
  from m have rt: "list_all (\<lambda>b. list_all2 (\<lambda>s d. apply_homography (matrix h b) s = Some d)
                               (sample points b) (sample points_hat b)) [0..<B]"
    by (auto simp: list_all_iff dest: solver_round_trip)
  have idt: "h = eye3 B" if z: "list_all (\<lambda>x. x = 0) (vals delta)"
  proof -
    from z have "\<forall>x \<in> set (vals delta). x = 0" by (simp add: list_all_iff)
    with assms(1,3,4) have "tadd points delta = Inr points" by (rule tadd_zero)
    with assms(5) have e: "points_hat = points" by simp
    from assms(6) have "list_all (\<lambda>b. general_position (sample points b)) [0..<B]"
      by (simp add: list_all_iff)
    from solver_identity[OF assms(1,2) this] h show ?thesis
      by (simp add: e)
  qed
  have loss: "photometric_loss K delta img_a img_b points
                  = (case warp_perspective K img_a h (256, 256) of
                       Inl e \<Rightarrow> Inl e
                     | Inr img_b_hat \<Rightarrow>
                         (case tsub img_b_hat img_b of
                            Inl e \<Rightarrow> Inl e
                          | Inr d \<Rightarrow> Inr (torch_mean (torch_abs d))))"
    if "get_perspective_transform K = spec_get_perspective_transform"
    by (simp add: photometric_loss_def assms(5) that h)
  from h wf sh rt idt loss show ?thesis
    by blast
qed

theorem C4_witness:
  "wf_tensor one_points \<and> shape one_points = [1, 4, 2]
   \<and> wf_tensor zero_delta \<and> shape zero_delta = shape one_points
   \<and> tadd one_points zero_delta = Inr one_points
   \<and> list_all (\<lambda>b. general_position (sample one_points b)
                      \<and> general_position (sample one_points b)) [0..<1]
   \<and> list_all (\<lambda>x. x = 0) (vals zero_delta)
   \<and> get_perspective_transform spec_kornia = spec_get_perspective_transform
   \<and> spec_get_perspective_transform one_points one_points = Inr (eye3 1)
   \<and> list_all (\<lambda>b. list_all2 (\<lambda>s d. apply_homography (matrix (eye3 1) b) s = Some d)
                       (sample one_points b) (sample one_points b)) [0..<1]
   \<and> photometric_loss spec_kornia zero_delta (full [1, 1, 256, 256] 1) (full [1, 1, 256, 256] 1)
        one_points = Inr (Fin 0)
   \<and> wf_tensor shift_delta \<and> shape shift_delta = shape one_points
   \<and> tadd one_points shift_delta = Inr shift_points
   \<and> list_all (\<lambda>b. general_position (sample one_points b)
                      \<and> general_position (sample shift_points b)) [0..<1]
   \<and> spec_get_perspective_transform one_points shift_points
       = Inr \<lparr>shape = [1, 3, 3], vals = [1, 0, 1, 0, 1, 1, 0, 0, 1]\<rparr>
   \<and> list_all (\<lambda>b. list_all2
                      (\<lambda>s d. apply_homography
                                (matrix \<lparr>shape = [1, 3, 3], vals = [1, 0, 1, 0, 1, 1, 0, 0, 1]\<rparr> b) s
                              = Some d)
                      (sample one_points b) (sample shift_points b)) [0..<1]"
proof -
  have s: "shape one_points = [1, 4, 2]" by (simp add: one_points_def)
  have g: "list_all (\<lambda>b. general_position (sample one_points b)
                      \<and> general_position (sample one_points b)) [0..<1]"
    by (simp add: one_points_sample(4))
  have k: "get_perspective_transform spec_kornia = spec_get_perspective_transform"
    by (simp add: spec_kornia_def)
  note t = C4_round_trip [OF one_points_facts(1) s one_points_facts(2,3,5) g,
      of spec_kornia "full [1, 1, 256, 256] 1" "full [1, 1, 256, 256] 1"]
  from t one_points_facts(4) k have
    h: "spec_get_perspective_transform one_points one_points = Inr (eye3 1)"
    and r: "list_all (\<lambda>b. list_all2 (\<lambda>s d. apply_homography (matrix (eye3 1) b) s = Some d)
                       (sample one_points b) (sample one_points b)) [0..<1]"
    and l: "photometric_loss spec_kornia zero_delta (full [1, 1, 256, 256] 1)
        (full [1, 1, 256, 256] 1) one_points
        = (case warp_perspective spec_kornia (full [1, 1, 256, 256] 1) (eye3 1) (256, 256) of
             Inl e \<Rightarrow> Inl e
           | Inr img_b_hat \<Rightarrow>
               (case tsub img_b_hat (full [1, 1, 256, 256] 1) of
                  Inl e \<Rightarrow> Inl e
                | Inr d \<Rightarrow> Inr (torch_mean (torch_abs d))))"
    by auto
  have w: "warp_perspective spec_kornia (full [1, 1, 256, 256] 1) (eye3 1) (256, 256)
       = Inr (full [1, 1, 256, 256] 1)"
    by (simp add: spec_kornia_def toy_kornia_def shape_full wf_full)
  have m: "torch_mean (torch_abs (full [1, 1, 256, 256] (1 - 1))) = Fin 0"
    by (simp add: torch_abs_full torch_mean_full)
  have z: "photometric_loss spec_kornia zero_delta (full [1, 1, 256, 256] 1)
        (full [1, 1, 256, 256] 1) one_points = Inr (Fin 0)"
    by (simp only: l w tsub_full m sum.case)
  have g': "list_all (\<lambda>b. general_position (sample one_points b)
                      \<and> general_position (sample shift_points b)) [0..<1]"
    by (simp add: one_points_sample(4) shift_facts(5))
  note t' = C4_round_trip [OF one_points_facts(1) s shift_facts(1,2,3) g',
      of spec_kornia "full [1, 1, 256, 256] 1" "full [1, 1, 256, 256] 1"]
  from t' have r': "list_all (\<lambda>b. list_all2
                      (\<lambda>s d. apply_homography
                                (matrix \<lparr>shape = [1, 3, 3], vals = [1, 0, 1, 0, 1, 1, 0, 0, 1]\<rparr> b) s
                              = Some d)
                      (sample one_points b) (sample shift_points b)) [0..<1]"
    by (auto simp only: shift_transform sum.inject)
  from one_points_facts(1-5) s g k h r z shift_facts(1-3) g' shift_transform r' show ?thesis
    by (intro conjI)
qed

section \<open>The claim about the network\<close>

text \<open>
  Claim C5, as stated: for every pair of patches of equal spatial dimensions the forward
  pass returns a tensor of shape \<open>(n, 4, 2)\<close>. For two one-channel \<open>64 \<times> 64\<close> patches the
  five blocks leave \<open>256 \<times> 2 \<times> 2\<close> features, which the first linear layer, made for
  \<open>256 \<times> 4 \<times> 4\<close>, refuses.
\<close>

theorem C5_counterexample:
  "Net_forward True True [1, 1, 64, 64] [1, 1, 64, 64] = Inl RuntimeError"
  by (simp add: Net_forward_def torch_cat1_def Net_cnn_def Block_def conv2d_def relu_def
      batchnorm2d_def maxpool2d_def Flatten_def view_def Net_fc_def linear_def)

text \<open>
  Claim C5, amended: for a batch of \<open>n > 0\<close> pairs of patches of equal spatial dimensions
  \<open>H \<times> W\<close> whose channels add up to 2 and for which \<open>\<lfloor>H / 32\<rfloor> * \<lfloor>W / 32\<rfloor> = 16\<close> (such as
  one-channel \<open>128 \<times> 128\<close> patches), the forward pass returns a tensor of shape
  \<open>(n, 4, 2)\<close>, in either mode and with or without normalisation layers.
\<close>

theorem C5_forward_shape:
  assumes "shape a = [n, ca, H, W]" "shape b = [n, cb, H, W]"
    and "ca + cb = 2" "0 < n" "(H div 32) * (W div 32) = 16"
  shows "Net_forward training batch_norm (shape a) (shape b) = Inr [n, 4, 2]
       \<and> (\<exists>delta m'. Net_call T m a b = Inr (delta, m') \<and> shape delta = [n, 4, 2])"
proof -
  have f: "Net_forward tr bn (shape a) (shape b) = Inr [n, 4, 2]" for tr bn
    using assms by (simp add: Net_forward_shape)
  show ?thesis
    by (simp add: f Net_call_def split: prod.split)
qed

theorem C5_witness:
  "shape (full [1, 1, 128, 128] 0) = [1, 1, 128, 128] \<and> (1::nat) + 1 = 2 \<and> (0::nat) < 1
   \<and> ((128::nat) div 32) * (128 div 32) = 16
   \<and> Net_forward True True (shape (full [1, 1, 128, 128] 0)) (shape (full [1, 1, 128, 128] 0))
       = Inr [1, 4, 2]
   \<and> (\<exists>delta m'. Net_call toy_backend toy_model (full [1, 1, 128, 128] 0) (full [1, 1, 128, 128] 0)
         = Inr (delta, m') \<and> shape delta = [1, 4, 2])"
proof -
  have s: "shape (full [1, 1, 128, 128] 0) = [1, 1, 128, 128]" by (simp only: shape_full)
  have c: "(1::nat) + 1 = 2" "(0::nat) < 1" "((128::nat) div 32) * (128 div 32) = 16" by simp_all
  from C5_forward_shape [OF s s c, of True True toy_backend toy_model]
  show ?thesis using s c by blast
qed

section \<open>The claims about the training and validation steps\<close>

text \<open>
  Claim C1: in every training step the gradient buffers are zero when \<^verbatim>\<open>loss.backward()\<close>
  is called for a batch. \<open>train_step\<close> never clears the buffer (there is no call of
  \<^verbatim>\<open>optimizer.zero_grad()\<close>): in a run over two batches the buffer is empty at the
  first backward pass and holds the gradient of the first batch at the second.
\<close>

theorem C1_gradient_left_at_second_backward:
  "map br_grad (train_step_records toy_backend toy_model toy_optimizer toy_loader [])
     = [None, Some [1]]
   \<and> \<not> list_all grad_is_zero
         (map br_grad (train_step_records toy_backend toy_model toy_optimizer toy_loader []))"
  by (simp add: toy_train_records grad_is_zero_def)

text \<open>
  Claim C6, as stated: the per-batch metrics are keyed by a step counter that increases
  from one emission to the next. \<open>train_step\<close> passes no step to \<^verbatim>\<open>add_scalar\<close>, so
  every scalar is logged with \<^verbatim>\<open>global_step=None\<close>; two batches give two scalars, neither
  of which has a step.
\<close>

theorem C6_counterexample:
  "\<not> steps_increase
       (step_keys (trace_of (train_step toy_backend toy_model toy_optimizer toy_loader [])))"
  by (simp add: toy_train_step trace_of_def)

text \<open>
  Claim C6, amended: a training step appends to the metrics sink, in batch order, one scalar
  per batch, tagged \<^verbatim>\<open>train_loss\<close>, carrying the loss of the batch and no step (each
  followed by a flush); the order of emission is all that orders them.
\<close>

theorem C6_scalars_without_step:
  assumes "train_step T m opt dl w = Inr (m', opt', w', r)"
  shows "w' = w @ concat (map (\<lambda>x. [AddScalar ''train_loss'' (br_loss x) None, Flush])
                        (train_step_records T m opt dl w))
       \<and> length (train_step_records T m opt dl w) = length (batches dl)
       \<and> step_keys w' = step_keys w @ replicate (length (batches dl)) None"
proof -
  note t = train_step_mean[OF assms]
  from t have "step_keys w' = step_keys w @ replicate (length (train_step_records T m opt dl w)) None"
    by (simp add: step_keys_append step_keys_train)
  with t show ?thesis by simp
qed

theorem C6_witness:
  "train_step toy_backend toy_model toy_optimizer toy_loader []
     = Inr (\<lparr>m_params = [- (3 / 100000)], m_buffers = [], m_grad = Some [2], m_training = True,
              m_batch_norm = True\<rparr>,
            toy_optimizer,
            [AddScalar ''train_loss'' (Fin 1) None, Flush,
             AddScalar ''train_loss'' (Fin 3) None, Flush],
            Fin (5 / 3))
   \<and> step_keys [AddScalar ''train_loss'' (Fin 1) None, Flush,
                AddScalar ''train_loss'' (Fin 3) None, Flush]
       = step_keys [] @ replicate (length (batches toy_loader)) None"
  using C6_scalars_without_step [OF toy_train_step] toy_train_step by blast

text \<open>
  Claim C8: in either phase the running total starts at zero, each batch adds its loss times
  the size of the batch, and the step returns the total divided by the length of the
  dataset: the sum of the losses weighted by the batch sizes, divided by that length, when
  every loss is a number, and \<^verbatim>\<open>nan\<close> as soon as one loss is. With a loader that yields
  every index once the sizes add up to that length, so the result is the mean weighted by
  sample, also when the last batch is partial.
\<close>

theorem C8_weighted_mean:
  "(train_step T m opt dl w = Inr (m', opt', w', r) \<longrightarrow>
      r = fdiv_nat (fsum (map (\<lambda>x. fmul_nat (br_loss x) (br_size x))
                            (train_step_records T m opt dl w)))
            (length (dl_dataset dl))
      \<and> r = (if list_all (\<lambda>x. is_fin (br_loss x)) (train_step_records T m opt dl w)
             then Fin ((\<Sum>x \<leftarrow> train_step_records T m opt dl w.
                          fin_val (br_loss x) * real (br_size x))
                       / real (length (dl_dataset dl)))
             else NaN)
      \<and> length (train_step_records T m opt dl w) = length (batches dl)
      \<and> (wf_dataloader dl \<longrightarrow>
           (\<Sum>x \<leftarrow> train_step_records T m opt dl w. br_size x) = length (dl_dataset dl)))
   \<and> (valid_step T m dl = Inr (m'', r') \<longrightarrow>
      r' = fdiv_nat (fsum (map (\<lambda>(l, n). fmul_nat l n) (valid_step_records T m dl)))
             (length (dl_dataset dl))
      \<and> r' = (if list_all (\<lambda>(l, n). is_fin l) (valid_step_records T m dl)
              then Fin ((\<Sum>(l, n) \<leftarrow> valid_step_records T m dl. fin_val l * real n)
                        / real (length (dl_dataset dl)))
              else NaN)
      \<and> length (valid_step_records T m dl) = length (batches dl)
      \<and> (wf_dataloader dl \<longrightarrow>
           (\<Sum>(l, n) \<leftarrow> valid_step_records T m dl. n) = length (dl_dataset dl)))"
proof (intro conjI impI)
  assume t: "train_step T m opt dl w = Inr (m', opt', w', r)"
  from train_step_mean[OF t]
  show c: "r = (if list_all (\<lambda>x. is_fin (br_loss x)) (train_step_records T m opt dl w)
             then Fin ((\<Sum>x \<leftarrow> train_step_records T m opt dl w.
                          fin_val (br_loss x) * real (br_size x))
                       / real (length (dl_dataset dl)))
             else NaN)"
    and "length (train_step_records T m opt dl w) = length (batches dl)"
    by simp_all
  show "r = fdiv_nat (fsum (map (\<lambda>x. fmul_nat (br_loss x) (br_size x))
                            (train_step_records T m opt dl w)))
            (length (dl_dataset dl))"
    by (simp only: c weighted_mean_closed)
  assume "wf_dataloader dl"
  with t show "(\<Sum>x \<leftarrow> train_step_records T m opt dl w. br_size x) = length (dl_dataset dl)"
    by (rule train_step_sizes)
next
  assume v: "valid_step T m dl = Inr (m'', r')"
  from valid_step_mean[OF v]
  show c: "r' = (if list_all (\<lambda>(l, n). is_fin l) (valid_step_records T m dl)
              then Fin ((\<Sum>(l, n) \<leftarrow> valid_step_records T m dl. fin_val l * real n)
                        / real (length (dl_dataset dl)))
              else NaN)"
    and "length (valid_step_records T m dl) = length (batches dl)"
    by simp_all
  show "r' = fdiv_nat (fsum (map (\<lambda>(l, n). fmul_nat l n) (valid_step_records T m dl)))
             (length (dl_dataset dl))"
    by (simp only: c weighted_mean_closed case_prod_unfold)
  assume "wf_dataloader dl"
  with v show "(\<Sum>(l, n) \<leftarrow> valid_step_records T m dl. n) = length (dl_dataset dl)"
    by (rule valid_step_sizes)
qed

theorem C8_witness:
  "train_step toy_backend toy_model toy_optimizer toy_loader []
     = Inr (\<lparr>m_params = [- (3 / 100000)], m_buffers = [], m_grad = Some [2], m_training = True,
              m_batch_norm = True\<rparr>,
            toy_optimizer,
            [AddScalar ''train_loss'' (Fin 1) None, Flush,
             AddScalar ''train_loss'' (Fin 3) None, Flush],
            Fin (5 / 3))
   \<and> valid_step toy_backend toy_model toy_loader = Inr (toy_model\<lparr>m_training := False\<rparr>, Fin (5 / 3))
   \<and> wf_dataloader toy_loader
   \<and> Fin (5 / 3)
       = fdiv_nat (fsum (map (\<lambda>x. fmul_nat (br_loss x) (br_size x))
                           (train_step_records toy_backend toy_model toy_optimizer toy_loader [])))
           (length (dl_dataset toy_loader))
   \<and> Fin (5 / 3)
       = (if list_all (\<lambda>x. is_fin (br_loss x))
               (train_step_records toy_backend toy_model toy_optimizer toy_loader [])
          then Fin ((\<Sum>x \<leftarrow> train_step_records toy_backend toy_model toy_optimizer toy_loader [].
                       fin_val (br_loss x) * real (br_size x))
                    / real (length (dl_dataset toy_loader)))
          else NaN)
   \<and> (\<Sum>x \<leftarrow> train_step_records toy_backend toy_model toy_optimizer toy_loader []. br_size x)
       = length (dl_dataset toy_loader)
   \<and> Fin (5 / 3)
       = fdiv_nat (fsum (map (\<lambda>(l, n). fmul_nat l n)
                           (valid_step_records toy_backend toy_model toy_loader)))
           (length (dl_dataset toy_loader))
   \<and> Fin (5 / 3)
       = (if list_all (\<lambda>(l, n). is_fin l) (valid_step_records toy_backend toy_model toy_loader)
          then Fin ((\<Sum>(l, n) \<leftarrow> valid_step_records toy_backend toy_model toy_loader.
                       fin_val l * real n)
                    / real (length (dl_dataset toy_loader)))
          else NaN)
   \<and> (\<Sum>(l, n) \<leftarrow> valid_step_records toy_backend toy_model toy_loader. n)
       = length (dl_dataset toy_loader)"
  using C8_weighted_mean [of toy_backend toy_model toy_optimizer toy_loader "[]"
      "\<lparr>m_params = [- (3 / 100000)], m_buffers = [], m_grad = Some [2], m_training = True,
              m_batch_norm = True\<rparr>" toy_optimizer
      "[AddScalar ''train_loss'' (Fin 1) None, Flush,
        AddScalar ''train_loss'' (Fin 3) None, Flush]"
      "Fin (5 / 3)" "toy_model\<lparr>m_training := False\<rparr>" "Fin (5 / 3)"]
    toy_train_step toy_valid_step wf_toy_loader
  by blast

text \<open>
  Claim C9: a validation step that returns leaves the parameters as they were, and the
  gradient buffer too; it leaves the model in evaluation mode. Each of its batches computes
  what a training batch computes before its backward pass (the forward pass, the loss and
  the running total), and nothing after it: no backward pass, no optimizer step.
\<close>

theorem C9_valid_step_frame:
  "(valid_step T m dl = Inr (m', r) \<longrightarrow>
      m_params m' = m_params m \<and> m_grad m' = m_grad m \<and> m_training m' = False)
   \<and> valid_batch T (ts_model st, total_loss st) b
       = (case before_backward T st b of
            Inl e \<Rightarrow> Inl e
          | Inr (st', loss) \<Rightarrow> Inr (ts_model st', total_loss st'))"
proof (intro conjI impI)
  assume "valid_step T m dl = Inr (m', r)"
  from valid_step_mean[OF this]
  show "m_params m' = m_params m" "m_grad m' = m_grad m" "m_training m' = False"
    by simp_all
next
  show "valid_batch T (ts_model st, total_loss st) b
       = (case before_backward T st b of
            Inl e \<Rightarrow> Inl e
          | Inr (st', loss) \<Rightarrow> Inr (ts_model st', total_loss st'))"
    by (simp add: valid_batch_forward_loss before_backward_forward_loss
        split: sum.splits prod.splits)
qed

theorem C9_witness:
  "valid_step toy_backend toy_model toy_loader = Inr (toy_model\<lparr>m_training := False\<rparr>, Fin (5 / 3))
   \<and> m_params (toy_model\<lparr>m_training := False\<rparr>) = m_params toy_model
   \<and> m_grad (toy_model\<lparr>m_training := False\<rparr>) = m_grad toy_model
   \<and> m_training (toy_model\<lparr>m_training := False\<rparr>) = False"
  using C9_valid_step_frame [of toy_backend toy_model toy_loader
      "toy_model\<lparr>m_training := False\<rparr>" "Fin (5 / 3)"] toy_valid_step
  by blast

text \<open>
  Claim C10, as stated, says that a dataset of fewer than 5 samples leaves the validation
  partition empty. Of 4 samples the split puts \<open>\<lfloor>0.8 * 4\<rfloor> = 3\<close> into the training partition and
  the remaining one into the validation partition.
\<close>

theorem C10_counterexample:
  "partition_sizes (toy_randomness 4) (replicate 4 (toy_item 1 0)) = Inr (3, 1)"
  by (rule toy_partition_sizes)

text \<open>
  Claim C10, amended: a step handed a loader over an empty partition fails with the
  division by zero of its final mean, so a step that returns a mean had a non-empty
  partition. The split of \<open>fit\<close> puts \<open>\<lfloor>0.8 * n\<rfloor>\<close> of \<open>n\<close> samples into the training
  partition and the rest into the validation partition: the validation partition is empty
  only for an empty dataset, the training partition for a dataset of at most one sample.
\<close>

theorem C10_empty_partition:
  "(wf_dataloader dl \<and> dl_dataset dl = [] \<longrightarrow>
      train_step T m opt dl w = Inl ZeroDivisionError
      \<and> valid_step T m dl = Inl ZeroDivisionError)
   \<and> (train_step T m opt dl' w = Inr r \<longrightarrow> dl_dataset dl' \<noteq> [])
   \<and> (valid_step T m dl' = Inr r' \<longrightarrow> dl_dataset dl' \<noteq> [])
   \<and> (wf_randomness R (length dataset) \<longrightarrow>
        (\<exists>train_set valid_set.
           split_dataset R dataset = Inr (train_set, valid_set)
           \<and> length train_set = train_size (length dataset)
           \<and> length valid_set = length dataset - train_size (length dataset)
           \<and> (valid_set = [] \<longleftrightarrow> dataset = [])
           \<and> (train_set = [] \<longleftrightarrow> length dataset \<le> 1)))"
proof (intro conjI impI)
  assume "wf_dataloader dl \<and> dl_dataset dl = []"
  then show "train_step T m opt dl w = Inl ZeroDivisionError"
    and "valid_step T m dl = Inl ZeroDivisionError"
    by (simp_all add: empty_loader_fails)
next
  assume "train_step T m opt dl' w = Inr r"
  then show "dl_dataset dl' \<noteq> []"
    by (cases r) (auto dest: train_step_mean)
next
  assume "valid_step T m dl' = Inr r'"
  then show "dl_dataset dl' \<noteq> []"
    by (cases r') (auto dest: valid_step_mean)
next
  assume "wf_randomness R (length dataset)"
  from split_dataset_sizes[OF this] obtain train_set valid_set
    where s: "split_dataset R dataset = Inr (train_set, valid_set)"
      "length train_set = train_size (length dataset)"
      "length valid_set = length dataset - train_size (length dataset)"
    by blast
  have "valid_set = [] \<longleftrightarrow> dataset = []"
    using s(3) train_size_rest[of "length dataset"] by (metis length_0_conv)
  moreover have "train_set = [] \<longleftrightarrow> length dataset \<le> 1"
    using s(2) train_size_zero[of "length dataset"] by (metis length_0_conv)
  ultimately show "\<exists>train_set valid_set.
           split_dataset R dataset = Inr (train_set, valid_set)
           \<and> length train_set = train_size (length dataset)
           \<and> length valid_set = length dataset - train_size (length dataset)
           \<and> (valid_set = [] \<longleftrightarrow> dataset = [])
           \<and> (train_set = [] \<longleftrightarrow> length dataset \<le> 1)"
    using s by blast
qed

theorem C10_witness:
  "wf_dataloader \<lparr>dl_dataset = [], dl_batch_size = BATCH_SIZE, dl_order = []\<rparr>
   \<and> dl_dataset \<lparr>dl_dataset = [], dl_batch_size = BATCH_SIZE, dl_order = []\<rparr> = []
   \<and> train_step toy_backend toy_model toy_optimizer
         \<lparr>dl_dataset = [], dl_batch_size = BATCH_SIZE, dl_order = []\<rparr> [] = Inl ZeroDivisionError
   \<and> valid_step toy_backend toy_model
         \<lparr>dl_dataset = [], dl_batch_size = BATCH_SIZE, dl_order = []\<rparr> = Inl ZeroDivisionError
   \<and> train_step toy_backend toy_model toy_optimizer toy_loader []
       = Inr (\<lparr>m_params = [- (3 / 100000)], m_buffers = [], m_grad = Some [2], m_training = True,
                m_batch_norm = True\<rparr>,
              toy_optimizer,
              [AddScalar ''train_loss'' (Fin 1) None, Flush,
               AddScalar ''train_loss'' (Fin 3) None, Flush],
              Fin (5 / 3))
   \<and> valid_step toy_backend toy_model toy_loader = Inr (toy_model\<lparr>m_training := False\<rparr>, Fin (5 / 3))
   \<and> dl_dataset toy_loader \<noteq> []
   \<and> wf_randomness (toy_randomness 4) (length (replicate 4 (toy_item 1 0)))
   \<and> (\<exists>train_set valid_set.
         split_dataset (toy_randomness 4) (replicate 4 (toy_item 1 0)) = Inr (train_set, valid_set)
         \<and> length train_set = train_size (length (replicate 4 (toy_item 1 0)))
         \<and> length valid_set
             = length (replicate 4 (toy_item 1 0)) - train_size (length (replicate 4 (toy_item 1 0)))
         \<and> (valid_set = [] \<longleftrightarrow> replicate 4 (toy_item 1 0) = [])
         \<and> (train_set = [] \<longleftrightarrow> length (replicate 4 (toy_item 1 0)) \<le> 1))"
proof -
  let ?e = "\<lparr>dl_dataset = [], dl_batch_size = BATCH_SIZE, dl_order = []\<rparr>"
  have e: "wf_dataloader ?e" "dl_dataset ?e = []"
    by (simp_all add: wf_dataloader_def BATCH_SIZE_def)
  have r: "wf_randomness (toy_randomness 4) (length (replicate 4 (toy_item 1 0)))"
    by (simp add: wf_randomness_def toy_randomness_def sorted_sort_id)
  note t = C10_empty_partition [of ?e toy_backend toy_model toy_optimizer "[]" toy_loader
      "(\<lparr>m_params = [- (3 / 100000)], m_buffers = [], m_grad = Some [2], m_training = True,
                m_batch_norm = True\<rparr>,
              toy_optimizer,
              [AddScalar ''train_loss'' (Fin 1) None, Flush,
               AddScalar ''train_loss'' (Fin 3) None, Flush],
              Fin (5 / 3))" "(toy_model\<lparr>m_training := False\<rparr>, Fin (5 / 3))"
      "toy_randomness 4" "replicate 4 (toy_item 1 0)"]
  show ?thesis
    using t e r toy_train_step toy_valid_step by blast
qed

section \<open>The claim about the epoch driver\<close>

text \<open>
  Claim C7, as stated: every epoch prints its two mean losses with four decimal places. A
  mean loss that is \<^verbatim>\<open>nan\<close> is printed as \<^verbatim>\<open>nan\<close>, without decimals: one epoch over five
  samples whose images have no channel completes, with full passes over both partitions
  and its checkpoint, and the line it prints is the epoch index, \<^verbatim>\<open>nan\<close> and \<^verbatim>\<open>nan\<close>.
\<close>

theorem C7_counterexample:
  "fit toy_backend (toy_randomness 5) (replicate 5 blank_item) 1 = Inr blank_final
   \<and> wf_epochs (toy_randomness 5) 4 1
   \<and> console_and_files (fs_trace blank_final)
       = [Print (''0'' @ [CHR 0x09] @ ''nan'' @ [CHR 0x09] @ ''nan''),
          Save ''model_0.pt'' ([- (1 / 100000)], [])]"
proof -
  have "console_and_files (fs_trace blank_final)
       = [Print (''0'' @ [CHR 0x09] @ ''nan'' @ [CHR 0x09] @ ''nan''),
          Save ''model_0.pt'' ([- (1 / 100000)], [])]"
    by (simp add: blank_final_def)
  with blank_fit_final toy_wf_epochs[of 1] show ?thesis
    by (intro conjI)
qed

text \<open>
  Claim C7, amended: in a run of \<open>fit\<close> that completes, with a sampler that permutes the
  training partition in each epoch, every epoch index \<open>e\<close> of the range has its outcome: a
  training pass from the state the epochs before left, then a validation pass with the
  model the training pass left. Both passes are full: the batches of the training pass are
  the collated samples at the indices of a permutation of the training partition, cut
  into batches, those of the validation pass the collated samples of the validation
  partition in order, and each pass goes through every one of its batches. What the run
  prints and saves is, epoch after epoch, one line and then one checkpoint of the parameter
  state. The line is the decimal notation of the epoch index, a tab, the mean training
  loss, a tab and the mean validation loss; a loss that is a number is written with its
  sign, the integer part and exactly four decimals of the loss rounded to four decimals (a
  tie going to the even neighbour), a loss that is \<^verbatim>\<open>nan\<close> is written \<^verbatim>\<open>nan\<close>. The
  checkpoint of epoch \<open>e\<close> is named \<^verbatim>\<open>model_e.pt\<close>; the names of the epochs differ, so there
  is exactly one checkpoint per epoch.
\<close>

theorem C7_epoch_driver:
  assumes "fit T R dataset epochs = Inr st"
    and "split_dataset R dataset = Inr (train_set, valid_set)"
    and "wf_epochs R (length train_set) epochs"
  shows "(\<forall>e<epochs.
            (\<exists>train_loss valid_loss sd.
               epoch_outcome T R train_set valid_set e = Inr (train_loss, valid_loss, sd))
          \<and> sort (concat (batch_indices (train_loader R train_set e))) = [0..<length train_set]
          \<and> concat (batch_indices (valid_loader valid_set)) = [0..<length valid_set]
          \<and> batches (train_loader R train_set e)
              = map (\<lambda>idxs. collate (map ((!) train_set) idxs))
                  (batch_indices (train_loader R train_set e))
          \<and> batches (valid_loader valid_set)
              = map (\<lambda>idxs. collate (map ((!) valid_set) idxs))
                  (batch_indices (valid_loader valid_set))
          \<and> epoch_batch_sizes T R train_set valid_set e
              = (map length (batch_indices (train_loader R train_set e)),
                 map length (batch_indices (valid_loader valid_set))))
       \<and> train_set \<noteq> []
       \<and> console_and_files (fs_trace st)
           = concat (map (\<lambda>e. epoch_report e (epoch_outcome T R train_set valid_set e))
                       [0..<epochs])
       \<and> (\<forall>e train_loss valid_loss sd.
            epoch_report e (Inr (train_loss, valid_loss, sd))
              = [Print (str_nat e @ [CHR 0x09] @ fmt4f train_loss @ [CHR 0x09] @ fmt4f valid_loss),
                 Save (''model_'' @ str_nat e @ ''.pt'') sd])
       \<and> (\<forall>n. int_of_str (str_nat n) = n \<and> list_all is_digit (str_nat n))
       \<and> fmt4f NaN = ''nan''
       \<and> (\<forall>x. \<exists>fp. fmt4f (Fin x)
                      = (if x < 0 then ''-'' else [])
                        @ str_nat (round_half_even (\<bar>x\<bar> * 10000) div 10000) @ ''.'' @ fp
                   \<and> length fp = 4 \<and> list_all is_digit fp
                   \<and> int_of_str fp = round_half_even (\<bar>x\<bar> * 10000) mod 10000
                   \<and> \<bar>real (round_half_even (\<bar>x\<bar> * 10000)) - \<bar>x\<bar> * 10000\<bar> \<le> 1 / 2)
       \<and> (\<forall>n. round_half_even (real n + 1 / 2) = (if even n then n else Suc n))
       \<and> saved_files (fs_trace st) = map checkpoint_name [0..<epochs]
       \<and> distinct (map checkpoint_name [0..<epochs])"
proof -
  from assms(1,2) have ne: "train_set \<noteq> []"
    and l: "fit_loop T R train_set valid_set (init_state R) [0..<epochs] = Inr st"
    by (simp_all add: fit_def split: if_splits)
  note tr = fit_loop_trace[OF l]
  have passes: "sort (concat (batch_indices (train_loader R train_set e))) = [0..<length train_set]
          \<and> concat (batch_indices (valid_loader valid_set)) = [0..<length valid_set]
          \<and> batches (train_loader R train_set e)
              = map (\<lambda>idxs. collate (map ((!) train_set) idxs))
                  (batch_indices (train_loader R train_set e))
          \<and> batches (valid_loader valid_set)
              = map (\<lambda>idxs. collate (map ((!) valid_set) idxs))
                  (batch_indices (valid_loader valid_set))
          \<and> epoch_batch_sizes T R train_set valid_set e
              = (map length (batch_indices (train_loader R train_set e)),
                 map length (batch_indices (valid_loader valid_set)))"
    if e: "e < epochs" for e
  proof -
    from assms(3) e have p: "sort (epoch_perm R e) = [0..<length train_set]"
      by (simp add: wf_epochs_def list_all_iff)
    have ct: "concat (batch_indices (train_loader R train_set e)) = epoch_perm R e"
      by (simp add: batch_indices_def train_loader_def BATCH_SIZE_def chunks_concat)
    have cv: "concat (batch_indices (valid_loader valid_set)) = [0..<length valid_set]"
      by (simp add: batch_indices_def valid_loader_def BATCH_SIZE_def chunks_concat)
    have "list_all (\<lambda>i. i < length (dl_dataset (train_loader R train_set e)))
            (dl_order (train_loader R train_set e))"
      using sorted_order_in_range[OF p] by (simp add: train_loader_def)
    from batches_collate[OF this]
    have bt: "batches (train_loader R train_set e)
              = map (\<lambda>idxs. collate (map ((!) train_set) idxs))
                  (batch_indices (train_loader R train_set e))"
      by (simp add: train_loader_def)
    have "list_all (\<lambda>i. i < length (dl_dataset (valid_loader valid_set)))
            (dl_order (valid_loader valid_set))"
      by (simp add: valid_loader_def list_all_iff)
    from batches_collate[OF this]
    have bv: "batches (valid_loader valid_set)
              = map (\<lambda>idxs. collate (map ((!) valid_set) idxs))
                  (batch_indices (valid_loader valid_set))"
      by (simp add: valid_loader_def)
    from ct p cv bt bv epoch_sizes[OF l e] show ?thesis by simp
  qed
  have report: "epoch_report e (Inr (train_loss, valid_loss, sd))
              = [Print (str_nat e @ [CHR 0x09] @ fmt4f train_loss @ [CHR 0x09] @ fmt4f valid_loss),
                 Save (''model_'' @ str_nat e @ ''.pt'') sd]" for e train_loss valid_loss sd
    by (simp add: epoch_report_def epoch_line_def checkpoint_name_def)
  have fin: "\<exists>fp. fmt4f (Fin x)
                      = (if x < 0 then ''-'' else [])
                        @ str_nat (round_half_even (\<bar>x\<bar> * 10000) div 10000) @ ''.'' @ fp
                   \<and> length fp = 4 \<and> list_all is_digit fp
                   \<and> int_of_str fp = round_half_even (\<bar>x\<bar> * 10000) mod 10000
                   \<and> \<bar>real (round_half_even (\<bar>x\<bar> * 10000)) - \<bar>x\<bar> * 10000\<bar> \<le> 1 / 2" for x
  proof -
    have "\<bar>real (round_half_even (\<bar>x\<bar> * 10000)) - \<bar>x\<bar> * 10000\<bar> \<le> 1 / 2"
      by (rule round_half_even_near) simp
    with fmt4f_fin[of x] show ?thesis by blast
  qed
  have ep: "\<forall>e<epochs.
            (\<exists>train_loss valid_loss sd.
               epoch_outcome T R train_set valid_set e = Inr (train_loss, valid_loss, sd))
          \<and> sort (concat (batch_indices (train_loader R train_set e))) = [0..<length train_set]
          \<and> concat (batch_indices (valid_loader valid_set)) = [0..<length valid_set]
          \<and> batches (train_loader R train_set e)
              = map (\<lambda>idxs. collate (map ((!) train_set) idxs))
                  (batch_indices (train_loader R train_set e))
          \<and> batches (valid_loader valid_set)
              = map (\<lambda>idxs. collate (map ((!) valid_set) idxs))
                  (batch_indices (valid_loader valid_set))
          \<and> epoch_batch_sizes T R train_set valid_set e
              = (map length (batch_indices (train_loader R train_set e)),
                 map length (batch_indices (valid_loader valid_set)))"
    using tr passes by blast
  have tr1: "console_and_files (fs_trace st)
           = concat (map (\<lambda>e. epoch_report e (epoch_outcome T R train_set valid_set e))
                       [0..<epochs])"
    and tr2: "saved_files (fs_trace st) = map checkpoint_name [0..<epochs]"
    using tr by simp_all
  have f: "\<forall>x. \<exists>fp. fmt4f (Fin x)
                      = (if x < 0 then ''-'' else [])
                        @ str_nat (round_half_even (\<bar>x\<bar> * 10000) div 10000) @ ''.'' @ fp
                   \<and> length fp = 4 \<and> list_all is_digit fp
                   \<and> int_of_str fp = round_half_even (\<bar>x\<bar> * 10000) mod 10000
                   \<and> \<bar>real (round_half_even (\<bar>x\<bar> * 10000)) - \<bar>x\<bar> * 10000\<bar> \<le> 1 / 2"
    using fin by blast
  have r: "\<forall>e train_loss valid_loss sd.
            epoch_report e (Inr (train_loss, valid_loss, sd))
              = [Print (str_nat e @ [CHR 0x09] @ fmt4f train_loss @ [CHR 0x09] @ fmt4f valid_loss),
                 Save (''model_'' @ str_nat e @ ''.pt'') sd]"
    using report by blast
  have d: "\<forall>n. int_of_str (str_nat n) = n \<and> list_all is_digit (str_nat n)"
    by (simp add: int_of_str_str_nat is_digit_str_nat)
  have t: "\<forall>n. round_half_even (real n + 1 / 2) = (if even n then n else Suc n)"
    by (simp only: round_half_even_tie simp_thms)
  from ep ne tr1 r d fmt4f_nan f t tr2 distinct_checkpoint_names show ?thesis
    by (intro conjI)
qed

theorem C7_witness:
  "fit toy_backend (toy_randomness 5) (replicate 5 (toy_item 1 0)) 2 = Inr toy_final
   \<and> split_dataset (toy_randomness 5) (replicate 5 (toy_item 1 0))
       = Inr (replicate 4 (toy_item 1 0), [toy_item 1 0])
   \<and> wf_epochs (toy_randomness 5) (length (replicate 4 (toy_item 1 0))) 2
   \<and> console_and_files (fs_trace toy_final)
       = concat (map (\<lambda>e. epoch_report e
                    (epoch_outcome toy_backend (toy_randomness 5) (replicate 4 (toy_item 1 0))
                       [toy_item 1 0] e))
                  [0..<2])
   \<and> epoch_batch_sizes toy_backend (toy_randomness 5) (replicate 4 (toy_item 1 0))
        [toy_item 1 0] 0 = ([4], [1])
   \<and> epoch_batch_sizes toy_backend (toy_randomness 5) (replicate 4 (toy_item 1 0))
        [toy_item 1 0] 1 = ([4], [1])
   \<and> sort (concat (batch_indices (train_loader (toy_randomness 5) (replicate 4 (toy_item 1 0)) 1)))
       = [0..<length (replicate 4 (toy_item 1 0))]
   \<and> saved_files (fs_trace toy_final) = map checkpoint_name [0..<2]
   \<and> distinct (map checkpoint_name [0..<2])"
proof -
  have w: "wf_epochs (toy_randomness 5) (length (replicate 4 (toy_item 1 0))) 2"
    using toy_wf_epochs[of 2] by simp
  note t = C7_epoch_driver [OF toy_fit_final toy_split w]
  have e: "(0::nat) < 2" "(1::nat) < 2" by simp_all
  from t e have "epoch_batch_sizes toy_backend (toy_randomness 5) (replicate 4 (toy_item 1 0))
        [toy_item 1 0] 0
      = (map length (batch_indices (train_loader (toy_randomness 5) (replicate 4 (toy_item 1 0)) 0)),
         map length (batch_indices (valid_loader [toy_item 1 0])))"
    by blast
  then have s0: "epoch_batch_sizes toy_backend (toy_randomness 5) (replicate 4 (toy_item 1 0))
        [toy_item 1 0] 0 = ([4], [1])"
    by (simp add: toy_batch_indices)
  from t e have "epoch_batch_sizes toy_backend (toy_randomness 5) (replicate 4 (toy_item 1 0))
        [toy_item 1 0] 1
      = (map length (batch_indices (train_loader (toy_randomness 5) (replicate 4 (toy_item 1 0)) 1)),
         map length (batch_indices (valid_loader [toy_item 1 0])))"
    by blast
  then have s1: "epoch_batch_sizes toy_backend (toy_randomness 5) (replicate 4 (toy_item 1 0))
        [toy_item 1 0] 1 = ([4], [1])"
    by (simp add: toy_batch_indices)
  from t e have p: "sort (concat (batch_indices
        (train_loader (toy_randomness 5) (replicate 4 (toy_item 1 0)) 1)))
       = [0..<length (replicate 4 (toy_item 1 0))]"
    by blast
  from t have "console_and_files (fs_trace toy_final)
       = concat (map (\<lambda>e. epoch_report e
                    (epoch_outcome toy_backend (toy_randomness 5) (replicate 4 (toy_item 1 0))
                       [toy_item 1 0] e))
                  [0..<2])"
    and "saved_files (fs_trace toy_final) = map checkpoint_name [0..<2]"
    and "distinct (map checkpoint_name [0..<2])"
    by blast+
  with s0 s1 p w toy_fit_final toy_split show ?thesis by blast
qed

end
